theory Spec2Isabelle
  imports Main
begin

section \<open>The service manager of scripts/manage.js\<close>

text \<open>
  The script is a command line controller for one long-running service process. It keeps
  the pid of that process in a PID file, starts the process (attached, or detached with a
  readiness poll every 200 ms), stops it (SIGTERM, a liveness poll every second, SIGKILL
  after 30 polls) and restarts it (stop, then start two seconds later).

  The embedding follows the class \<open>ServiceManager\<close> method by method. What the script
  reads from outside (three files, which file operations fail, the process table, what
  \<open>spawn\<close> does) is a record \<open>os\<close>; what it leaves behind (signals, exit code, console
  lines, pending timers) is the rest of the record \<open>world\<close>. Timer callbacks run to
  completion one after another, and the rest of the system changes \<open>os\<close> only between
  two callbacks.

  Left out: the error log (it is only opened and named in messages) and what the
  callbacks of \<open>exec\<close> print [314-320, 344-350]; the commands handed to \<open>exec\<close> are
  recorded.
\<close>

subsection \<open>JavaScript strings and numbers\<close>

text \<open>
  A string is a list of UTF-16 code units, and \<open>str\<close> turns an ASCII literal into one.
  White space is what \<open>trim\<close> and \<open>parseInt\<close> skip: the white space and line terminator
  characters of ECMAScript.
\<close>

type_synonym jsstring = "nat list"

definition str :: "string \<Rightarrow> jsstring" where
  "str s = map of_char s"

definition newline :: nat where
  "newline = 0x0A"

definition isSpace :: "nat \<Rightarrow> bool" where
  "isSpace u =
     (u \<in> set [0x09, 0x0A, 0x0B, 0x0C, 0x0D, 0x20, 0xA0, 0x1680, 0x2028, 0x2029, 0x202F,
               0x205F, 0x3000, 0xFEFF]
      \<or> (0x2000 \<le> u \<and> u \<le> 0x200A))"

definition trim :: "jsstring \<Rightarrow> jsstring" where
  "trim s = rev (dropWhile isSpace (rev (dropWhile isSpace s)))"

definition digitOf :: "nat \<Rightarrow> nat option" where
  "digitOf u =
     (if 48 \<le> u \<and> u \<le> 57 then Some (u - 48)
      else if 97 \<le> u \<and> u \<le> 102 then Some (u - 87)
      else if 65 \<le> u \<and> u \<le> 70 then Some (u - 55)
      else None)"

definition isDigit :: "nat \<Rightarrow> nat \<Rightarrow> bool" where
  "isDigit radix u = (case digitOf u of None \<Rightarrow> False | Some d \<Rightarrow> d < radix)"

fun digitsValue :: "nat \<Rightarrow> nat \<Rightarrow> jsstring \<Rightarrow> nat" where
  "digitsValue radix acc [] = acc"
| "digitsValue radix acc (u # us) = digitsValue radix (acc * radix + the (digitOf u)) us"

text \<open>
  A number is a double. The numbers of the script are \<open>NaN\<close>, the two infinities and
  doubles whose value is an integer (\<open>Num\<close>; the two zeros are not told apart, both are
  falsy). \<open>roundDouble n\<close> is the double nearest to the natural number \<open>n\<close>, ties to
  the even mantissa of 53 bits, and no number (\<open>Infinity\<close>) from \<open>2^1024\<close> on.
\<close>

datatype jsnum = NaN | Num int | Infinity | NegInfinity

fun bitlen :: "nat \<Rightarrow> nat" where
  "bitlen n = (if n = 0 then 0 else Suc (bitlen (n div 2)))"

declare bitlen.simps [simp del]

definition roundDouble :: "nat \<Rightarrow> nat option" where
  "roundDouble n =
     (let e = bitlen n - 53;
          q = n div 2 ^ e;
          r = n mod 2 ^ e;
          q' = (if 2 ^ e < 2 * r \<or> (2 * r = 2 ^ e \<and> odd q) then Suc q else q)
      in if 2 ^ 1024 \<le> q' * 2 ^ e then None else Some (q' * 2 ^ e))"

text \<open>
  \<open>parseInt(s)\<close> with no radix skips leading white space, reads an optional sign, an
  optional \<open>0x\<close> prefix, and then the longest run of digits of the radix; with no digit
  it is \<open>NaN\<close>, otherwise the double nearest to the integer the digits denote.
\<close>

definition parseInt :: "jsstring \<Rightarrow> jsnum" where
  "parseInt s =
     (let s1 = dropWhile isSpace s;
          negative = (take 1 s1 = str ''-'');
          s2 = (if take 1 s1 = str ''-'' \<or> take 1 s1 = str ''+'' then drop 1 s1 else s1);
          hex = (take 2 s2 = str ''0x'' \<or> take 2 s2 = str ''0X'');
          radix = (if hex then 16 else 10);
          s3 = (if hex then drop 2 s2 else s2);
          ds = takeWhile (isDigit radix) s3
      in if ds = [] then NaN
         else case roundDouble (digitsValue radix 0 ds) of
                None \<Rightarrow> if negative then NegInfinity else Infinity
              | Some v \<Rightarrow> Num (if negative then - int v else int v))"

text \<open>\<open>parseInt(undefined)\<close> reads the string \<open>undefined\<close>, which has no digit.\<close>

definition parseIntArg :: "jsstring option \<Rightarrow> jsnum" where
  "parseIntArg a = (case a of None \<Rightarrow> NaN | Some s \<Rightarrow> parseInt s)"

text \<open>A number is falsy when it is \<open>NaN\<close> or zero.\<close>

definition truthy :: "jsnum \<Rightarrow> bool" where
  "truthy v = (v \<noteq> NaN \<and> v \<noteq> Num 0)"

text \<open>\<open>n.toString()\<close> of an integer, in decimal.\<close>

fun natToString :: "nat \<Rightarrow> jsstring" where
  "natToString n =
     (if n < 10 then [48 + n]
      else natToString (n div 10) @ [48 + n mod 10])"

declare natToString.simps [simp del]

definition intToString :: "int \<Rightarrow> jsstring" where
  "intToString i = (if i < 0 then 45 # natToString (nat (- i)) else natToString (nat i))"

text \<open>\<open>s.startsWith(p)\<close> and \<open>s.includes(p)\<close>.\<close>

fun startsWith :: "jsstring \<Rightarrow> jsstring \<Rightarrow> bool" where
  "startsWith s [] = True"
| "startsWith [] (p # ps) = False"
| "startsWith (c # cs) (p # ps) = (c = p \<and> startsWith cs ps)"

fun includesStr :: "jsstring \<Rightarrow> jsstring \<Rightarrow> bool" where
  "includesStr [] p = (p = [])"
| "includesStr (c # cs) p = (startsWith (c # cs) p \<or> includesStr cs p)"

text \<open>\<open>s.split('\n')\<close>, \<open>xs.slice(-n)\<close> and \<open>xs.join('\n')\<close>.\<close>

fun splitLines :: "jsstring \<Rightarrow> jsstring list" where
  "splitLines [] = [[]]"
| "splitLines (c # cs) =
     (if c = newline then [] # splitLines cs
      else (case splitLines cs of [] \<Rightarrow> [[c]] | l # ls \<Rightarrow> (c # l) # ls))"

definition sliceLast :: "nat \<Rightarrow> 'a list \<Rightarrow> 'a list" where
  "sliceLast n xs = drop (length xs - n) xs"

fun joinLines :: "jsstring list \<Rightarrow> jsstring" where
  "joinLines [] = []"
| "joinLines [l] = l"
| "joinLines (l # ls) = l @ newline # joinLines ls"

subsection \<open>The operating system as the script sees it\<close>

text \<open>
  \<open>pid_file\<close>, \<open>marker_file\<close> and \<open>log_file\<close> are the three files, \<open>None\<close> when
  \<open>existsSync\<close> finds none. \<open>fs_ok s op\<close> says that the file operation \<open>op\<close> returns
  normally in the state \<open>s\<close>; otherwise it throws and changes nothing:
  \<open>MkLogDir\<close> is \<open>ensureLogDir\<close> [19-24], \<open>ReadPid\<close> the \<open>readFileSync\<close> of [29],
  \<open>WritePid\<close> the \<open>writeFileSync\<close> of [49], \<open>UnlinkPid\<close> and \<open>UnlinkMarker\<close> the
  \<open>unlinkSync\<close> of [59] and of [64, 92], \<open>ReadLog\<close> the \<open>readFileSync\<close> of [163], and
  \<open>OpenLog\<close> and \<open>OpenErrLog\<close> the \<open>openSync\<close> of [102] and of [103].

  \<open>kill_ok s p sg\<close> says that \<open>process.kill(p, sg)\<close> returns normally in the state \<open>s\<close>:
  the process exists and the caller may send it \<open>sg\<close>. Otherwise the call throws. The
  probe with signal 0 and a real signal are asked separately, so a process the probe
  finds can still refuse \<open>SIGKILL\<close>.

  The marker file is kept as what \<open>JSON.parse(readFileSync(...))\<close> makes of it: an
  exception (the file cannot be read or its text does not parse), the value \<open>null\<close>
  (reading a property of it throws), or any other value with its \<open>pid\<close> and \<open>port\<close>
  properties.

  \<open>spawn_result\<close> is what spawning the service does next: a child with a pid, an
  exception thrown by \<open>spawn\<close>, or a child without a pid followed by an \<open>error\<close> event.
  \<open>child_exit\<close> is when an attached child exits (delay, exit code, signal), and
  \<open>sigint\<close> when the user interrupts a followed log; \<open>None\<close> is never.
\<close>

datatype signal = SIG0 | SIGTERM | SIGKILL

datatype jsval = Undefined | Number int | Other

datatype marker = Unparsable | JsonNull | Json jsval jsval

datatype spawn_result = Spawned int | SpawnThrows | SpawnErrorEvent

datatype fileop =
  MkLogDir | ReadPid | WritePid | UnlinkPid | UnlinkMarker | ReadLog | OpenLog | OpenErrLog

record os =
  pid_file :: "jsstring option"
  marker_file :: "marker option"
  log_file :: "jsstring option"
  fs_ok :: "fileop \<Rightarrow> bool"
  kill_ok :: "int \<Rightarrow> signal \<Rightarrow> bool"
  spawn_result :: spawn_result
  child_exit :: "(nat \<times> int option \<times> jsstring option) option"
  sigint :: "nat option"

text \<open>
  Console output, one constructor for each group of \<open>console.log\<close>,
  \<open>console.warn\<close> and \<open>console.error\<close> calls of the script (source lines in brackets).
\<close>

datatype msg =
    ReadPidFailed               \<comment> \<open>[33]\<close>
  | PidSaved int                \<comment> \<open>[50]\<close>
  | WritePidFailed              \<comment> \<open>[52]\<close>
  | PidFileRemoved              \<comment> \<open>[60]\<close>
  | MarkerRemoved               \<comment> \<open>[65]\<close>
  | CleanupFailed               \<comment> \<open>[68]\<close>
  | AlreadyRunning "int option" \<comment> \<open>[83]\<close>
  | Starting                    \<comment> \<open>[87]\<close>
  | ClearMarkerFailed           \<comment> \<open>[94]\<close>
  | DaemonSpawned "int option"  \<comment> \<open>[115]\<close>
  | Waiting                     \<comment> \<open>[117-121]\<close>
  | StartFailedExited           \<comment> \<open>[131-135]\<close>
  | StartedByMarker jsval       \<comment> \<open>[146-152]\<close>
  | StartedByLog                \<comment> \<open>[169-174]\<close>
  | StartFailedLog "jsstring list" \<comment> \<open>[185-191]\<close>
  | StartTimeout                \<comment> \<open>[208-213]\<close>
  | DaemonLaunchFailed          \<comment> \<open>[218]\<close>
  | ForegroundSpawned "int option" \<comment> \<open>[228]\<close>
  | ChildExited "int option" "jsstring option" \<comment> \<open>[236]\<close>
  | LaunchFailed                \<comment> \<open>[241]\<close>
  | NotRunning                  \<comment> \<open>[252]\<close>
  | Stopping "int option"       \<comment> \<open>[257]\<close>
  | Stopped                     \<comment> \<open>[271]\<close>
  | GraceTimeout                \<comment> \<open>[278]\<close>
  | ForceStopped                \<comment> \<open>[281]\<close>
  | ForceStopFailed             \<comment> \<open>[283]\<close>
  | StopFailed                  \<comment> \<open>[289]\<close>
  | Restarting                  \<comment> \<open>[298]\<close>
  | StatusRunning "int option"  \<comment> \<open>[311]\<close>
  | StatusNotRunning            \<comment> \<open>[322]\<close>
  | FollowLogs                  \<comment> \<open>[329]\<close>
  | FollowStopped               \<comment> \<open>[338]\<close>
  | RecentLogs jsnum            \<comment> \<open>[342]\<close>
  | Help                        \<comment> \<open>[355-409]\<close>
  | UnknownCommand "jsstring option" \<comment> \<open>[455]\<close>
  | Uncaught                    \<comment> \<open>an exception no handler catches\<close>

text \<open>Shell commands handed to \<open>exec\<close> and \<open>spawn\<close> other than the service itself.\<close>

datatype command = Ps "int option" | TailLines jsnum | TailFollow

text \<open>
  The pending callbacks of the event loop. An interval keeps the counter of its closure:
  \<open>CheckExit p attempts\<close> is the interval of \<open>stop\<close> [267-287],
  \<open>CheckInterval child checkCount\<close> the one of \<open>start\<close> [125-216],
  \<open>RestartTimeout daemon\<close> the timeout of \<open>restart\<close> [301-303],
  \<open>OnChildExit\<close> and \<open>OnChildError\<close> the child's events [233-243] (the flag says
  whether a listener is registered), \<open>OnSigint\<close> the handler of \<open>logs\<close> [336-340].
\<close>

datatype timer =
    CheckExit "int option" nat
  | CheckInterval "int option" nat
  | RestartTimeout bool
  | OnChildExit "int option" "jsstring option"
  | OnChildError bool
  | OnSigint

record world =
  sys :: os
  now :: nat
  seq :: nat
  timers :: "(nat \<times> nat \<times> timer) list"
  next_id :: nat
  blocked :: bool
  kills :: "(int option \<times> signal) list"
  execs :: "command list"
  out :: "msg list"
  exit_code :: "nat option"

definition say :: "msg \<Rightarrow> world \<Rightarrow> world" where
  "say m w = w\<lparr>out := out w @ [m]\<rparr>"

definition processExit :: "nat \<Rightarrow> world \<Rightarrow> world" where
  "processExit c w = w\<lparr>exit_code := Some c\<rparr>"

text \<open>An exception that nothing catches ends the controller with exit code 1.\<close>

definition uncaught :: "world \<Rightarrow> world" where
  "uncaught w = processExit 1 (say Uncaught w)"

text \<open>
  \<open>process.kill(p, s)\<close> with a real signal: the call is recorded in \<open>kills\<close> whether
  it throws or not; the result says whether it returned normally. A pid that is no
  integer (\<open>undefined\<close>, an infinity) makes the call throw.
\<close>

definition processKill :: "int option \<Rightarrow> signal \<Rightarrow> world \<Rightarrow> bool \<times> world" where
  "processKill p s w =
     ((case p of None \<Rightarrow> False | Some n \<Rightarrow> kill_ok (sys w) n s),
      w\<lparr>kills := kills w @ [(p, s)]\<rparr>)"

text \<open>
  \<open>setTimeout\<close> and \<open>setInterval\<close>: the callback is kept with its due time and the
  number of this arming.
\<close>

definition setTimer :: "nat \<Rightarrow> timer \<Rightarrow> world \<Rightarrow> world" where
  "setTimer delay t w =
     w\<lparr>timers := timers w @ [(now w + delay, next_id w, t)], next_id := Suc (next_id w)\<rparr>"

text \<open>
  An event that Node emits on the next tick runs before every timer: it is kept like a
  timer that was due at time 0.
\<close>

definition nextTick :: "timer \<Rightarrow> world \<Rightarrow> world" where
  "nextTick t w = w\<lparr>timers := timers w @ [(0, next_id w, t)], next_id := Suc (next_id w)\<rparr>"

subsection \<open>The process registry [26-78]\<close>

text \<open>\<open>getPid\<close> [26-36]: a read that throws is reported and gives \<open>null\<close>.\<close>

definition getPid :: "world \<Rightarrow> jsnum option \<times> world" where
  "getPid w =
     (case pid_file (sys w) of
        Some text \<Rightarrow>
          if fs_ok (sys w) ReadPid then (Some (parseInt (trim text)), w)
          else (None, say ReadPidFailed w)
      | None \<Rightarrow> (None, w))"

definition isProcessRunning :: "world \<Rightarrow> int option \<Rightarrow> bool" where
  "isProcessRunning w p = (case p of None \<Rightarrow> False | Some n \<Rightarrow> kill_ok (sys w) n SIG0)"

text \<open>
  \<open>writePid\<close> [47-54]: \<open>undefined.toString()\<close> and a write that throws are both caught
  and reported.
\<close>

definition writePid :: "int option \<Rightarrow> world \<Rightarrow> world" where
  "writePid p w =
     (case p of
        Some n \<Rightarrow>
          if fs_ok (sys w) WritePid
          then say (PidSaved n) (w\<lparr>sys := (sys w)\<lparr>pid_file := Some (intToString n)\<rparr>\<rparr>)
          else say WritePidFailed w
      | None \<Rightarrow> say WritePidFailed w)"

text \<open>
  \<open>removePidFile\<close> [56-70]: one \<open>try\<close> around both removals, so an \<open>unlinkSync\<close> of
  the PID file that throws leaves the marker untried.
\<close>

definition removePidFile :: "world \<Rightarrow> world" where
  "removePidFile w =
     (if pid_file (sys w) \<noteq> None \<and> \<not> fs_ok (sys w) UnlinkPid then say CleanupFailed w
      else
        let w1 = (if pid_file (sys w) \<noteq> None
                  then say PidFileRemoved (w\<lparr>sys := (sys w)\<lparr>pid_file := None\<rparr>\<rparr>) else w)
        in if marker_file (sys w1) = None then w1
           else if fs_ok (sys w1) UnlinkMarker
           then say MarkerRemoved (w1\<lparr>sys := (sys w1)\<lparr>marker_file := None\<rparr>\<rparr>)
           else say CleanupFailed w1)"

record status =
  running :: bool
  pid :: "int option"

text \<open>
  The pid as \<open>pid && ...\<close> reads it [74]: \<open>null\<close>, \<open>NaN\<close> and 0 are falsy. \<open>pidOf\<close> is
  the pid as \<open>process.kill\<close> takes it.
\<close>

definition truthyPid :: "jsnum option \<Rightarrow> bool" where
  "truthyPid p = (case p of None \<Rightarrow> False | Some v \<Rightarrow> truthy v)"

definition pidOf :: "jsnum option \<Rightarrow> int option" where
  "pidOf p = (case p of Some (Num n) \<Rightarrow> Some n | _ \<Rightarrow> None)"

definition getStatus :: "world \<Rightarrow> status \<times> world" where
  "getStatus w =
     (let (p, w1) = getPid w
      in if truthyPid p \<and> isProcessRunning w1 (pidOf p)
         then (\<lparr>running = True, pid = pidOf p\<rparr>, w1)
         else (\<lparr>running = False, pid = None\<rparr>, w1))"

subsection \<open>The readiness detector: the interval of \<open>start\<close> [125-216]\<close>

text \<open>
  The log as the scan gets it [162-163] (a read that throws is caught at [202] like a
  missing file), the text the scan looks at [164], and its two verdicts [167, 180-182].
\<close>

definition readLog :: "os \<Rightarrow> jsstring option" where
  "readLog s = (if fs_ok s ReadLog then log_file s else None)"

definition recentLog :: "jsstring \<Rightarrow> jsstring" where
  "recentLog logContent = joinLines (sliceLast 30 (splitLines logContent))"

definition startupSucceeded :: "jsstring \<Rightarrow> bool" where
  "startupSucceeded r = includesStr r (str ''Claude Relay Service started on'')"

definition startupFailed :: "jsstring \<Rightarrow> bool" where
  "startupFailed r =
     (includesStr r (str ''Failed to start server'')
      \<or> includesStr r (str ''Application initialization failed'')
      \<or> includesStr r (str ''Failed to connect to Redis''))"

definition errorLines :: "jsstring \<Rightarrow> jsstring list" where
  "errorLines r = sliceLast 5 (filter (\<lambda>line. includesStr line (str ''ERROR'')) (splitLines r))"

text \<open>\<open>markerData.pid === child.pid\<close> [144]; \<open>child.pid\<close> is a number or undefined.\<close>

definition strictEq :: "jsval \<Rightarrow> int option \<Rightarrow> bool" where
  "strictEq v p =
     (case (v, p) of
        (Number a, Some b) \<Rightarrow> a = b
      | (Undefined, None) \<Rightarrow> True
      | _ \<Rightarrow> False)"

text \<open>The last check of a tick [206-215].\<close>

definition timeoutCheck :: "nat \<Rightarrow> world \<Rightarrow> world" where
  "timeoutCheck checkCount w =
     (if checkCount \<ge> 30 then processExit 0 (say StartTimeout w) else w)"

text \<open>The fallback log scan [161-204].\<close>

definition logScan :: "int option \<Rightarrow> nat \<Rightarrow> world \<Rightarrow> world" where
  "logScan child checkCount w =
     (case readLog (sys w) of
        Some logContent \<Rightarrow>
          (let r = recentLog logContent in
           if startupSucceeded r then processExit 0 (say StartedByLog w)
           else if startupFailed r then
             processExit 1
               (snd (processKill child SIGTERM
                  (removePidFile (say (StartFailedLog (errorLines r)) w))))
           else timeoutCheck checkCount w)
      | None \<Rightarrow> timeoutCheck checkCount w)"

text \<open>
  The marker check [141-158]: the file exists, parses to a value that has properties, and
  its \<open>pid\<close> is the child's. Without such a marker the tick goes on.
\<close>

definition validMarker :: "marker option \<Rightarrow> int option \<Rightarrow> bool" where
  "validMarker m child = (case m of Some (Json p port) \<Rightarrow> strictEq p child | _ \<Rightarrow> False)"

definition markerPort :: "marker option \<Rightarrow> jsval" where
  "markerPort m = (case m of Some (Json p port) \<Rightarrow> port | _ \<Rightarrow> Undefined)"

definition markerCheck :: "int option \<Rightarrow> nat \<Rightarrow> world \<Rightarrow> world" where
  "markerCheck child checkCount w =
     (if validMarker (marker_file (sys w)) child
      then processExit 0 (say (StartedByMarker (markerPort (marker_file (sys w)))) w)
      else logScan child checkCount w)"

text \<open>
  One tick, with \<open>checkCount\<close> already incremented [126]: the liveness check first
  [129-138]. Every way out that resolves the launch ends in \<open>process.exit\<close>.
\<close>

definition checkInterval :: "int option \<Rightarrow> nat \<Rightarrow> world \<Rightarrow> world" where
  "checkInterval child checkCount w =
     (if \<not> isProcessRunning w child
      then processExit 1 (removePidFile (say StartFailedExited w))
      else markerCheck child checkCount w)"

subsection \<open>\<open>start\<close> [80-247]\<close>

text \<open>
  The background branch [98-221]; the \<open>catch\<close> is reached from \<open>openSync\<close> or \<open>spawn\<close>.
  Opening the log for appending creates it when it is missing.
\<close>

definition daemonCatch :: "world \<Rightarrow> world" where
  "daemonCatch w = processExit 1 (removePidFile (say DaemonLaunchFailed w))"

definition openLog :: "world \<Rightarrow> world" where
  "openLog w =
     w\<lparr>sys := (sys w)\<lparr>log_file := Some (case log_file (sys w) of None \<Rightarrow> [] | Some l \<Rightarrow> l)\<rparr>\<rparr>"

definition daemonChild :: "int option \<Rightarrow> world \<Rightarrow> world" where
  "daemonChild child w =
     setTimer 200 (CheckInterval child 0)
       (say Waiting (writePid child (say (DaemonSpawned child) w)))"

definition startDaemon :: "world \<Rightarrow> world" where
  "startDaemon w =
     (if \<not> fs_ok (sys w) OpenLog then daemonCatch w
      else if \<not> fs_ok (sys w) OpenErrLog then daemonCatch (openLog w)
      else case spawn_result (sys w) of
        SpawnThrows \<Rightarrow> daemonCatch (openLog w)
      | Spawned p \<Rightarrow> daemonChild (Some p) (openLog w)
      | SpawnErrorEvent \<Rightarrow> nextTick (OnChildError False) (daemonChild None (openLog w)))"

text \<open>The foreground branch [224-243]; nothing catches an exception of \<open>spawn\<close> here.\<close>

definition awaitChild :: "world \<Rightarrow> world" where
  "awaitChild w =
     (case child_exit (sys w) of
        Some (delay, code, sg) \<Rightarrow> setTimer delay (OnChildExit code sg) w
      | None \<Rightarrow> w\<lparr>blocked := True\<rparr>)"

definition startForeground :: "world \<Rightarrow> world" where
  "startForeground w =
     (case spawn_result (sys w) of
        SpawnThrows \<Rightarrow> uncaught w
      | Spawned p \<Rightarrow> awaitChild (writePid (Some p) (say (ForegroundSpawned (Some p)) w))
      | SpawnErrorEvent \<Rightarrow>
          nextTick (OnChildError True) (writePid None (say (ForegroundSpawned None) w)))"

text \<open>Removing an old marker before the launch [90-96].\<close>

definition clearMarker :: "world \<Rightarrow> world" where
  "clearMarker w =
     (if marker_file (sys w) = None then w
      else if fs_ok (sys w) UnlinkMarker then w\<lparr>sys := (sys w)\<lparr>marker_file := None\<rparr>\<rparr>
      else say ClearMarkerFailed w)"

definition start :: "bool \<Rightarrow> world \<Rightarrow> bool \<times> world" where
  "start daemon w =
     (let (st, w0) = getStatus w in
      if running st then (False, say (AlreadyRunning (pid st)) w0)
      else
        let w1 = clearMarker (say Starting w0)
        in (True, if daemon then startDaemon w1 else startForeground w1))"

subsection \<open>\<open>stop\<close> [249-295] and its interval [267-287]\<close>

text \<open>
  One tick, with \<open>attempts\<close> already incremented [268]. The result says whether the
  tick cleared the interval.
\<close>

definition checkExit :: "int option \<Rightarrow> nat \<Rightarrow> world \<Rightarrow> bool \<times> world" where
  "checkExit p attempts w =
     (if \<not> isProcessRunning w p then (True, removePidFile (say Stopped w))
      else if attempts \<ge> 30 then
        (let (ok, w1) = processKill p SIGKILL (say GraceTimeout w)
         in (True, removePidFile (say (if ok then ForceStopped else ForceStopFailed) w1)))
      else (False, w))"

definition stop :: "world \<Rightarrow> bool \<times> world" where
  "stop w =
     (let (st, w0) = getStatus w in
      if \<not> running st then (False, removePidFile (say NotRunning w0))
      else
        let (ok, w1) = processKill (pid st) SIGTERM (say (Stopping (pid st)) w0)
        in if ok then (True, setTimer 1000 (CheckExit (pid st) 0) w1)
           else (False, removePidFile (say StopFailed w1)))"

subsection \<open>\<open>restart\<close> [297-306], \<open>status\<close> [308-325], \<open>logs\<close> [327-352], \<open>help\<close> [354-410]\<close>

definition restart :: "bool \<Rightarrow> world \<Rightarrow> bool \<times> world" where
  "restart daemon w =
     (True, setTimer 2000 (RestartTimeout daemon) (snd (stop (say Restarting w))))"

definition statusCmd :: "world \<Rightarrow> bool \<times> world" where
  "statusCmd w =
     (let (st, w0) = getStatus w in
      if running st
      then (True, (say (StatusRunning (pid st)) w0)\<lparr>execs := execs w0 @ [Ps (pid st)]\<rparr>)
      else (False, say StatusNotRunning w0))"

definition logs :: "jsnum \<Rightarrow> bool \<Rightarrow> world \<Rightarrow> world" where
  "logs lines follow w =
     (if follow then
        (let w1 = (say FollowLogs w)\<lparr>execs := execs w @ [TailFollow]\<rparr>
         in case sigint (sys w1) of
              Some delay \<Rightarrow> setTimer delay OnSigint w1
            | None \<Rightarrow> w1\<lparr>blocked := True\<rparr>)
      else (say (RecentLogs lines) w)\<lparr>execs := execs w @ [TailLines lines]\<rparr>)"

definition helpCmd :: "world \<Rightarrow> world" where
  "helpCmd w = say Help w"

subsection \<open>\<open>main\<close> [414-459]\<close>

text \<open>The positional argument of \<open>logs\<close> [441-443] and the line count [444].\<close>

definition linesArg :: "jsstring list \<Rightarrow> jsstring option" where
  "linesArg args =
     find (\<lambda>arg. \<not> startsWith arg (str ''-'') \<and> arg \<noteq> str ''logs'' \<and> arg \<noteq> str ''log''
                 \<and> arg \<noteq> str ''l'') args"

definition linesOf :: "jsstring list \<Rightarrow> jsnum" where
  "linesOf args = (let v = parseIntArg (linesArg args) in if truthy v then v else Num 50)"

text \<open>
  The constructor runs \<open>ensureLogDir\<close> [15-24] before anything else, and nothing
  catches what it throws.
\<close>

definition dispatch :: "jsstring list \<Rightarrow> world \<Rightarrow> world" where
  "dispatch args w =
     (let command = (case args of [] \<Rightarrow> None | a # _ \<Rightarrow> Some a);
          isDaemon = (str ''-d'' \<in> set args \<or> str ''--daemon'' \<in> set args)
      in if command = Some (str ''start'') \<or> command = Some (str ''s'')
         then snd (start isDaemon w)
         else if command = Some (str ''stop'') \<or> command = Some (str ''halt'')
         then snd (stop w)
         else if command = Some (str ''restart'') \<or> command = Some (str ''r'')
         then snd (restart isDaemon w)
         else if command = Some (str ''status'') \<or> command = Some (str ''st'')
         then snd (statusCmd w)
         else if command = Some (str ''logs'') \<or> command = Some (str ''log'')
                 \<or> command = Some (str ''l'')
         then logs (linesOf args) (str ''-f'' \<in> set args \<or> str ''--follow'' \<in> set args) w
         else if command = Some (str ''help'') \<or> command = Some (str ''--help'')
                 \<or> command = Some (str ''-h'') \<or> command = Some (str ''h'')
         then helpCmd w
         else processExit 1 (helpCmd (say (UnknownCommand command) w)))"

definition main :: "jsstring list \<Rightarrow> world \<Rightarrow> world" where
  "main args w = (if fs_ok (sys w) MkLogDir then dispatch args w else uncaught w)"

subsection \<open>The event loop\<close>

text \<open>
  A pending callback is kept with its due time (ms) and the number of its arming; an
  interval is armed anew, with a new number, when its callback returns without having
  cleared it. Callbacks fire in the order of their due time, and of two due at the same
  time the one armed first: Node keeps the timers of one duration in a list in the
  order of their arming, and of two lists due at the same time it runs first the one
  that was scheduled first. A callback takes no time. Before the callback number \<open>k\<close>
  of a run the rest of the system turns the state \<open>s\<close> of the operating system into
  \<open>env k s\<close>. A controller whose attached child never exits stays \<open>blocked\<close>.
  \<open>run env fuel w\<close> is the world in which the controller ends, if it ends within
  \<open>fuel\<close> callbacks.
\<close>

fun earlier :: "nat \<times> nat \<times> timer \<Rightarrow> nat \<times> nat \<times> timer \<Rightarrow> bool" where
  "earlier (d1, i1, t1) (d2, i2, t2) = (d1 < d2 \<or> (d1 = d2 \<and> i1 \<le> i2))"

fun nextTimer :: "(nat \<times> nat \<times> timer) list \<Rightarrow> (nat \<times> nat \<times> timer) option" where
  "nextTimer [] = None"
| "nextTimer (e # es) =
     (case nextTimer es of
        None \<Rightarrow> Some e
      | Some e' \<Rightarrow> if earlier e e' then Some e else Some e')"

fun fire :: "timer \<Rightarrow> world \<Rightarrow> world" where
  "fire (CheckExit p attempts) w =
     (let (cleared, w1) = checkExit p (Suc attempts) w
      in if cleared then w1 else setTimer 1000 (CheckExit p (Suc attempts)) w1)"
| "fire (CheckInterval child checkCount) w =
     (let w1 = checkInterval child (Suc checkCount) w
      in if exit_code w1 \<noteq> None then w1
         else setTimer 200 (CheckInterval child (Suc checkCount)) w1)"
| "fire (RestartTimeout daemon) w = snd (start daemon w)"
| "fire (OnChildExit code sg) w =
     (let w1 = removePidFile w
      in if code \<noteq> Some 0 then say (ChildExited code sg) w1 else w1)"
| "fire (OnChildError listener) w =
     (if listener then removePidFile (say LaunchFailed w) else uncaught w)"
| "fire OnSigint w = processExit 0 (say FollowStopped w)"

definition step :: "(nat \<Rightarrow> os \<Rightarrow> os) \<Rightarrow> world \<Rightarrow> world" where
  "step env w =
     (case nextTimer (timers w) of
        None \<Rightarrow> w
      | Some (due, i, t) \<Rightarrow>
          fire t
            (w\<lparr>sys := env (seq w) (sys w),
               now := max (now w) due,
               seq := Suc (seq w),
               timers := filter (\<lambda>e. fst (snd e) \<noteq> i) (timers w)\<rparr>))"

definition halted :: "world \<Rightarrow> bool" where
  "halted w = (exit_code w \<noteq> None \<or> (timers w = [] \<and> \<not> blocked w))"

fun run :: "(nat \<Rightarrow> os \<Rightarrow> os) \<Rightarrow> nat \<Rightarrow> world \<Rightarrow> world option" where
  "run env 0 w = (if halted w then Some w else None)"
| "run env (Suc fuel) w = (if halted w then Some w else run env fuel (step env w))"

text \<open>The exit code of the controller: that of \<open>process.exit\<close>, or 0 when the loop drains.\<close>

definition exitStatus :: "world \<Rightarrow> nat" where
  "exitStatus w = (case exit_code w of Some c \<Rightarrow> c | None \<Rightarrow> 0)"

subsection \<open>Notions used to state the properties\<close>

text \<open>A controller that has just been started: nothing pending, nothing printed.\<close>

definition fresh :: "world \<Rightarrow> bool" where
  "fresh w = (timers w = [] \<and> \<not> blocked w \<and> exit_code w = None \<and> kills w = []
              \<and> execs w = [] \<and> out w = [])"

text \<open>
  \<open>osAt env j s k\<close> is the state of the operating system that the callback number
  \<open>j + k\<close> would see, were \<open>s\<close> the state before callback \<open>j\<close> and had the script
  written nothing in between: the environment's moves alone.
\<close>

fun osAt :: "(nat \<Rightarrow> os \<Rightarrow> os) \<Rightarrow> nat \<Rightarrow> os \<Rightarrow> nat \<Rightarrow> os" where
  "osAt env j s 0 = s"
| "osAt env j s (Suc k) = osAt env (Suc j) (env j s) k"

text \<open>The world a callback due at \<open>d\<close> starts in, when it is the only one pending.\<close>

definition enter :: "(nat \<Rightarrow> os \<Rightarrow> os) \<Rightarrow> nat \<Rightarrow> world \<Rightarrow> world" where
  "enter env d w = w\<lparr>sys := env (seq w) (sys w), now := max (now w) d, seq := Suc (seq w),
     timers := []\<rparr>"

text \<open>
  What a readiness tick finds. \<open>stillStarting\<close>: the child answers the probe, no marker
  names it, and the recent log, if it can be read, holds neither a success nor a failure
  string. \<open>launchFailed\<close>: the child is gone, or no marker names it and the recent log
  holds a failure string and no success string. \<open>launchSucceeded\<close>: the child answers
  and a marker names it or the recent log holds a success string.
\<close>

definition alive :: "int option \<Rightarrow> os \<Rightarrow> bool" where
  "alive child s = (case child of None \<Rightarrow> False | Some n \<Rightarrow> kill_ok s n SIG0)"

definition stillStarting :: "int option \<Rightarrow> os \<Rightarrow> bool" where
  "stillStarting child s =
     (alive child s \<and> \<not> validMarker (marker_file s) child
      \<and> (case readLog s of
           None \<Rightarrow> True
         | Some l \<Rightarrow> \<not> startupSucceeded (recentLog l) \<and> \<not> startupFailed (recentLog l)))"

definition launchFailed :: "int option \<Rightarrow> os \<Rightarrow> bool" where
  "launchFailed child s =
     (\<not> alive child s
      \<or> (\<not> validMarker (marker_file s) child
         \<and> (case readLog s of
              None \<Rightarrow> False
            | Some l \<Rightarrow> \<not> startupSucceeded (recentLog l) \<and> startupFailed (recentLog l))))"

definition launchSucceeded :: "int option \<Rightarrow> os \<Rightarrow> bool" where
  "launchSucceeded child s =
     (alive child s
      \<and> (validMarker (marker_file s) child
         \<or> (case readLog s of None \<Rightarrow> False | Some l \<Rightarrow> startupSucceeded (recentLog l))))"

text \<open>Both logs can be opened [102-103].\<close>

definition logsOpen :: "os \<Rightarrow> bool" where
  "logsOpen s = (fs_ok s OpenLog \<and> fs_ok s OpenErrLog)"

text \<open>
  What \<open>removePidFile\<close> leaves of the state \<open>s\<close> and what it prints there, and what
  \<open>getPid\<close> prints.
\<close>

definition afterCleanup :: "os \<Rightarrow> os" where
  "afterCleanup s =
     (if pid_file s \<noteq> None \<and> \<not> fs_ok s UnlinkPid then s
      else s\<lparr>pid_file := None,
             marker_file := (if fs_ok s UnlinkMarker then None else marker_file s)\<rparr>)"

definition cleanupLines :: "os \<Rightarrow> msg list" where
  "cleanupLines s =
     (if pid_file s \<noteq> None \<and> \<not> fs_ok s UnlinkPid then [CleanupFailed]
      else (if pid_file s \<noteq> None then [PidFileRemoved] else [])
         @ (if marker_file s = None then []
            else if fs_ok s UnlinkMarker then [MarkerRemoved] else [CleanupFailed]))"

definition readPidLines :: "os \<Rightarrow> msg list" where
  "readPidLines s = (if pid_file s \<noteq> None \<and> \<not> fs_ok s ReadPid then [ReadPidFailed] else [])"

text \<open>What a background launch that spawns child \<open>p\<close> prints before its first tick.\<close>

definition launchLines :: "os \<Rightarrow> int \<Rightarrow> msg list" where
  "launchLines s p =
     readPidLines s @ [Starting]
     @ (if marker_file s \<noteq> None \<and> \<not> fs_ok s UnlinkMarker then [ClearMarkerFailed] else [])
     @ [DaemonSpawned (Some p), if fs_ok s WritePid then PidSaved p else WritePidFailed, Waiting]"

text \<open>The same world with another log, and what a tick decides and leaves behind.\<close>

definition withLog :: "jsstring option \<Rightarrow> world \<Rightarrow> world" where
  "withLog l w = w\<lparr>sys := (sys w)\<lparr>log_file := l\<rparr>\<rparr>"

type_synonym tick_result =
  "nat option \<times> (int option \<times> signal) list \<times> msg list \<times> jsstring option \<times> marker option"

definition verdict :: "world \<Rightarrow> tick_result" where
  "verdict w = (exit_code w, kills w, out w, pid_file (sys w), marker_file (sys w))"

text \<open>
  The console lines after which the script calls \<open>process.exit(1)\<close> or dies of an
  exception: the child gone at a readiness tick [131], a failure string in the log
  [185], an exception while launching in the background [218], an unknown command
  [455], an exception nobody catches.
\<close>

fun fatal :: "msg \<Rightarrow> bool" where
  "fatal StartFailedExited = True"
| "fatal (StartFailedLog errs) = True"
| "fatal DaemonLaunchFailed = True"
| "fatal (UnknownCommand c) = True"
| "fatal Uncaught = True"
| "fatal m = False"

text \<open>
  The lines that report readiness [146, 169] or the soft timeout [208]; each is followed
  by \<open>process.exit(0)\<close>.
\<close>

fun resolved :: "msg \<Rightarrow> bool" where
  "resolved (StartedByMarker port) = True"
| "resolved StartedByLog = True"
| "resolved StartTimeout = True"
| "resolved m = False"

text \<open>
  The invariant of the event loop that ties the exit code to what was printed: while the
  controller runs it has printed neither kind of line; once it has exited, a fatal line
  goes with code 1 and excludes a line of the other kind, and no fatal line goes with
  code 0.
\<close>

definition quiet :: "world \<Rightarrow> bool" where
  "quiet w = (exit_code w = None \<and> \<not> list_ex fatal (out w) \<and> \<not> list_ex resolved (out w))"

definition accounted :: "world \<Rightarrow> bool" where
  "accounted w =
     (case exit_code w of
        None \<Rightarrow> \<not> list_ex fatal (out w) \<and> \<not> list_ex resolved (out w)
      | Some c \<Rightarrow>
          if list_ex fatal (out w) then c = 1 \<and> \<not> list_ex resolved (out w) else c = 0)"

text \<open>
  The command words \<open>main\<close> knows [421-451], and the command lines that start the
  service in the background, that start it in the foreground, and that stop it.
\<close>

definition commands :: "jsstring list" where
  "commands = map str [''start'', ''s'', ''stop'', ''halt'', ''restart'', ''r'', ''status'',
     ''st'', ''logs'', ''log'', ''l'', ''help'', ''--help'', ''-h'', ''h'']"

definition unknownCommand :: "jsstring list \<Rightarrow> bool" where
  "unknownCommand args = (case args of [] \<Rightarrow> True | a # rest \<Rightarrow> a \<notin> set commands)"

definition backgroundStart :: "jsstring list \<Rightarrow> bool" where
  "backgroundStart args =
     ((case args of [] \<Rightarrow> False | a # rest \<Rightarrow> a = str ''start'' \<or> a = str ''s'')
      \<and> (str ''-d'' \<in> set args \<or> str ''--daemon'' \<in> set args))"

definition foregroundStart :: "jsstring list \<Rightarrow> bool" where
  "foregroundStart args =
     ((case args of [] \<Rightarrow> False | a # rest \<Rightarrow> a = str ''start'' \<or> a = str ''s'')
      \<and> str ''-d'' \<notin> set args \<and> str ''--daemon'' \<notin> set args)"

definition stopCommand :: "jsstring list \<Rightarrow> bool" where
  "stopCommand args = (case args of [] \<Rightarrow> False | a # rest \<Rightarrow> a = str ''stop'' \<or> a = str ''halt'')"

subsection \<open>Concrete situations\<close>

text \<open>
  \<open>exampleOs\<close>: the service runs as pid 4242, has written its marker and its success
  line, answers every signal, and no file operation fails. \<open>boot s\<close> is a controller
  just started on \<open>s\<close>. The environment \<open>idle\<close> changes nothing; \<open>exitsAt n p\<close> lets the
  process \<open>p\<close> disappear just before callback \<open>n\<close>, and \<open>readyAt n p\<close> lets it write
  its marker then.
\<close>

definition exampleOs :: os where
  "exampleOs = \<lparr>pid_file = Some (str ''4242''),
     marker_file = Some (Json (Number 4242) (Number 3000)),
     log_file = Some (str ''Claude Relay Service started on 3000''), fs_ok = (\<lambda>op. True),
     kill_ok = (\<lambda>p s. True), spawn_result = Spawned 4243, child_exit = None, sigint = None\<rparr>"

definition boot :: "os \<Rightarrow> world" where
  "boot s = \<lparr>sys = s, now = 0, seq = 0, timers = [], next_id = 0, blocked = False,
     kills = [], execs = [], out = [], exit_code = None\<rparr>"

definition idle :: "nat \<Rightarrow> os \<Rightarrow> os" where
  "idle k s = s"

definition gone :: "int \<Rightarrow> os \<Rightarrow> os" where
  "gone p s = s\<lparr>kill_ok := (\<lambda>q sg. q \<noteq> p \<and> kill_ok s q sg)\<rparr>"

definition exitsAt :: "nat \<Rightarrow> int \<Rightarrow> nat \<Rightarrow> os \<Rightarrow> os" where
  "exitsAt n p k s = (if k = n then gone p s else s)"

definition readyAt :: "nat \<Rightarrow> int \<Rightarrow> nat \<Rightarrow> os \<Rightarrow> os" where
  "readyAt n p k s =
     (if k = n then s\<lparr>marker_file := Some (Json (Number p) (Number 3000))\<rparr> else s)"

text \<open>The probe finds pid 4242, but every real signal to it throws.\<close>

definition deniedOs :: os where
  "deniedOs = exampleOs\<lparr>kill_ok := (\<lambda>p s. s = SIG0)\<rparr>"

text \<open>Pid 4242 takes every signal but \<open>SIGKILL\<close>, which throws.\<close>

definition stubbornOs :: os where
  "stubbornOs = exampleOs\<lparr>kill_ok := (\<lambda>p s. s \<noteq> SIGKILL)\<rparr>"

text \<open>The PID file holds text that is no number.\<close>

definition garbledOs :: os where
  "garbledOs = exampleOs\<lparr>pid_file := Some (str ''abc'')\<rparr>"

text \<open>A stale PID file and marker: no process answers.\<close>

definition staleOs :: os where
  "staleOs = exampleOs\<lparr>kill_ok := (\<lambda>p s. False)\<rparr>"

text \<open>Nothing runs and nothing was written; the next child gets pid 4243.\<close>

definition emptyOs :: os where
  "emptyOs = exampleOs\<lparr>pid_file := None, marker_file := None, log_file := None\<rparr>"

text \<open>
  The child 4243 has written a failure line. In \<open>failingOs\<close> it still runs but
  refuses \<open>SIGTERM\<close>; in \<open>crashedOs\<close> it has exited already.
\<close>

definition failingOs :: os where
  "failingOs = exampleOs\<lparr>pid_file := Some (str ''4243''), marker_file := None,
     log_file := Some (str ''Failed to connect to Redis''), kill_ok := (\<lambda>p s. s = SIG0)\<rparr>"

definition crashedOs :: os where
  "crashedOs = exampleOs\<lparr>pid_file := Some (str ''4243''), marker_file := None,
     log_file := Some (str ''Failed to start server''), kill_ok := (\<lambda>p s. False)\<rparr>"

text \<open>
  \<open>pinned s\<close>: the state \<open>s\<close> with a PID file that cannot be deleted (its directory
  is not writable, say). \<open>noProgramOs\<close>: nothing runs and the program to spawn cannot
  be found; \<open>noSpawnOs\<close>: nothing runs and \<open>spawn\<close> throws.
\<close>

definition pinned :: "os \<Rightarrow> os" where
  "pinned s = s\<lparr>fs_ok := (\<lambda>op. op \<noteq> UnlinkPid)\<rparr>"

definition noProgramOs :: os where
  "noProgramOs = emptyOs\<lparr>spawn_result := SpawnErrorEvent\<rparr>"

definition noSpawnOs :: os where
  "noSpawnOs = emptyOs\<lparr>spawn_result := SpawnThrows\<rparr>"

text \<open>Pid 4242 runs, and the program to spawn cannot be found.\<close>

definition unlaunchableOs :: os where
  "unlaunchableOs = exampleOs\<lparr>spawn_result := SpawnErrorEvent\<rparr>"

text \<open>A line count too long for a number: a one followed by 309 zeros.\<close>

definition hugeCount :: jsstring where
  "hugeCount = str ''1'' @ replicate 309 (of_char CHR ''0'')"

text \<open>The states of the restart run below: stop's interval pending next to the timeout.\<close>

definition restarting ::
  "nat \<Rightarrow> nat \<Rightarrow> (nat \<times> nat \<times> timer) list \<Rightarrow> nat \<Rightarrow> msg list \<Rightarrow> world" where
  "restarting t k ts i ms =
     \<lparr>sys = exampleOs, now = t, seq = k, timers = ts, next_id = i, blocked = False,
      kills = [(Some 4242, SIGTERM)], execs = [], out = ms, exit_code = None\<rparr>"

section \<open>Facts about the operations\<close>

subsection \<open>Strings and numbers\<close>

lemma str_eq [simp]: "str a = str b \<longleftrightarrow> a = b"
  by (simp add: str_def inj_map_eq_map inj_on_def)

lemma str_Nil [simp]: "str [] = []" "(str a = []) = (a = [])" "([] = str a) = (a = [])"
  by (auto simp add: str_def)

lemma bitlen_small: "n < 2 ^ k \<Longrightarrow> bitlen n \<le> k"
proof (induction k arbitrary: n)
  case 0
  then show ?case by (simp add: bitlen.simps)
next
  case (Suc k)
  then have "n div 2 < 2 ^ k" by simp
  then have "bitlen (n div 2) \<le> k" by (rule Suc.IH)
  then show ?case by (subst bitlen.simps) simp
qed

lemma bitlen_large: "2 ^ k \<le> n \<Longrightarrow> k < bitlen n"
proof (induction k arbitrary: n)
  case 0
  then show ?case by (subst bitlen.simps) simp
next
  case (Suc k)
  then have "2 ^ k \<le> n div 2" by simp
  then have "k < bitlen (n div 2)" by (rule Suc.IH)
  moreover have "n \<noteq> 0"
  proof
    assume "n = 0"
    with Suc.prems show False by simp
  qed
  ultimately show ?case by (subst bitlen.simps) simp
qed

text \<open>Integers below \<open>2^53\<close> are doubles; from \<open>2^1024\<close> on there is only \<open>Infinity\<close>.\<close>

lemma roundDouble_exact: "n < 2 ^ 53 \<Longrightarrow> roundDouble n = Some n"
proof -
  assume a: "n < 2 ^ 53"
  then have "bitlen n \<le> 53" by (rule bitlen_small)
  then have e: "bitlen n - 53 = 0" by simp
  have "n < (2::nat) ^ 1024" using a by (rule less_trans) simp
  then show ?thesis by (simp add: roundDouble_def e Let_def)
qed

lemma bitlen_lower: "n \<noteq> 0 \<Longrightarrow> 2 ^ (bitlen n - 53) \<le> n"
proof -
  assume n: "n \<noteq> 0"
  then have "2 ^ 0 \<le> n" by simp
  then have p: "0 < bitlen n" by (rule bitlen_large)
  have "\<not> n < 2 ^ (bitlen n - 1)"
  proof
    assume "n < 2 ^ (bitlen n - 1)"
    then have "bitlen n \<le> bitlen n - 1" by (rule bitlen_small)
    with p show False by simp
  qed
  then have "(2::nat) ^ (bitlen n - 1) \<le> n" by simp
  moreover have "(2::nat) ^ (bitlen n - 53) \<le> 2 ^ (bitlen n - 1)"
    by (rule power_increasing) simp_all
  ultimately show ?thesis by (rule order_trans [rotated])
qed

lemma pow2_div_mult:
  assumes "(2::nat) ^ k \<le> n" and "2 ^ e \<le> n"
  shows "2 ^ k \<le> n div 2 ^ e * 2 ^ e"
proof (cases "e \<le> k")
  case True
  have "(2::nat) ^ k div 2 ^ e \<le> n div 2 ^ e" using assms(1) by (rule div_le_mono)
  moreover have "(2::nat) ^ k div 2 ^ e = 2 ^ (k - e)" using True by (simp add: power_diff)
  ultimately have "(2::nat) ^ (k - e) * 2 ^ e \<le> n div 2 ^ e * 2 ^ e" by simp
  moreover have "(2::nat) ^ (k - e) * 2 ^ e = 2 ^ k"
    using True by (simp add: power_add [symmetric])
  ultimately show ?thesis by simp
next
  case False
  then have "(2::nat) ^ k \<le> 2 ^ e" by (intro power_increasing) simp_all
  moreover from assms(2) have "1 \<le> n div 2 ^ e" by (simp add: div_greater_zero_iff Suc_le_eq)
  then have "(2::nat) ^ e \<le> n div 2 ^ e * 2 ^ e" by simp
  ultimately show ?thesis by (rule order_trans)
qed

lemma roundDouble_overflow:
  assumes "2 ^ 1024 \<le> n"
  shows "roundDouble n = None"
proof -
  let ?e = "bitlen n - 53"
  let ?q = "n div 2 ^ ?e"
  have "n \<noteq> 0"
  proof
    assume "n = 0"
    with assms show False by simp
  qed
  then have "2 ^ ?e \<le> n" by (rule bitlen_lower)
  with assms have big: "(2::nat) ^ 1024 \<le> ?q * 2 ^ ?e" by (rule pow2_div_mult)
  have "?q * 2 ^ ?e \<le> Suc ?q * 2 ^ ?e" by simp
  with big have big': "(2::nat) ^ 1024 \<le> Suc ?q * 2 ^ ?e" by (rule order_trans)
  show ?thesis
    unfolding roundDouble_def Let_def using big big' by (simp del: mult_Suc)
qed

lemma digitsValue_zeros:
  "digitsValue 10 acc (replicate k 48) = acc * 10 ^ k"
  by (induction k arbitrary: acc) (simp_all add: digitOf_def)

lemma startsWith_dash: "startsWith a (str ''-'') = (take 1 a = str ''-'')"
  by (cases a) (auto simp add: str_def)

text \<open>
  A string that \<open>parseInt\<close> turns into a negative number has a minus sign after its
  leading white space.
\<close>

lemma parseInt_negative:
  assumes "parseInt a = NegInfinity \<or> (\<exists>n. parseInt a = Num n \<and> n < 0)"
  shows "take 1 (dropWhile isSpace a) = str ''-''"
  using assms
  by (auto simp add: parseInt_def Let_def split: if_splits option.splits)

subsection \<open>What each primitive touches\<close>

lemma say_fields [simp]:
  "sys (say m w) = sys w" "kills (say m w) = kills w" "timers (say m w) = timers w"
  "exit_code (say m w) = exit_code w" "now (say m w) = now w" "seq (say m w) = seq w"
  "next_id (say m w) = next_id w" "blocked (say m w) = blocked w" "execs (say m w) = execs w"
  "out (say m w) = out w @ [m]"
  by (simp_all add: say_def)

lemma processExit_fields [simp]:
  "sys (processExit c w) = sys w" "kills (processExit c w) = kills w"
  "timers (processExit c w) = timers w" "exit_code (processExit c w) = Some c"
  "now (processExit c w) = now w" "seq (processExit c w) = seq w"
  "next_id (processExit c w) = next_id w" "blocked (processExit c w) = blocked w"
  "execs (processExit c w) = execs w" "out (processExit c w) = out w"
  by (simp_all add: processExit_def)

lemma processKill_fields [simp]:
  "sys (snd (processKill p s w)) = sys w"
  "kills (snd (processKill p s w)) = kills w @ [(p, s)]"
  "out (snd (processKill p s w)) = out w"
  "exit_code (snd (processKill p s w)) = exit_code w"
  "timers (snd (processKill p s w)) = timers w"
  "now (snd (processKill p s w)) = now w"
  "seq (snd (processKill p s w)) = seq w"
  "next_id (snd (processKill p s w)) = next_id w"
  "blocked (snd (processKill p s w)) = blocked w"
  "execs (snd (processKill p s w)) = execs w"
  by (simp_all add: processKill_def)

lemma setTimer_fields [simp]:
  "sys (setTimer d t w) = sys w" "kills (setTimer d t w) = kills w"
  "timers (setTimer d t w) = timers w @ [(now w + d, next_id w, t)]"
  "exit_code (setTimer d t w) = exit_code w" "now (setTimer d t w) = now w"
  "seq (setTimer d t w) = seq w" "next_id (setTimer d t w) = Suc (next_id w)"
  "blocked (setTimer d t w) = blocked w" "execs (setTimer d t w) = execs w"
  "out (setTimer d t w) = out w"
  by (simp_all add: setTimer_def)

lemma nextTick_fields [simp]:
  "sys (nextTick t w) = sys w" "kills (nextTick t w) = kills w"
  "timers (nextTick t w) = timers w @ [(0, next_id w, t)]"
  "exit_code (nextTick t w) = exit_code w" "now (nextTick t w) = now w"
  "seq (nextTick t w) = seq w" "next_id (nextTick t w) = Suc (next_id w)"
  "blocked (nextTick t w) = blocked w" "execs (nextTick t w) = execs w"
  "out (nextTick t w) = out w"
  by (simp_all add: nextTick_def)

lemma enter_fields [simp]:
  "sys (enter env d w) = env (seq w) (sys w)" "kills (enter env d w) = kills w"
  "timers (enter env d w) = []" "exit_code (enter env d w) = exit_code w"
  "now (enter env d w) = max (now w) d" "seq (enter env d w) = Suc (seq w)"
  "next_id (enter env d w) = next_id w" "blocked (enter env d w) = blocked w"
  "execs (enter env d w) = execs w" "out (enter env d w) = out w"
  by (simp_all add: enter_def)

lemma clearMarker_fields [simp]:
  "timers (clearMarker w) = timers w" "exit_code (clearMarker w) = exit_code w"
  "kills (clearMarker w) = kills w" "now (clearMarker w) = now w" "seq (clearMarker w) = seq w"
  "next_id (clearMarker w) = next_id w"
  "blocked (clearMarker w) = blocked w" "execs (clearMarker w) = execs w"
  "fs_ok (sys (clearMarker w)) = fs_ok (sys w)"
  "spawn_result (sys (clearMarker w)) = spawn_result (sys w)"
  "pid_file (sys (clearMarker w)) = pid_file (sys w)"
  "log_file (sys (clearMarker w)) = log_file (sys w)"
  "kill_ok (sys (clearMarker w)) = kill_ok (sys w)"
  "child_exit (sys (clearMarker w)) = child_exit (sys w)"
  by (simp_all add: clearMarker_def)

lemma clearMarker_out:
  "out (clearMarker w) = out w
     @ (if marker_file (sys w) \<noteq> None \<and> \<not> fs_ok (sys w) UnlinkMarker
        then [ClearMarkerFailed] else [])"
  by (simp add: clearMarker_def)

lemma openLog_fields [simp]:
  "timers (openLog w) = timers w" "exit_code (openLog w) = exit_code w"
  "kills (openLog w) = kills w" "now (openLog w) = now w" "seq (openLog w) = seq w"
  "next_id (openLog w) = next_id w" "out (openLog w) = out w"
  "blocked (openLog w) = blocked w" "execs (openLog w) = execs w"
  "fs_ok (sys (openLog w)) = fs_ok (sys w)"
  "pid_file (sys (openLog w)) = pid_file (sys w)"
  "marker_file (sys (openLog w)) = marker_file (sys w)"
  "kill_ok (sys (openLog w)) = kill_ok (sys w)"
  by (simp_all add: openLog_def)

lemma removePidFile_sys [simp]: "sys (removePidFile w) = afterCleanup (sys w)"
  by (simp add: removePidFile_def afterCleanup_def say_def Let_def)

lemma removePidFile_frame [simp]:
  "kills (removePidFile w) = kills w" "timers (removePidFile w) = timers w"
  "exit_code (removePidFile w) = exit_code w" "now (removePidFile w) = now w"
  "seq (removePidFile w) = seq w" "next_id (removePidFile w) = next_id w"
  "blocked (removePidFile w) = blocked w" "execs (removePidFile w) = execs w"
  by (simp_all add: removePidFile_def say_def Let_def)

lemma removePidFile_lines: "out (removePidFile w) = out w @ cleanupLines (sys w)"
  by (simp add: removePidFile_def cleanupLines_def say_def Let_def)

lemma afterCleanup_files:
  "pid_file (afterCleanup s) = (if fs_ok s UnlinkPid then None else pid_file s)"
  "marker_file (afterCleanup s)
     = (if (pid_file s = None \<or> fs_ok s UnlinkPid) \<and> fs_ok s UnlinkMarker then None
        else marker_file s)"
  by (auto simp add: afterCleanup_def)

lemma afterCleanup_os [simp]:
  "log_file (afterCleanup s) = log_file s" "kill_ok (afterCleanup s) = kill_ok s"
  "fs_ok (afterCleanup s) = fs_ok s" "spawn_result (afterCleanup s) = spawn_result s"
  "child_exit (afterCleanup s) = child_exit s" "sigint (afterCleanup s) = sigint s"
  by (simp_all add: afterCleanup_def)

lemma afterCleanup_twice: "afterCleanup (afterCleanup s) = afterCleanup s"
  by (simp add: afterCleanup_def)

lemma afterCleanup_allowed:
  "fs_ok s UnlinkPid \<Longrightarrow> fs_ok s UnlinkMarker \<Longrightarrow>
     pid_file (afterCleanup s) = None \<and> marker_file (afterCleanup s) = None"
  by (simp add: afterCleanup_def)

lemma writePid_frame [simp]:
  "exit_code (writePid p w) = exit_code w" "timers (writePid p w) = timers w"
  "now (writePid p w) = now w" "seq (writePid p w) = seq w"
  "next_id (writePid p w) = next_id w" "kills (writePid p w) = kills w"
  "blocked (writePid p w) = blocked w"
  by (simp_all add: writePid_def split: option.splits)

lemma awaitChild_frame [simp]:
  "exit_code (awaitChild w) = exit_code w" "out (awaitChild w) = out w"
  by (simp_all add: awaitChild_def split: option.splits prod.splits)

lemma daemonChild_frame [simp]:
  "timers (daemonChild c w) = timers w @ [(now w + 200, next_id w, CheckInterval c 0)]"
  "exit_code (daemonChild c w) = exit_code w"
  "kills (daemonChild c w) = kills w"
  "now (daemonChild c w) = now w"
  "seq (daemonChild c w) = seq w"
  "blocked (daemonChild c w) = blocked w"
  "next_id (daemonChild c w) = Suc (next_id w)"
  by (simp_all add: daemonChild_def)

lemma daemonChild_fields:
  "sys (daemonChild (Some p) w)
     = (if fs_ok (sys w) WritePid then (sys w)\<lparr>pid_file := Some (intToString p)\<rparr> else sys w)"
  "out (daemonChild (Some p) w)
     = out w @ [DaemonSpawned (Some p), if fs_ok (sys w) WritePid then PidSaved p else WritePidFailed,
                Waiting]"
  by (simp_all add: daemonChild_def writePid_def)

subsection \<open>The registry\<close>

lemma getPid_world: "snd (getPid w) = w\<lparr>out := out w @ readPidLines (sys w)\<rparr>"
  by (simp add: getPid_def readPidLines_def say_def split: option.splits)

lemma getStatus_world: "snd (getStatus w) = w\<lparr>out := out w @ readPidLines (sys w)\<rparr>"
  by (simp add: getStatus_def split_beta getPid_world)

lemma getStatus_fields [simp]:
  "sys (snd (getStatus w)) = sys w" "kills (snd (getStatus w)) = kills w"
  "timers (snd (getStatus w)) = timers w" "exit_code (snd (getStatus w)) = exit_code w"
  "now (snd (getStatus w)) = now w" "seq (snd (getStatus w)) = seq w"
  "next_id (snd (getStatus w)) = next_id w" "blocked (snd (getStatus w)) = blocked w"
  "execs (snd (getStatus w)) = execs w"
  "out (snd (getStatus w)) = out w @ readPidLines (sys w)"
  by (simp_all add: getStatus_world)

lemma getPid_say [simp]: "fst (getPid (say m w)) = fst (getPid w)"
  by (simp add: getPid_def split: option.splits)

lemma getStatus_say [simp]: "fst (getStatus (say m w)) = fst (getStatus w)"
  by (simp add: getStatus_def split_beta isProcessRunning_def getPid_world split: option.splits)

lemma withLog_fields [simp]:
  "marker_file (sys (withLog l w)) = marker_file (sys w)"
  "pid_file (sys (withLog l w)) = pid_file (sys w)"
  "log_file (sys (withLog l w)) = l"
  "fs_ok (sys (withLog l w)) = fs_ok (sys w)"
  "out (withLog l w) = out w" "kills (withLog l w) = kills w"
  "exit_code (withLog l w) = exit_code w"
  by (simp_all add: withLog_def)

lemma isProcessRunning_withLog [simp]: "isProcessRunning (withLog l w) p = isProcessRunning w p"
  by (simp add: isProcessRunning_def withLog_def split: option.splits)

lemma isProcessRunning_alive: "isProcessRunning w p = alive p (sys w)"
  by (simp add: isProcessRunning_def alive_def)

lemma getStatus_cases:
  "fst (getStatus w) = \<lparr>running = False, pid = None\<rparr>
    \<or> (\<exists>n. fst (getStatus w) = \<lparr>running = True, pid = Some n\<rparr>)"
  by (auto simp add: getStatus_def split_beta pidOf_def isProcessRunning_def
      split: option.splits jsnum.splits)

lemma getStatus_running:
  "fst (getStatus w) = \<lparr>running = True, pid = Some n\<rparr> \<Longrightarrow>
     kill_ok (sys w) n SIG0 \<and> pid_file (sys w) \<noteq> None \<and> snd (getStatus w) = w"
  by (auto simp add: getStatus_def split_beta getPid_def truthyPid_def pidOf_def
      isProcessRunning_def say_def split: option.splits if_splits jsnum.splits)

lemma getStatus_absent:
  "pid_file (sys w) = None \<Longrightarrow> getStatus w = (\<lparr>running = False, pid = None\<rparr>, w)"
  by (simp add: getStatus_def getPid_def truthyPid_def)

text \<open>The registry reads the PID file, whether it can be read, and the probe only.\<close>

lemma getStatus_reads:
  "pid_file (sys w') = pid_file (sys w) \<Longrightarrow> fs_ok (sys w') ReadPid = fs_ok (sys w) ReadPid \<Longrightarrow>
   kill_ok (sys w') = kill_ok (sys w) \<Longrightarrow> fst (getStatus w') = fst (getStatus w)"
  by (simp add: getStatus_def split_beta getPid_def isProcessRunning_def say_def
      split: option.splits)

subsection \<open>Lines of the log\<close>

lemma splitLines_nonempty: "splitLines s \<noteq> []"
  by (induction s) (auto split: list.splits)

lemma splitLines_append: "splitLines (pre @ newline # post) = splitLines pre @ splitLines post"
proof (induction pre)
  case Nil
  show ?case by simp
next
  case (Cons c pre)
  obtain l ls where "splitLines pre = l # ls"
    using splitLines_nonempty [of pre] by (cases "splitLines pre") auto
  with Cons show ?case by simp
qed

lemma sliceLast_append: "n \<le> length ys \<Longrightarrow> sliceLast n (xs @ ys) = sliceLast n ys"
  by (simp add: sliceLast_def)

lemma recentLog_older:
  "30 \<le> length (splitLines post) \<Longrightarrow> recentLog (pre @ newline # post) = recentLog post"
  by (simp add: recentLog_def splitLines_append sliceLast_append)

lemma splitLines_newlines: "splitLines (replicate n newline) = replicate (Suc n) []"
  by (induction n) simp_all

lemma joinLines_empties: "joinLines (replicate (Suc n) []) = replicate n newline"
  by (induction n) simp_all

lemma recentLog_newlines: "recentLog (replicate 29 newline) = replicate 29 newline"
proof -
  have "sliceLast 30 (replicate (Suc 29) ([] :: jsstring)) = replicate (Suc 29) []"
    by (simp add: sliceLast_def)
  then show ?thesis
    by (simp only: recentLog_def splitLines_newlines joinLines_empties)
qed

lemma includesStr_replicate:
  "p \<noteq> [] \<Longrightarrow> hd p \<noteq> c \<Longrightarrow> \<not> includesStr (replicate n c) p"
  by (induction n) (auto simp add: neq_Nil_conv)

lemma blank_log_silent:
  "\<not> startupSucceeded (replicate 29 newline) \<and> \<not> startupFailed (replicate 29 newline)"
  by (simp add: startupSucceeded_def startupFailed_def includesStr_replicate newline_def str_def)

lemma splitLines_one_line: "newline \<notin> set s \<Longrightarrow> splitLines s = [s]"
  by (induction s) auto

lemma recentLog_one_line: "newline \<notin> set s \<Longrightarrow> recentLog s = s"
  by (simp add: recentLog_def splitLines_one_line sliceLast_def)

lemma recentLog_empty [simp]: "recentLog [] = []"
  by (simp add: recentLog_def sliceLast_def)

subsection \<open>The argument of \<open>logs\<close>\<close>

lemma linesArg_no_dash: "linesArg args = Some a \<Longrightarrow> \<not> startsWith a (str ''-'')"
  by (auto simp add: linesArg_def find_Some_iff)

subsection \<open>The environment alone\<close>

lemma osAt_idle [simp]: "osAt idle j s k = s"
  by (induction k arbitrary: j) (simp_all add: idle_def)


subsection \<open>One callback pending\<close>

lemma step_single:
  "timers w = [(d, i, t)] \<Longrightarrow> step env w = fire t (enter env d w)"
  by (simp add: step_def enter_def)

lemma run_halted: "halted w \<Longrightarrow> run env n w = Some w"
  by (cases n) simp_all

lemma osAt_frame:
  "(\<And>k s. f (env k s) = f s) \<Longrightarrow> f (osAt env j s k) = f s"
  by (induction k arbitrary: j s) simp_all

subsection \<open>The interval of \<open>stop\<close>\<close>

lemma checkExit_frame [simp]:
  "timers (snd (checkExit p a w)) = timers w"
  "exit_code (snd (checkExit p a w)) = exit_code w"
  "blocked (snd (checkExit p a w)) = blocked w"
  "now (snd (checkExit p a w)) = now w"
  "seq (snd (checkExit p a w)) = seq w"
  "next_id (snd (checkExit p a w)) = next_id w"
  by (simp_all add: checkExit_def split_beta)

lemma checkExit_cleared:
  "fst (checkExit p a w) \<Longrightarrow> sys (snd (checkExit p a w)) = afterCleanup (sys w)"
  by (simp add: checkExit_def split_beta split: if_splits)

lemma checkExit_continues:
  "\<not> fst (checkExit p a w) \<Longrightarrow> snd (checkExit p a w) = w \<and> a < 30"
  by (simp add: checkExit_def split_beta split: if_splits)

lemma checkExit_last: "30 \<le> a \<Longrightarrow> fst (checkExit p a w)"
  by (simp add: checkExit_def split_beta)

lemma checkExit_alive:
  "isProcessRunning w p \<Longrightarrow> a < 30 \<Longrightarrow> checkExit p a w = (False, w)"
  by (simp add: checkExit_def)

lemma checkExit_kill:
  "isProcessRunning w (Some n) \<Longrightarrow> 30 \<le> a \<Longrightarrow>
     fst (checkExit (Some n) a w)
     \<and> kills (snd (checkExit (Some n) a w)) = kills w @ [(Some n, SIGKILL)]
     \<and> out (snd (checkExit (Some n) a w))
         = out w @ [GraceTimeout,
                    if kill_ok (sys w) n SIGKILL then ForceStopped else ForceStopFailed]
             @ cleanupLines (sys w)"
  by (simp add: checkExit_def split_beta removePidFile_lines processKill_def)

lemma fire_checkExit:
  "fire (CheckExit p a) w =
     (if fst (checkExit p (Suc a) w) then snd (checkExit p (Suc a) w)
      else setTimer 1000 (CheckExit p (Suc a)) (snd (checkExit p (Suc a) w)))"
  by (simp add: split_beta)

text \<open>
  However the process behaves, the polling ends within 30 ticks, and the tick that ends
  it has run \<open>removePidFile\<close> on the state it found.
\<close>

lemma checkExit_run:
  "timers w = [(d, i, CheckExit p a)] \<Longrightarrow> exit_code w = None \<Longrightarrow> \<not> blocked w \<Longrightarrow>
   a + Suc m = 30 \<Longrightarrow>
   \<exists>w' j. j \<le> m \<and> run env (Suc m) w = Some w'
        \<and> sys w' = afterCleanup (osAt env (seq w) (sys w) (Suc j))
        \<and> exit_code w' = None \<and> timers w' = [] \<and> \<not> blocked w'"
proof (induction m arbitrary: w d i a)
  case 0
  let ?w1 = "enter env d w"
  let ?r = "checkExit p (Suc a) ?w1"
  from 0 have nh: "\<not> halted w" by (simp add: halted_def)
  from 0 have "30 \<le> Suc a" by simp
  then have c: "fst ?r" by (rule checkExit_last)
  from 0 have st: "step env w = snd ?r"
    using c by (simp add: step_single fire_checkExit del: fire.simps)
  have h: "halted (snd ?r)" using 0 by (simp add: halted_def)
  have "run env (Suc 0) w = Some (snd ?r)"
    using nh st h by (simp add: run_halted)
  moreover have "sys (snd ?r) = afterCleanup (osAt env (seq w) (sys w) (Suc 0))"
    using checkExit_cleared [OF c] by simp
  moreover have "exit_code (snd ?r) = None \<and> timers (snd ?r) = [] \<and> \<not> blocked (snd ?r)"
    using 0 by simp
  ultimately show ?case by blast
next
  case (Suc m)
  let ?w1 = "enter env d w"
  let ?r = "checkExit p (Suc a) ?w1"
  from Suc.prems have nh: "\<not> halted w" by (simp add: halted_def)
  show ?case
  proof (cases "fst ?r")
    case True
    from Suc.prems have st: "step env w = snd ?r"
      using True by (simp add: step_single fire_checkExit del: fire.simps)
    have h: "halted (snd ?r)" using Suc.prems by (simp add: halted_def)
    have "run env (Suc (Suc m)) w = Some (snd ?r)"
      using nh st h by (simp add: run_halted)
    moreover have "sys (snd ?r) = afterCleanup (osAt env (seq w) (sys w) (Suc 0))"
      using checkExit_cleared [OF True] by simp
    moreover have "exit_code (snd ?r) = None \<and> timers (snd ?r) = [] \<and> \<not> blocked (snd ?r)"
      using Suc.prems by simp
    moreover have "(0::nat) \<le> Suc m" by simp
    ultimately show ?thesis by blast
  next
    case False
    from checkExit_continues [OF False] have e: "snd ?r = ?w1" by simp
    let ?w2 = "setTimer 1000 (CheckExit p (Suc a)) ?w1"
    from Suc.prems have st: "step env w = ?w2"
      using False e by (simp add: step_single fire_checkExit del: fire.simps)
    from nh st have r: "run env (Suc (Suc m)) w = run env (Suc m) ?w2" by simp
    have "\<exists>w' j. j \<le> m \<and> run env (Suc m) ?w2 = Some w'
        \<and> sys w' = afterCleanup (osAt env (seq ?w2) (sys ?w2) (Suc j))
        \<and> exit_code w' = None \<and> timers w' = [] \<and> \<not> blocked w'"
      by (rule Suc.IH [where d = "now ?w1 + 1000" and i = "next_id ?w1" and a = "Suc a"])
         (use Suc.prems in simp_all)
    then obtain w' j where "j \<le> m" and "run env (Suc m) ?w2 = Some w'"
      and "sys w' = afterCleanup (osAt env (seq ?w2) (sys ?w2) (Suc j))"
      and "exit_code w' = None \<and> timers w' = [] \<and> \<not> blocked w'"
      by blast
    then have "Suc j \<le> Suc m \<and> run env (Suc (Suc m)) w = Some w'
        \<and> sys w' = afterCleanup (osAt env (seq w) (sys w) (Suc (Suc j)))
        \<and> exit_code w' = None \<and> timers w' = [] \<and> \<not> blocked w'"
      by (simp add: r del: run.simps)
    then show ?thesis by blast
  qed
qed

text \<open>A process that answers every probe is killed at the thirtieth tick.\<close>

lemma checkExit_alive_run:
  "timers w = [(d, i, CheckExit (Some n) a)] \<Longrightarrow> exit_code w = None \<Longrightarrow> \<not> blocked w \<Longrightarrow>
   now w \<le> d \<Longrightarrow> a + Suc m = 30 \<Longrightarrow>
   (\<And>k. k \<le> m \<Longrightarrow> kill_ok (osAt env (seq w) (sys w) (Suc k)) n SIG0) \<Longrightarrow>
   \<exists>w'. run env (Suc m) w = Some w' \<and> kills w' = kills w @ [(Some n, SIGKILL)]
        \<and> out w' = out w @ [GraceTimeout,
              if kill_ok (osAt env (seq w) (sys w) (Suc m)) n SIGKILL
              then ForceStopped else ForceStopFailed]
            @ cleanupLines (osAt env (seq w) (sys w) (Suc m))
        \<and> sys w' = afterCleanup (osAt env (seq w) (sys w) (Suc m))
        \<and> exit_code w' = None \<and> timers w' = [] \<and> now w' = d + 1000 * m"
proof (induction m arbitrary: w d i a)
  case 0
  let ?w1 = "enter env d w"
  let ?r = "checkExit (Some n) (Suc a) ?w1"
  from 0 have nh: "\<not> halted w" by (simp add: halted_def)
  from "0.prems"(6) [of 0] have al: "isProcessRunning ?w1 (Some n)"
    by (simp add: isProcessRunning_def)
  from 0 have "30 \<le> Suc a" by simp
  with al have c: "fst ?r \<and> kills (snd ?r) = kills ?w1 @ [(Some n, SIGKILL)]
     \<and> out (snd ?r) = out ?w1 @ [GraceTimeout,
                    if kill_ok (sys ?w1) n SIGKILL then ForceStopped else ForceStopFailed]
             @ cleanupLines (sys ?w1)"
    by (rule checkExit_kill)
  from 0 have st: "step env w = snd ?r"
    using c by (simp add: step_single fire_checkExit del: fire.simps)
  have h: "halted (snd ?r)" using 0 by (simp add: halted_def)
  from c have f: "sys (snd ?r) = afterCleanup (sys ?w1)"
    using checkExit_cleared by blast
  show ?case
    using nh st h f c 0 by (simp add: run_halted max_def)
next
  case (Suc m)
  let ?w1 = "enter env d w"
  from Suc.prems have nh: "\<not> halted w" by (simp add: halted_def)
  from Suc.prems(6) [of 0] have al: "isProcessRunning ?w1 (Some n)"
    by (simp add: isProcessRunning_def)
  from Suc.prems have "Suc a < 30" by simp
  with al have e: "checkExit (Some n) (Suc a) ?w1 = (False, ?w1)"
    by (rule checkExit_alive)
  let ?w2 = "setTimer 1000 (CheckExit (Some n) (Suc a)) ?w1"
  from Suc.prems have st: "step env w = ?w2"
    using e by (simp add: step_single fire_checkExit del: fire.simps)
  from nh st have r: "run env (Suc (Suc m)) w = run env (Suc m) ?w2" by simp
  have "\<exists>w'. run env (Suc m) ?w2 = Some w' \<and> kills w' = kills ?w2 @ [(Some n, SIGKILL)]
        \<and> out w' = out ?w2 @ [GraceTimeout,
              if kill_ok (osAt env (seq ?w2) (sys ?w2) (Suc m)) n SIGKILL
              then ForceStopped else ForceStopFailed]
            @ cleanupLines (osAt env (seq ?w2) (sys ?w2) (Suc m))
        \<and> sys w' = afterCleanup (osAt env (seq ?w2) (sys ?w2) (Suc m))
        \<and> exit_code w' = None \<and> timers w' = [] \<and> now w' = (now ?w1 + 1000) + 1000 * m"
  proof (rule Suc.IH [where a = "Suc a" and i = "next_id ?w1"])
    fix k assume "k \<le> m"
    then have "Suc k \<le> Suc m" by simp
    from Suc.prems(6) [OF this]
    show "kill_ok (osAt env (seq ?w2) (sys ?w2) (Suc k)) n SIG0" by simp
  qed (use Suc.prems in simp_all)
  then obtain w' where "run env (Suc m) ?w2 = Some w'"
    and "kills w' = kills ?w2 @ [(Some n, SIGKILL)]
        \<and> out w' = out ?w2 @ [GraceTimeout,
              if kill_ok (osAt env (seq ?w2) (sys ?w2) (Suc m)) n SIGKILL
              then ForceStopped else ForceStopFailed]
            @ cleanupLines (osAt env (seq ?w2) (sys ?w2) (Suc m))
        \<and> sys w' = afterCleanup (osAt env (seq ?w2) (sys ?w2) (Suc m))
        \<and> exit_code w' = None \<and> timers w' = [] \<and> now w' = (now ?w1 + 1000) + 1000 * m"
    by blast
  then show ?case
    using \<open>now w \<le> d\<close> by (simp add: r max_def del: run.simps)
qed

subsection \<open>\<open>stop\<close> itself\<close>

lemma stop_running:
  "fst (getStatus w) = \<lparr>running = True, pid = Some n\<rparr> \<Longrightarrow> kill_ok (sys w) n SIGTERM \<Longrightarrow>
     stop w = (True, setTimer 1000 (CheckExit (Some n) 0)
                 (snd (processKill (Some n) SIGTERM (say (Stopping (Some n)) w))))"
  using getStatus_running [of w n]
  by (simp add: stop_def split_beta processKill_def)

lemma stop_refused:
  "fst (getStatus w) = \<lparr>running = True, pid = Some n\<rparr> \<Longrightarrow> \<not> kill_ok (sys w) n SIGTERM \<Longrightarrow>
     stop w = (False, removePidFile (say StopFailed
                 (snd (processKill (Some n) SIGTERM (say (Stopping (Some n)) w)))))"
  using getStatus_running [of w n]
  by (simp add: stop_def split_beta processKill_def)

lemma stop_not_running:
  "\<not> running (fst (getStatus w)) \<Longrightarrow>
     stop w = (False, removePidFile (say NotRunning (snd (getStatus w))))"
  by (simp add: stop_def split_beta)

lemma stop_true:
  "fst (stop w) \<Longrightarrow>
     \<exists>n. fst (getStatus w) = \<lparr>running = True, pid = Some n\<rparr> \<and> kill_ok (sys w) n SIGTERM"
  using getStatus_cases [of w]
  by (auto simp add: stop_def split_beta processKill_def split: if_splits)

lemma stop_false:
  "\<not> fst (stop w) \<Longrightarrow> timers (snd (stop w)) = timers w
     \<and> exit_code (snd (stop w)) = exit_code w \<and> blocked (snd (stop w)) = blocked w"
  by (simp add: stop_def Let_def split_beta split: if_splits)

lemma stop_polling:
  assumes "timers w = []" and "exit_code w = None" and "\<not> blocked w" and "fst (stop w)"
  shows "\<exists>w' j. j < 30 \<and> run env 30 (snd (stop w)) = Some w'
        \<and> sys w' = afterCleanup (osAt env (seq w) (sys w) (Suc j))
        \<and> exit_code w' = None \<and> timers w' = []"
proof -
  from stop_true [OF assms(4)] obtain n
    where g: "fst (getStatus w) = \<lparr>running = True, pid = Some n\<rparr>"
      and k: "kill_ok (sys w) n SIGTERM"
    by blast
  let ?w1 = "setTimer 1000 (CheckExit (Some n) 0)
                 (snd (processKill (Some n) SIGTERM (say (Stopping (Some n)) w)))"
  from g k have s: "stop w = (True, ?w1)" by (rule stop_running)
  have "\<exists>w' j. j \<le> 29 \<and> run env (Suc 29) ?w1 = Some w'
        \<and> sys w' = afterCleanup (osAt env (seq ?w1) (sys ?w1) (Suc j))
        \<and> exit_code w' = None \<and> timers w' = [] \<and> \<not> blocked w'"
    by (rule checkExit_run [where a = 0 and i = "next_id w" and d = "now w + 1000"])
       (use assms in simp_all)
  then obtain w' j where "j \<le> 29" and "run env 30 ?w1 = Some w'"
    and "sys w' = afterCleanup (osAt env (seq w) (sys w) (Suc j))"
    and "exit_code w' = None" and "timers w' = []"
    by (auto simp del: run.simps osAt.simps)
  then have "j < 30 \<and> run env 30 (snd (stop w)) = Some w'
        \<and> sys w' = afterCleanup (osAt env (seq w) (sys w) (Suc j))
        \<and> exit_code w' = None \<and> timers w' = []"
    by (simp add: s del: run.simps osAt.simps)
  then show ?thesis by blast
qed

lemma stop_run:
  assumes "timers w = []" and "exit_code w = None" and "\<not> blocked w"
  shows "\<exists>w'. run env 30 (snd (stop w)) = Some w' \<and> exit_code w' = None"
proof (cases "fst (stop w)")
  case True
  with assms stop_polling [of w env] show ?thesis by blast
next
  case False
  from stop_false [OF False] assms have "halted (snd (stop w))" "exit_code (snd (stop w)) = None"
    by (simp_all add: halted_def)
  then show ?thesis by (simp add: run_halted)
qed

text \<open>A process that takes \<open>SIGTERM\<close> and answers all 30 probes.\<close>

lemma stop_grace_run:
  assumes "timers w = []" and "exit_code w = None" and "\<not> blocked w"
    and "fst (getStatus w) = \<lparr>running = True, pid = Some n\<rparr>"
    and "kill_ok (sys w) n SIGTERM"
    and "\<forall>k<30. kill_ok (osAt env (seq w) (sys w) (Suc k)) n SIG0"
  shows "\<exists>w'. run env 30 (snd (stop w)) = Some w'
          \<and> kills w' = kills w @ [(Some n, SIGTERM), (Some n, SIGKILL)]
          \<and> out w' = out w @ [Stopping (Some n), GraceTimeout,
                if kill_ok (osAt env (seq w) (sys w) 30) n SIGKILL
                then ForceStopped else ForceStopFailed]
              @ cleanupLines (osAt env (seq w) (sys w) 30)
          \<and> sys w' = afterCleanup (osAt env (seq w) (sys w) 30)
          \<and> timers w' = [] \<and> exit_code w' = None \<and> now w' = now w + 30000"
proof -
  let ?w1 = "setTimer 1000 (CheckExit (Some n) 0)
                 (snd (processKill (Some n) SIGTERM (say (Stopping (Some n)) w)))"
  from assms(4,5) have s: "stop w = (True, ?w1)" by (rule stop_running)
  have "\<exists>w'. run env (Suc 29) ?w1 = Some w' \<and> kills w' = kills ?w1 @ [(Some n, SIGKILL)]
        \<and> out w' = out ?w1 @ [GraceTimeout,
              if kill_ok (osAt env (seq ?w1) (sys ?w1) (Suc 29)) n SIGKILL
              then ForceStopped else ForceStopFailed]
            @ cleanupLines (osAt env (seq ?w1) (sys ?w1) (Suc 29))
        \<and> sys w' = afterCleanup (osAt env (seq ?w1) (sys ?w1) (Suc 29))
        \<and> exit_code w' = None \<and> timers w' = [] \<and> now w' = (now w + 1000) + 1000 * 29"
  proof (rule checkExit_alive_run [where a = 0 and i = "next_id w"])
    fix k :: nat assume "k \<le> 29"
    then have "k < 30" by simp
    with assms(6) show "kill_ok (osAt env (seq ?w1) (sys ?w1) (Suc k)) n SIG0" by simp
  qed (use assms(1,2,3) in simp_all)
  then obtain w' where "run env 30 ?w1 = Some w'"
    and "kills w' = kills ?w1 @ [(Some n, SIGKILL)]"
    and "out w' = out ?w1 @ [GraceTimeout,
              if kill_ok (osAt env (seq ?w1) (sys ?w1) 30) n SIGKILL
              then ForceStopped else ForceStopFailed]
            @ cleanupLines (osAt env (seq ?w1) (sys ?w1) 30)"
    and "sys w' = afterCleanup (osAt env (seq ?w1) (sys ?w1) 30)"
    and "exit_code w' = None" and "timers w' = []" and "now w' = now w + 30000"
    by (auto simp del: run.simps osAt.simps)
  then show ?thesis
    by (simp add: s del: run.simps osAt.simps)
qed

subsection \<open>The interval of \<open>start\<close>\<close>

lemma readiness_cases:
  "stillStarting child s \<or> launchFailed child s \<or> launchSucceeded child s"
  by (auto simp add: stillStarting_def launchFailed_def launchSucceeded_def
      split: option.splits)

lemma checkInterval_quiet:
  "stillStarting child (sys w) \<Longrightarrow>
     checkInterval child a w = (if 30 \<le> a then processExit 0 (say StartTimeout w) else w)"
  by (auto simp add: stillStarting_def checkInterval_def isProcessRunning_alive markerCheck_def
      logScan_def timeoutCheck_def split: option.splits)

lemma checkInterval_failed:
  "launchFailed child (sys w) \<Longrightarrow> exit_code (checkInterval child a w) = Some 1"
  by (auto simp add: launchFailed_def checkInterval_def isProcessRunning_alive markerCheck_def
      logScan_def split: option.splits)

lemma checkInterval_succeeded:
  "launchSucceeded child (sys w) \<Longrightarrow> exit_code (checkInterval child a w) = Some 0"
  by (auto simp add: launchSucceeded_def checkInterval_def isProcessRunning_alive markerCheck_def
      logScan_def split: option.splits)

lemma fire_checkInterval_quiet:
  "stillStarting child (sys w) \<Longrightarrow> exit_code w = None \<Longrightarrow>
     fire (CheckInterval child a) w =
       (if 30 \<le> Suc a then processExit 0 (say StartTimeout w)
        else setTimer 200 (CheckInterval child (Suc a)) w)"
  by (simp add: checkInterval_quiet)

lemma checkInterval_quiet_run:
  "timers w = [(d, i, CheckInterval child a)] \<Longrightarrow> exit_code w = None \<Longrightarrow>
   now w \<le> d \<Longrightarrow> a + Suc m = 30 \<Longrightarrow>
   (\<And>k. k \<le> m \<Longrightarrow> stillStarting child (osAt env (seq w) (sys w) (Suc k))) \<Longrightarrow>
   \<exists>w'. run env (Suc m) w = Some w' \<and> exit_code w' = Some 0
        \<and> sys w' = osAt env (seq w) (sys w) (Suc m)
        \<and> kills w' = kills w \<and> out w' = out w @ [StartTimeout] \<and> now w' = d + 200 * m"
proof (induction m arbitrary: w d i a)
  case 0
  let ?w1 = "enter env d w"
  from 0 have nh: "\<not> halted w" by (simp add: halted_def)
  from "0.prems"(5) [of 0] have q: "stillStarting child (sys ?w1)" by simp
  from 0 have st: "step env w = processExit 0 (say StartTimeout ?w1)"
    using q by (simp add: step_single fire_checkInterval_quiet del: fire.simps)
  have h: "halted (processExit 0 (say StartTimeout ?w1))" by (simp add: halted_def)
  show ?case
    using nh st h 0 by (simp add: run_halted max_def)
next
  case (Suc m)
  let ?w1 = "enter env d w"
  from Suc.prems have nh: "\<not> halted w" by (simp add: halted_def)
  from Suc.prems(5) [of 0] have q: "stillStarting child (sys ?w1)" by simp
  let ?w2 = "setTimer 200 (CheckInterval child (Suc a)) ?w1"
  from Suc.prems have st: "step env w = ?w2"
    using q by (simp add: step_single fire_checkInterval_quiet del: fire.simps)
  from nh st have r: "run env (Suc (Suc m)) w = run env (Suc m) ?w2" by simp
  have "\<exists>w'. run env (Suc m) ?w2 = Some w' \<and> exit_code w' = Some 0
        \<and> sys w' = osAt env (seq ?w2) (sys ?w2) (Suc m)
        \<and> kills w' = kills ?w2 \<and> out w' = out ?w2 @ [StartTimeout]
        \<and> now w' = (now ?w1 + 200) + 200 * m"
  proof (rule Suc.IH [where a = "Suc a" and i = "next_id ?w1"])
    fix k assume "k \<le> m"
    then have "Suc k \<le> Suc m" by simp
    from Suc.prems(5) [OF this]
    show "stillStarting child (osAt env (seq ?w2) (sys ?w2) (Suc k))" by simp
  qed (use Suc.prems in simp_all)
  then obtain w' where "run env (Suc m) ?w2 = Some w'"
    and "exit_code w' = Some 0
        \<and> sys w' = osAt env (seq ?w2) (sys ?w2) (Suc m)
        \<and> kills w' = kills ?w2 \<and> out w' = out ?w2 @ [StartTimeout]
        \<and> now w' = (now ?w1 + 200) + 200 * m"
    by blast
  then show ?case
    using \<open>now w \<le> d\<close> by (simp add: r max_def del: run.simps)
qed

text \<open>
  The first tick that does not find the launch still starting ends the controller: with
  exit code 1 when it finds the launch failed, with 0 when it finds it succeeded.
\<close>

lemma readiness_resolves:
  "timers w = [(d, i, CheckInterval child a)] \<Longrightarrow> exit_code w = None \<Longrightarrow> a + j < 30 \<Longrightarrow>
   (\<And>k. k < j \<Longrightarrow> stillStarting child (osAt env (seq w) (sys w) (Suc k))) \<Longrightarrow>
   \<not> stillStarting child (osAt env (seq w) (sys w) (Suc j)) \<Longrightarrow>
   \<exists>w'. run env (Suc j) w = Some w'
        \<and> (launchFailed child (osAt env (seq w) (sys w) (Suc j)) \<longrightarrow> exit_code w' = Some 1)
        \<and> (launchSucceeded child (osAt env (seq w) (sys w) (Suc j)) \<longrightarrow> exit_code w' = Some 0)"
proof (induction j arbitrary: w d i a)
  case 0
  let ?w1 = "enter env d w"
  let ?r = "checkInterval child (Suc a) ?w1"
  from 0 have nh: "\<not> halted w" by (simp add: halted_def)
  from "0.prems"(5) have "launchFailed child (sys ?w1) \<or> launchSucceeded child (sys ?w1)"
    using readiness_cases [of child "sys ?w1"] by simp
  then have e: "exit_code ?r \<noteq> None"
    using checkInterval_failed [of child ?w1 "Suc a"] checkInterval_succeeded [of child ?w1 "Suc a"]
    by auto
  from 0 have st: "step env w = ?r"
    using e by (simp add: step_single Let_def)
  from e have h: "halted ?r" by (simp add: halted_def)
  have "run env (Suc 0) w = Some ?r"
    using nh st h by (simp add: run_halted)
  moreover have "launchFailed child (osAt env (seq w) (sys w) (Suc 0)) \<longrightarrow> exit_code ?r = Some 1"
    using checkInterval_failed [of child ?w1 "Suc a"] by simp
  moreover have "launchSucceeded child (osAt env (seq w) (sys w) (Suc 0)) \<longrightarrow> exit_code ?r = Some 0"
    using checkInterval_succeeded [of child ?w1 "Suc a"] by simp
  ultimately show ?case by blast
next
  case (Suc j)
  let ?w1 = "enter env d w"
  from Suc.prems have nh: "\<not> halted w" by (simp add: halted_def)
  from Suc.prems(4) [of 0] have q: "stillStarting child (sys ?w1)" by simp
  let ?w2 = "setTimer 200 (CheckInterval child (Suc a)) ?w1"
  from Suc.prems have st: "step env w = ?w2"
    using q by (simp add: step_single fire_checkInterval_quiet del: fire.simps)
  from nh st have r: "run env (Suc (Suc j)) w = run env (Suc j) ?w2" by simp
  have "\<exists>w'. run env (Suc j) ?w2 = Some w'
        \<and> (launchFailed child (osAt env (seq ?w2) (sys ?w2) (Suc j)) \<longrightarrow> exit_code w' = Some 1)
        \<and> (launchSucceeded child (osAt env (seq ?w2) (sys ?w2) (Suc j)) \<longrightarrow> exit_code w' = Some 0)"
  proof (rule Suc.IH [where a = "Suc a" and i = "next_id ?w1" and d = "now ?w1 + 200"])
    fix k assume "k < j"
    then have "Suc k < Suc j" by simp
    from Suc.prems(4) [OF this]
    show "stillStarting child (osAt env (seq ?w2) (sys ?w2) (Suc k))" by simp
  next
    from Suc.prems(5)
    show "\<not> stillStarting child (osAt env (seq ?w2) (sys ?w2) (Suc j))" by simp
  qed (use Suc.prems in simp_all)
  then show ?case
    by (simp add: r del: run.simps)
qed

subsection \<open>\<open>start\<close> in the background\<close>

lemma start_daemon_spawned:
  "\<not> running (fst (getStatus w)) \<Longrightarrow> logsOpen (sys w) \<Longrightarrow>
   spawn_result (sys w) = Spawned p \<Longrightarrow>
     start True w = (True, daemonChild (Some p)
        (openLog (clearMarker (say Starting (snd (getStatus w))))))"
  by (simp add: start_def startDaemon_def split_beta logsOpen_def)

lemma start_daemon_fields:
  assumes "\<not> running (fst (getStatus w))" and "logsOpen (sys w)"
    and "spawn_result (sys w) = Spawned p"
  shows "timers (snd (start True w))
           = timers w @ [(now w + 200, next_id w, CheckInterval (Some p) 0)]"
    and "exit_code (snd (start True w)) = exit_code w"
    and "kills (snd (start True w)) = kills w"
    and "now (snd (start True w)) = now w"
    and "seq (snd (start True w)) = seq w"
    and "out (snd (start True w)) = out w @ launchLines (sys w) p"
    and "pid_file (sys (snd (start True w)))
           = (if fs_ok (sys w) WritePid then Some (intToString p) else pid_file (sys w))"
  using assms
  by (simp_all add: start_daemon_spawned daemonChild_fields launchLines_def clearMarker_out)

lemma start_daemon_throws:
  "\<not> running (fst (getStatus w)) \<Longrightarrow>
   \<not> logsOpen (sys w) \<or> spawn_result (sys w) = SpawnThrows \<Longrightarrow>
     exit_code (snd (start True w)) = Some 1"
  by (auto simp add: start_def startDaemon_def split_beta daemonCatch_def Let_def logsOpen_def
      split: spawn_result.splits)

lemma start_daemon_error_event:
  assumes "\<not> running (fst (getStatus w))" and "logsOpen (sys w)"
    and "spawn_result (sys w) = SpawnErrorEvent" and "timers w = []" and "exit_code w = None"
  shows "\<exists>w'. run env 1 (snd (start True w)) = Some w' \<and> exit_code w' = Some 1"
proof -
  let ?w1 = "daemonChild None (openLog (clearMarker (say Starting (snd (getStatus w)))))"
  let ?w2 = "nextTick (OnChildError False) ?w1"
  from assms(1,2,3) have s: "snd (start True w) = ?w2"
    by (simp add: start_def startDaemon_def split_beta logsOpen_def)
  have nh: "\<not> halted ?w2" using assms(5) by (simp add: halted_def)
  have "exit_code (step env ?w2) = Some 1"
    using assms(4) by (simp add: step_def uncaught_def)
  then have "run env (Suc 0) ?w2 = Some (step env ?w2) \<and> exit_code (step env ?w2) = Some 1"
    using nh by (simp add: run_halted halted_def)
  then show ?thesis by (simp add: s del: run.simps)
qed

lemma start_daemon_os:
  assumes "\<not> running (fst (getStatus w))" and "logsOpen (sys w)"
    and "spawn_result (sys w) = Spawned p"
  shows "kill_ok (sys (snd (start True w))) = kill_ok (sys w)"
    and "fs_ok (sys (snd (start True w))) = fs_ok (sys w)"
  using assms
  by (simp_all add: start_daemon_spawned daemonChild_fields)

lemma resolved_not_starting:
  "launchFailed child s \<Longrightarrow> \<not> stillStarting child s"
  "launchSucceeded child s \<Longrightarrow> \<not> stillStarting child s"
  by (auto simp add: stillStarting_def launchFailed_def launchSucceeded_def split: option.splits)

text \<open>A background launch whose child is spawned, up to the tick that resolves it.\<close>

lemma launch_resolves:
  assumes "timers w = []" and "exit_code w = None"
    and "\<not> running (fst (getStatus w))" and "logsOpen (sys w)"
    and "spawn_result (sys w) = Spawned p" and "j < 30"
    and "\<forall>k<j. stillStarting (Some p) (osAt env (seq w) (sys (snd (start True w))) (Suc k))"
    and "\<not> stillStarting (Some p) (osAt env (seq w) (sys (snd (start True w))) (Suc j))"
  shows "\<exists>w'. run env (Suc j) (snd (start True w)) = Some w'
        \<and> (launchFailed (Some p) (osAt env (seq w) (sys (snd (start True w))) (Suc j))
             \<longrightarrow> exit_code w' = Some 1)
        \<and> (launchSucceeded (Some p) (osAt env (seq w) (sys (snd (start True w))) (Suc j))
             \<longrightarrow> exit_code w' = Some 0)"
proof -
  let ?L = "snd (start True w)"
  note f = start_daemon_fields [OF assms(3,4,5)]
  have "\<exists>w'. run env (Suc j) ?L = Some w'
        \<and> (launchFailed (Some p) (osAt env (seq ?L) (sys ?L) (Suc j)) \<longrightarrow> exit_code w' = Some 1)
        \<and> (launchSucceeded (Some p) (osAt env (seq ?L) (sys ?L) (Suc j)) \<longrightarrow> exit_code w' = Some 0)"
  proof (rule readiness_resolves [where a = 0 and i = "next_id w" and d = "now w + 200"])
    show "timers ?L = [(now w + 200, next_id w, CheckInterval (Some p) 0)]"
      using assms(1) by (simp add: f)
    show "exit_code ?L = None" using assms(2) by (simp add: f)
    show "0 + j < 30" using assms(6) by simp
    show "\<And>k. k < j \<Longrightarrow> stillStarting (Some p) (osAt env (seq ?L) (sys ?L) (Suc k))"
      using assms(7) by (simp add: f del: osAt.simps)
    show "\<not> stillStarting (Some p) (osAt env (seq ?L) (sys ?L) (Suc j))"
      using assms(8) by (simp add: f del: osAt.simps)
  qed
  then show ?thesis by (simp add: f del: run.simps osAt.simps)
qed

text \<open>A background launch that 30 ticks find still starting.\<close>

lemma launch_times_out:
  assumes "timers w = []" and "exit_code w = None"
    and "\<not> running (fst (getStatus w))" and "logsOpen (sys w)"
    and "spawn_result (sys w) = Spawned p"
    and "\<forall>k<30. stillStarting (Some p) (osAt env (seq w) (sys (snd (start True w))) (Suc k))"
  shows "\<exists>w'. run env 30 (snd (start True w)) = Some w'
          \<and> exit_code w' = Some 0
          \<and> sys w' = osAt env (seq w) (sys (snd (start True w))) 30
          \<and> kills w' = kills w
          \<and> out w' = out w @ launchLines (sys w) p @ [StartTimeout]
          \<and> now w' = now w + 6000"
proof -
  let ?L = "snd (start True w)"
  note f = start_daemon_fields [OF assms(3,4,5)]
  have "\<exists>w'. run env (Suc 29) ?L = Some w' \<and> exit_code w' = Some 0
        \<and> sys w' = osAt env (seq ?L) (sys ?L) (Suc 29)
        \<and> kills w' = kills ?L \<and> out w' = out ?L @ [StartTimeout]
        \<and> now w' = (now w + 200) + 200 * 29"
  proof (rule checkInterval_quiet_run [where a = 0 and i = "next_id w"])
    fix k :: nat assume "k \<le> 29"
    then have "k < 30" by simp
    with assms(6) show "stillStarting (Some p) (osAt env (seq ?L) (sys ?L) (Suc k))"
      by (simp add: f del: osAt.simps)
  qed (use assms(1,2) in \<open>simp_all add: f\<close>)
  then show ?thesis
    by (auto simp add: f simp del: run.simps osAt.simps)
qed

subsection \<open>\<open>start\<close> in the foreground\<close>

lemma start_foreground_throws:
  "\<not> running (fst (getStatus w)) \<Longrightarrow> spawn_result (sys w) = SpawnThrows \<Longrightarrow>
     exit_code (snd (start False w)) = Some 1"
  by (simp add: start_def startForeground_def split_beta uncaught_def)

lemma start_foreground_error_event:
  assumes "\<not> running (fst (getStatus w))" and "spawn_result (sys w) = SpawnErrorEvent"
    and "timers w = []" and "exit_code w = None" and "\<not> blocked w"
  shows "\<exists>w'. run env 1 (snd (start False w)) = Some w' \<and> LaunchFailed \<in> set (out w')
           \<and> exit_code w' = None"
proof -
  let ?w1 = "writePid None (say (ForegroundSpawned None)
      (clearMarker (say Starting (snd (getStatus w)))))"
  let ?w2 = "nextTick (OnChildError True) ?w1"
  from assms(1,2) have s: "snd (start False w) = ?w2"
    by (simp add: start_def startForeground_def split_beta)
  have t: "timers ?w2 = [(0, next_id w, OnChildError True)]"
    using assms(3) by simp
  have nh: "\<not> halted ?w2" using assms(4) by (simp add: halted_def)
  let ?e = "removePidFile (say LaunchFailed (enter env 0 ?w2))"
  have st: "step env ?w2 = ?e" by (simp add: step_single [OF t])
  have h: "halted ?e" using assms(5) by (simp add: halted_def)
  have "run env (Suc 0) ?w2 = Some ?e" using nh st h by (simp add: run_halted)
  moreover have "LaunchFailed \<in> set (out ?e)" by (simp add: removePidFile_lines)
  moreover have "exit_code ?e = None" using assms(4) by simp
  ultimately show ?thesis by (simp add: s del: run.simps)
qed

subsection \<open>Exit codes and what was printed\<close>

lemma quiet_accounted: "quiet w \<Longrightarrow> accounted w"
  by (simp add: quiet_def accounted_def)

lemma accounted_running: "accounted w \<Longrightarrow> exit_code w = None \<Longrightarrow> quiet w"
  by (simp add: quiet_def accounted_def)

lemma fatal_removePidFile [simp]:
  "list_ex fatal (out (removePidFile w)) = list_ex fatal (out w)"
  "list_ex resolved (out (removePidFile w)) = list_ex resolved (out w)"
  by (simp_all add: removePidFile_lines cleanupLines_def)

lemma fatal_writePid [simp]:
  "list_ex fatal (out (writePid p w)) = list_ex fatal (out w)"
  "list_ex resolved (out (writePid p w)) = list_ex resolved (out w)"
  by (simp_all add: writePid_def split: option.splits)

lemma fatal_readPidLines [simp]:
  "\<not> list_ex fatal (readPidLines s)" "\<not> list_ex resolved (readPidLines s)"
  by (simp_all add: readPidLines_def)

lemma fatal_clearMarker [simp]:
  "list_ex fatal (out (clearMarker w)) = list_ex fatal (out w)"
  "list_ex resolved (out (clearMarker w)) = list_ex resolved (out w)"
  by (simp_all add: clearMarker_out)

lemma fatal_daemonChild [simp]:
  "list_ex fatal (out (daemonChild c w)) = list_ex fatal (out w)"
  "list_ex resolved (out (daemonChild c w)) = list_ex resolved (out w)"
  by (simp_all add: daemonChild_def)

lemma quiet_checkExit: "quiet w \<Longrightarrow> quiet (snd (checkExit p a w))"
  by (simp add: quiet_def checkExit_def split_beta)

lemma accounted_checkInterval: "quiet w \<Longrightarrow> accounted (checkInterval c n w)"
  by (simp add: quiet_def accounted_def checkInterval_def markerCheck_def logScan_def
      timeoutCheck_def Let_def split: option.splits)

lemma accounted_startDaemon: "quiet w \<Longrightarrow> accounted (startDaemon w)"
  by (simp add: quiet_def accounted_def startDaemon_def daemonCatch_def
      split: spawn_result.splits)

lemma accounted_startForeground: "quiet w \<Longrightarrow> accounted (startForeground w)"
  by (simp add: quiet_def accounted_def startForeground_def uncaught_def
      split: spawn_result.splits)

lemma quiet_launch: "quiet w \<Longrightarrow> quiet (clearMarker (say Starting (snd (getStatus w))))"
  by (simp add: quiet_def)

lemma accounted_start: "quiet w \<Longrightarrow> accounted (snd (start d w))"
proof -
  assume q: "quiet w"
  then have l: "quiet (clearMarker (say Starting (snd (getStatus w))))" by (rule quiet_launch)
  from q have r: "accounted (say (AlreadyRunning (pid (fst (getStatus w)))) (snd (getStatus w)))"
    by (simp add: quiet_def accounted_def)
  show ?thesis
    using r accounted_startDaemon [OF l] accounted_startForeground [OF l]
    by (simp add: start_def Let_def split_beta)
qed

lemma quiet_stop: "quiet w \<Longrightarrow> quiet (snd (stop w))"
  by (simp add: quiet_def stop_def Let_def split_beta)

lemma quiet_restart: "quiet w \<Longrightarrow> quiet (snd (restart d w))"
proof -
  assume "quiet w"
  then have "quiet (say Restarting w)" by (simp add: quiet_def)
  then have "quiet (snd (stop (say Restarting w)))" by (rule quiet_stop)
  then show ?thesis by (simp add: restart_def quiet_def)
qed

lemma quiet_statusCmd: "quiet w \<Longrightarrow> quiet (snd (statusCmd w))"
  by (simp add: statusCmd_def Let_def split_beta quiet_def)

lemma quiet_logs: "quiet w \<Longrightarrow> quiet (logs n f w)"
  by (simp add: logs_def Let_def quiet_def split: option.splits)

lemma accounted_dispatch: "quiet w \<Longrightarrow> accounted (dispatch args w)"
proof -
  assume q: "quiet w"
  have u: "\<And>c. accounted (processExit 1 (helpCmd (say (UnknownCommand c) w)))"
    using q by (simp add: accounted_def quiet_def helpCmd_def)
  have h: "accounted (helpCmd w)"
    using q by (simp add: accounted_def quiet_def helpCmd_def)
  show ?thesis
    using u h accounted_start [OF q] quiet_accounted [OF quiet_stop [OF q]]
      quiet_accounted [OF quiet_restart [OF q]] quiet_accounted [OF quiet_statusCmd [OF q]]
      quiet_accounted [OF quiet_logs [OF q]]
    by (simp add: dispatch_def Let_def)
qed

lemma accounted_main: "quiet w \<Longrightarrow> accounted (main args w)"
proof -
  assume q: "quiet w"
  then have "accounted (uncaught w)" by (simp add: accounted_def quiet_def uncaught_def)
  with accounted_dispatch [OF q] show ?thesis by (simp add: main_def)
qed

lemma accounted_fire: "quiet w \<Longrightarrow> accounted (fire t w)"
proof (cases t)
  case (CheckExit p a)
  assume "quiet w"
  then have "quiet (snd (checkExit p (Suc a) w))" by (rule quiet_checkExit)
  then show ?thesis
    by (simp add: CheckExit fire_checkExit quiet_def accounted_def del: fire.simps)
next
  case (CheckInterval c n)
  assume "quiet w"
  then have a: "accounted (checkInterval c (Suc n) w)" by (rule accounted_checkInterval)
  show ?thesis
  proof (cases "exit_code (checkInterval c (Suc n) w)")
    case None
    with a have "quiet (checkInterval c (Suc n) w)" by (simp add: accounted_running)
    with None show ?thesis by (simp add: CheckInterval quiet_def accounted_def)
  next
    case (Some e)
    with a show ?thesis by (simp add: CheckInterval)
  qed
next
  case (RestartTimeout d)
  assume "quiet w"
  then show ?thesis by (simp add: RestartTimeout accounted_start)
next
  case (OnChildExit code sg)
  assume "quiet w"
  then show ?thesis by (simp add: OnChildExit quiet_def accounted_def Let_def)
next
  case (OnChildError listener)
  assume "quiet w"
  then show ?thesis
    by (simp add: OnChildError uncaught_def quiet_def accounted_def)
next
  case OnSigint
  assume "quiet w"
  then show ?thesis by (simp add: OnSigint quiet_def accounted_def)
qed

lemma accounted_step: "quiet w \<Longrightarrow> accounted (step env w)"
proof (cases "nextTimer (timers w)")
  case None
  assume "quiet w"
  with None show ?thesis by (simp add: step_def quiet_accounted)
next
  case (Some e)
  assume q: "quiet w"
  obtain d i t where e: "e = (d, i, t)" by (cases e) auto
  from q have "quiet (w\<lparr>sys := env (seq w) (sys w), now := max (now w) d, seq := Suc (seq w),
       timers := filter (\<lambda>e. fst (snd e) \<noteq> i) (timers w)\<rparr>)"
    by (simp add: quiet_def)
  then show ?thesis
    by (simp add: step_def Some e accounted_fire del: fire.simps)
qed

lemma accounted_run: "accounted w \<Longrightarrow> run env fuel w = Some w' \<Longrightarrow> accounted w'"
proof (induction fuel arbitrary: w)
  case 0
  then show ?case by (simp split: if_splits)
next
  case (Suc fuel)
  show ?case
  proof (cases "halted w")
    case True
    with Suc.prems show ?thesis by simp
  next
    case False
    then have "exit_code w = None" by (simp add: halted_def)
    with Suc.prems(1) have "quiet w" by (rule accounted_running)
    then have "accounted (step env w)" by (rule accounted_step)
    moreover from Suc.prems(2) False have "run env fuel (step env w) = Some w'" by simp
    ultimately show ?thesis by (rule Suc.IH)
  qed
qed

lemma accounted_exitStatus:
  "accounted w \<Longrightarrow> exitStatus w = (if list_ex fatal (out w) then 1 else 0)"
  by (simp add: accounted_def exitStatus_def split: option.splits if_splits)

lemma accounted_resolved:
  "accounted w \<Longrightarrow> list_ex resolved (out w) \<Longrightarrow> exitStatus w = 0"
  by (simp add: accounted_def exitStatus_def split: option.splits if_splits)

text \<open>After \<open>removePidFile\<close> a registry that reported not-running still does.\<close>

lemma getStatus_afterCleanup:
  assumes "\<not> running (fst (getStatus w))" and "sys w' = afterCleanup (sys w)"
  shows "\<not> running (fst (getStatus w'))"
proof (cases "pid_file (sys w) \<noteq> None \<and> \<not> fs_ok (sys w) UnlinkPid")
  case True
  then have "sys w' = sys w" using assms(2) by (simp add: afterCleanup_def)
  then have "fst (getStatus w') = fst (getStatus w)" by (intro getStatus_reads) simp_all
  with assms(1) show ?thesis by simp
next
  case False
  then have "pid_file (sys w') = None" using assms(2) by (auto simp add: afterCleanup_def)
  then show ?thesis by (simp add: getStatus_absent)
qed

subsection \<open>\<open>main\<close> by command\<close>

lemma start_running:
  "fst (getStatus w) = \<lparr>running = True, pid = Some n\<rparr> \<Longrightarrow>
     start d w = (False, say (AlreadyRunning (Some n)) w)"
  using getStatus_running [of w n] by (simp add: start_def split_beta)


lemma main_unknown: "unknownCommand args \<Longrightarrow> exit_code (main args w) = Some 1"
  by (cases args) (simp_all add: unknownCommand_def main_def dispatch_def commands_def uncaught_def)

lemma main_stop:
  "fs_ok (sys w) MkLogDir \<Longrightarrow> stopCommand args \<Longrightarrow> main args w = snd (stop w)"
  by (cases args) (auto simp add: stopCommand_def main_def dispatch_def)

lemma main_background:
  "fs_ok (sys w) MkLogDir \<Longrightarrow> backgroundStart args \<Longrightarrow> main args w = snd (start True w)"
  by (cases args) (auto simp add: backgroundStart_def main_def dispatch_def)

lemma main_restart:
  "fs_ok (sys w) MkLogDir \<Longrightarrow>
     main (str ''restart'' # rest) w
       = snd (restart (str ''-d'' \<in> set rest \<or> str ''--daemon'' \<in> set rest) w)"
  by (simp add: main_def dispatch_def)

lemma main_logs:
  "fs_ok (sys w) MkLogDir \<Longrightarrow>
     main (str ''logs'' # rest) w =
       logs (linesOf (str ''logs'' # rest)) (str ''-f'' \<in> set rest \<or> str ''--follow'' \<in> set rest) w"
  by (simp add: main_def dispatch_def)

lemma main_foreground:
  "fs_ok (sys w) MkLogDir \<Longrightarrow> foregroundStart args \<Longrightarrow> main args w = snd (start False w)"
  by (cases args) (auto simp add: foregroundStart_def main_def dispatch_def)

subsection \<open>The concrete situations\<close>

lemmas js = trim_def isSpace_def parseInt_def isDigit_def digitOf_def Let_def str_def
  roundDouble_exact

lemma boot_fields [simp]:
  "sys (boot s) = s" "now (boot s) = 0" "seq (boot s) = 0" "timers (boot s) = []"
  "next_id (boot s) = 0" "\<not> blocked (boot s)" "kills (boot s) = []" "execs (boot s) = []"
  "out (boot s) = []" "exit_code (boot s) = None"
  by (simp_all add: boot_def)

lemma fresh_boot: "fresh (boot s)"
  by (simp add: fresh_def)

lemma pid_4242: "parseInt (trim (str ''4242'')) = Num 4242"
  by (simp add: js)

lemma example_status: "fst (getStatus (boot exampleOs)) = \<lparr>running = True, pid = Some 4242\<rparr>"
  by (simp add: getStatus_def getPid_def truthyPid_def truthy_def pidOf_def isProcessRunning_def
      exampleOs_def pid_4242)

lemma example_running:
  "sys w = exampleOs \<Longrightarrow> fst (getStatus w) = \<lparr>running = True, pid = Some 4242\<rparr>"
  using example_status by (rule getStatus_reads [THEN trans, rotated 3]) simp_all

lemma denied_status: "fst (getStatus (boot deniedOs)) = \<lparr>running = True, pid = Some 4242\<rparr>"
  by (simp add: getStatus_def getPid_def truthyPid_def truthy_def pidOf_def isProcessRunning_def
      exampleOs_def deniedOs_def pid_4242)

lemma stubborn_status: "fst (getStatus (boot stubbornOs)) = \<lparr>running = True, pid = Some 4242\<rparr>"
  by (simp add: getStatus_def getPid_def truthyPid_def truthy_def pidOf_def isProcessRunning_def
      exampleOs_def stubbornOs_def pid_4242)

lemma pinned_example_status:
  "fst (getStatus (boot (pinned exampleOs))) = \<lparr>running = True, pid = Some 4242\<rparr>"
  by (simp add: getStatus_def getPid_def truthyPid_def truthy_def pidOf_def isProcessRunning_def
      exampleOs_def pinned_def pid_4242)

lemma stale_status: "getStatus (boot staleOs) = (\<lparr>running = False, pid = None\<rparr>, boot staleOs)"
  by (simp add: getStatus_def getPid_def truthyPid_def truthy_def pidOf_def isProcessRunning_def
      exampleOs_def staleOs_def pid_4242)

lemma pinned_stale_status:
  "getStatus (boot (pinned staleOs)) = (\<lparr>running = False, pid = None\<rparr>, boot (pinned staleOs))"
  by (simp add: getStatus_def getPid_def truthyPid_def truthy_def pidOf_def isProcessRunning_def
      exampleOs_def staleOs_def pinned_def pid_4242)


subsection \<open>A \<open>restart\<close> whose launch ends the controller before the polling of \<open>stop\<close>\<close>

text \<open>
  Pid 4242 exits between the first poll of \<open>stop\<close> and the timeout of \<open>restart\<close>; the
  launch cannot spawn its program, and the unhandled \<open>error\<close> event ends the controller
  before the second poll.
\<close>

lemma restart_cut_short:
  "fst (stop (say Restarting (boot unlaunchableOs)))
   \<and> map_option out
       (run (exitsAt 1 4242) 3 (main [str ''restart'', str ''-d''] (boot unlaunchableOs)))
     = Some [Restarting, Stopping (Some 4242), Starting, DaemonSpawned None, WritePidFailed,
             Waiting, Uncaught]
   \<and> map_option exitStatus
       (run (exitsAt 1 4242) 3 (main [str ''restart'', str ''-d''] (boot unlaunchableOs)))
     = Some 1
   \<and> map_option (pid_file \<circ> sys)
       (run (exitsAt 1 4242) 3 (main [str ''restart'', str ''-d''] (boot unlaunchableOs)))
     = Some (Some (str ''4242''))
   \<and> map_option (\<lambda>w. fs_ok (sys w) UnlinkPid)
       (run (exitsAt 1 4242) 3 (main [str ''restart'', str ''-d''] (boot unlaunchableOs)))
     = Some True"
proof -
  let ?env = "exitsAt 1 4242"
  let ?args = "[str ''restart'', str ''-d'']"
  let ?U = unlaunchableOs
  let ?b = "say Restarting (boot ?U)"
  have g: "fst (getStatus ?b) = \<lparr>running = True, pid = Some 4242\<rparr>"
    using example_status by (rule getStatus_reads [THEN trans, rotated 3])
      (simp_all add: unlaunchableOs_def)
  have k: "kill_ok (sys ?b) 4242 SIGTERM"
    by (simp add: exampleOs_def unlaunchableOs_def)
  have d: "fs_ok (sys (boot ?U)) MkLogDir"
    by (simp add: exampleOs_def unlaunchableOs_def)
  let ?w0 = "\<lparr>sys = ?U, now = 0, seq = 0,
      timers = [(1000, 0, CheckExit (Some 4242) 0), (2000, 1, RestartTimeout True)], next_id = 2,
      blocked = False, kills = [(Some 4242, SIGTERM)], execs = [],
      out = [Restarting, Stopping (Some 4242)], exit_code = None\<rparr>"
  have r0: "main ?args (boot ?U) = ?w0"
    by (simp add: main_restart [OF d] restart_def stop_running [OF g k])
  let ?w1 = "?w0\<lparr>now := 1000, seq := 1,
      timers := [(2000, 1, RestartTimeout True), (2000, 2, CheckExit (Some 4242) 1)], next_id := 3\<rparr>"
  note tick = step_def checkExit_def isProcessRunning_def setTimer_def say_def processKill_def
    split_beta exitsAt_def gone_def exampleOs_def unlaunchableOs_def
  have r1: "step ?env ?w0 = ?w1" by (simp add: tick)
  let ?G = "(gone 4242 ?U)\<lparr>marker_file := None\<rparr>"
  let ?ts = "[(2000, 2, CheckExit (Some 4242) 1), (2200, 3, CheckInterval None 0),
      (0, 4, OnChildError False)]"
  let ?w2 = "?w0\<lparr>sys := ?G, now := 2000, seq := 2, timers := ?ts, next_id := 5,
      out := [Restarting, Stopping (Some 4242), Starting, DaemonSpawned None, WritePidFailed,
        Waiting]\<rparr>"
  have r2: "step ?env ?w1 = ?w2"
    by (simp add: tick start_def getStatus_def getPid_def truthyPid_def truthy_def pidOf_def
        pid_4242 clearMarker_def startDaemon_def daemonChild_def openLog_def writePid_def
        nextTick_def)
  let ?w3 = "?w2\<lparr>seq := 3, timers := [(2000, 2, CheckExit (Some 4242) 1),
        (2200, 3, CheckInterval None 0)],
      out := [Restarting, Stopping (Some 4242), Starting, DaemonSpawned None, WritePidFailed,
        Waiting, Uncaught], exit_code := Some 1\<rparr>"
  have r3: "step ?env ?w2 = ?w3"
    by (simp add: tick uncaught_def processExit_def)
  have h: "\<not> halted ?w0" "\<not> halted ?w1" "\<not> halted ?w2" "halted ?w3"
    by (simp_all add: halted_def)
  have u: "\<And>w w' v n. \<not> halted w \<Longrightarrow> step ?env w = w' \<Longrightarrow> run ?env n w' = Some v
      \<Longrightarrow> run ?env (Suc n) w = Some v"
    by simp
  have "run ?env (Suc (Suc (Suc 0))) ?w0 = Some ?w3"
    by (rule u [OF h(1) r1], rule u [OF h(2) r2], rule u [OF h(3) r3], rule run_halted [OF h(4)])
  then have c: "run ?env 3 (main ?args (boot ?U)) = Some ?w3"
    by (simp only: r0 numeral_3_eq_3)
  have f: "fst (stop ?b)" by (simp add: stop_running [OF g k])
  have p: "exitStatus ?w3 = 1" "pid_file (sys ?w3) = Some (str ''4242'')"
    "fs_ok (sys ?w3) UnlinkPid"
    by (simp_all add: exitStatus_def unlaunchableOs_def exampleOs_def gone_def)
  show ?thesis
    unfolding c using f p by simp
qed

section \<open>The claims\<close>

subsection \<open>C1: restart\<close>

text \<open>
  Claim C1 says that \<open>restart\<close> lets the stop run to completion (PID file absent, the
  old process gone) before it invokes \<open>start\<close>, two seconds later. The script calls
  \<open>stop\<close>, which only sends \<open>SIGTERM\<close> and arms its interval, and then arms a timeout of
  2000 ms for \<open>start\<close> [299-303]; its own comment at [300] says this waits for the stop
  to finish. The run below is \<open>restart -d\<close> on a service, pid 4242, that needs
  between four and five seconds to exit. After two callbacks, at 2000 ms, \<open>start\<close> has
  run: it found the PID file and the live process and printed that the service is
  already running, while the interval of \<open>stop\<close> is still pending. The run ends at
  5000 ms with the service stopped and never started again.
\<close>

theorem restart_start_overtakes_stop:
  "(step (exitsAt 5 4242) ^^ 2) (main [str ''restart'', str ''-d''] (boot exampleOs))
     = restarting 2000 2 [(2000, 2, CheckExit (Some 4242) 1)] 3
         [Restarting, Stopping (Some 4242), AlreadyRunning (Some 4242)]
   \<and> pid_file (sys (restarting 2000 2 [(2000, 2, CheckExit (Some 4242) 1)] 3
         [Restarting, Stopping (Some 4242), AlreadyRunning (Some 4242)])) = Some (str ''4242'')
   \<and> isProcessRunning (restarting 2000 2 [(2000, 2, CheckExit (Some 4242) 1)] 3
         [Restarting, Stopping (Some 4242), AlreadyRunning (Some 4242)]) (Some 4242)
   \<and> map_option out
       (run (exitsAt 5 4242) 6 (main [str ''restart'', str ''-d''] (boot exampleOs)))
     = Some [Restarting, Stopping (Some 4242), AlreadyRunning (Some 4242), Stopped,
             PidFileRemoved, MarkerRemoved]
   \<and> map_option now
       (run (exitsAt 5 4242) 6 (main [str ''restart'', str ''-d''] (boot exampleOs)))
     = Some 5000
   \<and> map_option exitStatus
       (run (exitsAt 5 4242) 6 (main [str ''restart'', str ''-d''] (boot exampleOs)))
     = Some 0"
proof -
  let ?env = "exitsAt 5 4242"
  let ?args = "[str ''restart'', str ''-d'']"
  let ?C = "\<lambda>a. CheckExit (Some 4242) a"
  let ?m = "[Restarting, Stopping (Some 4242)]"
  let ?m' = "[Restarting, Stopping (Some 4242), AlreadyRunning (Some 4242)]"
  let ?w0 = "restarting 0 0 [(1000, 0, ?C 0), (2000, 1, RestartTimeout True)] 2 ?m"
  let ?w1 = "restarting 1000 1 [(2000, 1, RestartTimeout True), (2000, 2, ?C 1)] 3 ?m"
  let ?w2 = "restarting 2000 2 [(2000, 2, ?C 1)] 3 ?m'"
  let ?w3 = "restarting 2000 3 [(3000, 3, ?C 2)] 4 ?m'"
  let ?w4 = "restarting 3000 4 [(4000, 4, ?C 3)] 5 ?m'"
  let ?w5 = "restarting 4000 5 [(5000, 5, ?C 4)] 6 ?m'"
  let ?w6 = "(restarting 5000 6 [] 6 (?m' @ [Stopped, PidFileRemoved, MarkerRemoved]))
      \<lparr>sys := (gone 4242 exampleOs)\<lparr>pid_file := None, marker_file := None\<rparr>\<rparr>"
  have g: "fst (getStatus (say Restarting (boot exampleOs))) = \<lparr>running = True, pid = Some 4242\<rparr>"
    by (simp add: example_status)
  have k: "kill_ok (sys (say Restarting (boot exampleOs))) 4242 SIGTERM"
    by (simp add: exampleOs_def)
  have d: "fs_ok (sys (boot exampleOs)) MkLogDir"
    by (simp add: exampleOs_def)
  have r0: "main ?args (boot exampleOs) = ?w0"
    by (simp add: main_restart [OF d] restart_def stop_running [OF g k])
       (simp add: setTimer_def processKill_def say_def boot_def restarting_def)
  note tick = step_def checkExit_def isProcessRunning_def setTimer_def say_def processKill_def
    split_beta exitsAt_def gone_def exampleOs_def restarting_def
  have r1: "step ?env ?w0 = ?w1" by (simp add: tick)
  have s2: "\<And>w. sys w = exampleOs \<Longrightarrow> start True w = (False, say (AlreadyRunning (Some 4242)) w)"
    by (rule start_running [OF example_running])
  have r2: "step ?env ?w1 = ?w2"
    by (simp add: step_def exitsAt_def restarting_def s2 say_def)
  have r3: "step ?env ?w2 = ?w3" by (simp add: tick)
  have r4: "step ?env ?w3 = ?w4" by (simp add: tick)
  have r5: "step ?env ?w4 = ?w5" by (simp add: tick)
  have r6: "step ?env ?w5 = ?w6"
    by (simp add: tick removePidFile_def)
  have h: "\<not> halted ?w0" "\<not> halted ?w1" "\<not> halted ?w2" "\<not> halted ?w3" "\<not> halted ?w4"
    "\<not> halted ?w5" "halted ?w6"
    by (simp_all add: halted_def restarting_def)
  have "(step ?env ^^ 2) ?w0 = step ?env (step ?env ?w0)"
    by (simp add: numeral_2_eq_2)
  then have a: "(step ?env ^^ 2) (main ?args (boot exampleOs)) = ?w2"
    by (simp only: r0 r1 r2)
  have b: "pid_file (sys ?w2) = Some (str ''4242'')" "isProcessRunning ?w2 (Some 4242)"
    by (simp_all add: restarting_def exampleOs_def isProcessRunning_def)
  have u: "\<And>w w' v n. \<not> halted w \<Longrightarrow> step ?env w = w' \<Longrightarrow> run ?env n w' = Some v
      \<Longrightarrow> run ?env (Suc n) w = Some v"
    by simp
  have six: "(6::nat) = Suc (Suc (Suc (Suc (Suc (Suc 0)))))"
    by simp
  have f: "\<And>e w. run e 6 w = run e (Suc (Suc (Suc (Suc (Suc (Suc 0)))))) w"
    by (simp only: six)
  have "run ?env (Suc (Suc (Suc (Suc (Suc (Suc 0)))))) ?w0 = Some ?w6"
    by (rule u [OF h(1) r1], rule u [OF h(2) r2], rule u [OF h(3) r3], rule u [OF h(4) r4],
        rule u [OF h(5) r5], rule u [OF h(6) r6], rule run_halted [OF h(7)])
  then have c: "run ?env 6 (main ?args (boot exampleOs)) = Some ?w6"
    by (simp only: r0 f)
  show ?thesis
    using a b by (simp add: c restarting_def exitStatus_def del: run.simps)
qed

subsection \<open>C2: exit codes\<close>

text \<open>
  Claim C2 says the exit code is 0 on success and on the soft timeout and non-zero
  when the launch fails, when the stop fails, or when the command is unknown. As
  stated it fails for a failed stop and for a failed launch in the foreground. \<open>main\<close>
  drops what \<open>stop\<close> returns [427], and \<open>stop\<close> never calls \<open>process.exit\<close>: below, the
  probe finds pid 4242 but \<open>SIGTERM\<close> throws, \<open>stop\<close> prints its failure and returns
  false, and the controller exits with 0. In the foreground the listener for the child's
  \<open>error\<close> event [240-243] prints that the launch failed and removes the PID file, and
  the controller ends with 0 as well: below, the program to spawn cannot be found.
\<close>

theorem failures_that_exit_zero:
  "fst (stop (boot deniedOs)) = False
   \<and> map_option out (run idle 0 (main [str ''stop''] (boot deniedOs)))
       = Some [Stopping (Some 4242), StopFailed, PidFileRemoved, MarkerRemoved]
   \<and> map_option exitStatus (run idle 0 (main [str ''stop''] (boot deniedOs))) = Some 0
   \<and> map_option out (run idle 1 (main [str ''start''] (boot noProgramOs)))
       = Some [Starting, ForegroundSpawned None, WritePidFailed, LaunchFailed]
   \<and> map_option exitStatus (run idle 1 (main [str ''start''] (boot noProgramOs))) = Some 0"
proof -
  have d: "fs_ok (sys (boot deniedOs)) MkLogDir" "fs_ok (sys (boot noProgramOs)) MkLogDir"
    by (simp_all add: deniedOs_def noProgramOs_def emptyOs_def exampleOs_def)
  have m: "main [str ''stop''] (boot deniedOs) = snd (stop (boot deniedOs))"
    by (simp add: main_stop [OF d(1)] stopCommand_def)
  have k: "\<not> kill_ok (sys (boot deniedOs)) 4242 SIGTERM"
    by (simp add: deniedOs_def)
  let ?s = "removePidFile (say StopFailed
           (snd (processKill (Some 4242) SIGTERM (say (Stopping (Some 4242)) (boot deniedOs)))))"
  have s: "stop (boot deniedOs) = (False, ?s)"
    using denied_status k by (rule stop_refused)
  have h: "halted ?s" by (simp add: halted_def)
  have e: "exitStatus ?s = 0" by (simp add: exitStatus_def)
  have o: "out ?s = [Stopping (Some 4242), StopFailed, PidFileRemoved, MarkerRemoved]"
    by (simp add: removePidFile_lines cleanupLines_def deniedOs_def exampleOs_def)
  let ?f = "nextTick (OnChildError True)
      (writePid None (say (ForegroundSpawned None) (say Starting (boot noProgramOs))))"
  have g: "getStatus (boot noProgramOs) = (\<lparr>running = False, pid = None\<rparr>, boot noProgramOs)"
    by (simp add: getStatus_absent noProgramOs_def emptyOs_def exampleOs_def)
  have "foregroundStart [str ''start'']" by (simp add: foregroundStart_def)
  then have f: "main [str ''start''] (boot noProgramOs) = ?f"
    by (simp add: main_foreground [OF d(2)] start_def g)
       (simp add: clearMarker_def startForeground_def noProgramOs_def emptyOs_def exampleOs_def)
  let ?e = "removePidFile (say LaunchFailed (enter idle 0 ?f))"
  have t: "step idle ?f = ?e"
    by (simp add: step_single)
  have nh: "\<not> halted ?f" by (simp add: halted_def)
  have he: "halted ?e" by (simp add: halted_def writePid_def)
  have r: "run idle (Suc 0) ?f = Some ?e"
    using nh t he by (simp add: run_halted)
  have oe: "out ?e = [Starting, ForegroundSpawned None, WritePidFailed, LaunchFailed]"
    by (simp add: removePidFile_lines cleanupLines_def writePid_def idle_def noProgramOs_def
        emptyOs_def exampleOs_def)
  have ee: "exitStatus ?e = 0" by (simp add: exitStatus_def writePid_def)
  show ?thesis
    using h e o r oe ee by (simp add: m s f run_halted del: run.simps)
qed

text \<open>
  Claim C2, amended. For every command line, environment and number of callbacks, a
  controller that ends has exit code 1 if it printed one of the fatal lines (the child
  gone at a readiness tick, a failure string in the log, an exception while launching
  in the background, an unknown command, an uncaught exception) and 0 otherwise; one
  that printed a readiness line or the soft timeout ends with 0. An unknown command
  exits with 1 at once, and so does every command when the log directory cannot be made.
  The commands \<open>stop\<close> and \<open>halt\<close> end within 30 callbacks and always exit with 0,
  whether or not signalling the process failed.

  A launch in the background, with nothing running before, exits with 1 when opening
  the logs or \<open>spawn\<close> throws, and when the child cannot be spawned; when a child
  \<open>p\<close> is spawned, the first tick that does not find it still starting decides: exit
  code 1 if it finds the child gone or a failure string in the recent log, 0 if it finds
  a marker naming the child or a success string; and 30 ticks that all find it still
  starting end with 0.

  A launch in the foreground, with nothing running before, exits with 1 when \<open>spawn\<close>
  throws; when the child cannot be spawned, the listener reports the failed launch and
  the controller ends with 0.

  The launch of \<open>restart\<close> is bound in the same way, whatever else is pending: in any
  state \<open>v\<close> a readiness tick that finds the launch failed sets exit code 1 and one
  that finds it succeeded sets 0, the timeout of \<open>restart\<close> sets 1 when opening the logs
  or \<open>spawn\<close> throws, and a controller whose exit code is set ends with that code.
\<close>

theorem exit_code_of_controller:
  assumes "fresh w"
  shows "(\<forall>w'. run env fuel (main args w) = Some w'
            \<longrightarrow> exitStatus w' = (if list_ex fatal (out w') then 1 else 0)
              \<and> (list_ex resolved (out w') \<longrightarrow> exitStatus w' = 0))
    \<and> (unknownCommand args \<or> \<not> fs_ok (sys w) MkLogDir
         \<longrightarrow> run env fuel (main args w) = Some (main args w) \<and> exitStatus (main args w) = 1)
    \<and> (stopCommand args \<and> fs_ok (sys w) MkLogDir
         \<longrightarrow> (\<exists>w'. run env 30 (main args w) = Some w' \<and> exitStatus w' = 0))
    \<and> (backgroundStart args \<and> fs_ok (sys w) MkLogDir \<and> \<not> running (fst (getStatus w)) \<longrightarrow>
         (\<not> logsOpen (sys w) \<or> spawn_result (sys w) = SpawnThrows
            \<longrightarrow> run env fuel (main args w) = Some (main args w)
              \<and> exitStatus (main args w) = 1)
         \<and> (logsOpen (sys w) \<and> spawn_result (sys w) = SpawnErrorEvent
            \<longrightarrow> (\<exists>w'. run env 1 (main args w) = Some w' \<and> exitStatus w' = 1))
         \<and> (logsOpen (sys w) \<and> spawn_result (sys w) = Spawned p \<and> j < 30
              \<and> (\<forall>k<j. stillStarting (Some p) (osAt env (seq w) (sys (main args w)) (Suc k)))
            \<longrightarrow> (launchFailed (Some p) (osAt env (seq w) (sys (main args w)) (Suc j))
                   \<longrightarrow> (\<exists>w'. run env (Suc j) (main args w) = Some w' \<and> exitStatus w' = 1))
              \<and> (launchSucceeded (Some p) (osAt env (seq w) (sys (main args w)) (Suc j))
                   \<longrightarrow> (\<exists>w'. run env (Suc j) (main args w) = Some w' \<and> exitStatus w' = 0)))
         \<and> (logsOpen (sys w) \<and> spawn_result (sys w) = Spawned p
              \<and> (\<forall>k<30. stillStarting (Some p) (osAt env (seq w) (sys (main args w)) (Suc k)))
            \<longrightarrow> (\<exists>w'. run env 30 (main args w) = Some w' \<and> exitStatus w' = 0)))
    \<and> (foregroundStart args \<and> fs_ok (sys w) MkLogDir \<and> \<not> running (fst (getStatus w)) \<longrightarrow>
         (spawn_result (sys w) = SpawnThrows
            \<longrightarrow> run env fuel (main args w) = Some (main args w)
              \<and> exitStatus (main args w) = 1)
         \<and> (spawn_result (sys w) = SpawnErrorEvent
            \<longrightarrow> (\<exists>w'. run env 1 (main args w) = Some w' \<and> LaunchFailed \<in> set (out w')
                  \<and> exitStatus w' = 0)))
    \<and> (launchFailed child (sys v) \<longrightarrow> exit_code (fire (CheckInterval child n) v) = Some 1)
    \<and> (launchSucceeded child (sys v) \<longrightarrow> exit_code (fire (CheckInterval child n) v) = Some 0)
    \<and> (\<not> running (fst (getStatus v)) \<and> (\<not> logsOpen (sys v) \<or> spawn_result (sys v) = SpawnThrows)
         \<longrightarrow> exit_code (fire (RestartTimeout True) v) = Some 1)
    \<and> (exit_code v = Some c \<longrightarrow> run env fuel v = Some v \<and> exitStatus v = c)"
proof -
  from assms have q: "quiet w" by (simp add: fresh_def quiet_def)
  from assms have t: "timers w = []" "exit_code w = None" "\<not> blocked w"
    by (simp_all add: fresh_def)
  from q have m: "accounted (main args w)" by (rule accounted_main)
  have one: "\<And>W. exit_code W = Some 1 \<Longrightarrow> run env fuel W = Some W \<and> exitStatus W = 1"
    by (simp add: run_halted halted_def exitStatus_def)
  have a: "\<forall>w'. run env fuel (main args w) = Some w'
            \<longrightarrow> exitStatus w' = (if list_ex fatal (out w') then 1 else 0)
              \<and> (list_ex resolved (out w') \<longrightarrow> exitStatus w' = 0)"
    using accounted_run [OF m] accounted_exitStatus accounted_resolved by blast
  have b: "unknownCommand args \<or> \<not> fs_ok (sys w) MkLogDir
         \<longrightarrow> run env fuel (main args w) = Some (main args w) \<and> exitStatus (main args w) = 1"
  proof
    assume "unknownCommand args \<or> \<not> fs_ok (sys w) MkLogDir"
    then have "exit_code (main args w) = Some 1"
      by (auto simp add: main_unknown) (simp add: main_def uncaught_def)
    then show "run env fuel (main args w) = Some (main args w) \<and> exitStatus (main args w) = 1"
      by (rule one)
  qed
  have c: "stopCommand args \<and> fs_ok (sys w) MkLogDir
         \<longrightarrow> (\<exists>w'. run env 30 (main args w) = Some w' \<and> exitStatus w' = 0)"
  proof
    assume "stopCommand args \<and> fs_ok (sys w) MkLogDir"
    then have "main args w = snd (stop w)" by (simp add: main_stop)
    moreover from t have "\<exists>w'. run env 30 (snd (stop w)) = Some w' \<and> exit_code w' = None"
      by (rule stop_run)
    ultimately show "\<exists>w'. run env 30 (main args w) = Some w' \<and> exitStatus w' = 0"
      by (auto simp add: exitStatus_def simp del: run.simps)
  qed
  have d: "backgroundStart args \<and> fs_ok (sys w) MkLogDir \<and> \<not> running (fst (getStatus w)) \<longrightarrow>
         (\<not> logsOpen (sys w) \<or> spawn_result (sys w) = SpawnThrows
            \<longrightarrow> run env fuel (main args w) = Some (main args w)
              \<and> exitStatus (main args w) = 1)
         \<and> (logsOpen (sys w) \<and> spawn_result (sys w) = SpawnErrorEvent
            \<longrightarrow> (\<exists>w'. run env 1 (main args w) = Some w' \<and> exitStatus w' = 1))
         \<and> (logsOpen (sys w) \<and> spawn_result (sys w) = Spawned p \<and> j < 30
              \<and> (\<forall>k<j. stillStarting (Some p) (osAt env (seq w) (sys (main args w)) (Suc k)))
            \<longrightarrow> (launchFailed (Some p) (osAt env (seq w) (sys (main args w)) (Suc j))
                   \<longrightarrow> (\<exists>w'. run env (Suc j) (main args w) = Some w' \<and> exitStatus w' = 1))
              \<and> (launchSucceeded (Some p) (osAt env (seq w) (sys (main args w)) (Suc j))
                   \<longrightarrow> (\<exists>w'. run env (Suc j) (main args w) = Some w' \<and> exitStatus w' = 0)))
         \<and> (logsOpen (sys w) \<and> spawn_result (sys w) = Spawned p
              \<and> (\<forall>k<30. stillStarting (Some p) (osAt env (seq w) (sys (main args w)) (Suc k)))
            \<longrightarrow> (\<exists>w'. run env 30 (main args w) = Some w' \<and> exitStatus w' = 0))"
  proof
    assume h: "backgroundStart args \<and> fs_ok (sys w) MkLogDir \<and> \<not> running (fst (getStatus w))"
    then have s: "main args w = snd (start True w)" by (simp add: main_background)
    from h have n: "\<not> running (fst (getStatus w))" by simp
    let ?L = "snd (start True w)"
    have d1: "\<not> logsOpen (sys w) \<or> spawn_result (sys w) = SpawnThrows
            \<longrightarrow> run env fuel ?L = Some ?L \<and> exitStatus ?L = 1"
      using start_daemon_throws [OF n] one by blast
    have d2: "logsOpen (sys w) \<and> spawn_result (sys w) = SpawnErrorEvent
            \<longrightarrow> (\<exists>w'. run env 1 ?L = Some w' \<and> exitStatus w' = 1)"
    proof
      assume "logsOpen (sys w) \<and> spawn_result (sys w) = SpawnErrorEvent"
      then have "\<exists>w'. run env 1 ?L = Some w' \<and> exit_code w' = Some 1"
        using start_daemon_error_event [OF n _ _ t(1,2)] by blast
      then show "\<exists>w'. run env 1 ?L = Some w' \<and> exitStatus w' = 1"
        by (auto simp add: exitStatus_def simp del: run.simps)
    qed
    have d3: "logsOpen (sys w) \<and> spawn_result (sys w) = Spawned p \<and> j < 30
              \<and> (\<forall>k<j. stillStarting (Some p) (osAt env (seq w) (sys ?L) (Suc k)))
            \<longrightarrow> (launchFailed (Some p) (osAt env (seq w) (sys ?L) (Suc j))
                   \<longrightarrow> (\<exists>w'. run env (Suc j) ?L = Some w' \<and> exitStatus w' = 1))
              \<and> (launchSucceeded (Some p) (osAt env (seq w) (sys ?L) (Suc j))
                   \<longrightarrow> (\<exists>w'. run env (Suc j) ?L = Some w' \<and> exitStatus w' = 0))"
    proof
      assume x: "logsOpen (sys w) \<and> spawn_result (sys w) = Spawned p \<and> j < 30
              \<and> (\<forall>k<j. stillStarting (Some p) (osAt env (seq w) (sys ?L) (Suc k)))"
      have r: "\<not> stillStarting (Some p) (osAt env (seq w) (sys ?L) (Suc j)) \<Longrightarrow>
          \<exists>w'. run env (Suc j) ?L = Some w'
            \<and> (launchFailed (Some p) (osAt env (seq w) (sys ?L) (Suc j)) \<longrightarrow> exit_code w' = Some 1)
            \<and> (launchSucceeded (Some p) (osAt env (seq w) (sys ?L) (Suc j)) \<longrightarrow> exit_code w' = Some 0)"
        using x by (intro launch_resolves [OF t(1,2) n]) simp_all
      show "(launchFailed (Some p) (osAt env (seq w) (sys ?L) (Suc j))
                   \<longrightarrow> (\<exists>w'. run env (Suc j) ?L = Some w' \<and> exitStatus w' = 1))
              \<and> (launchSucceeded (Some p) (osAt env (seq w) (sys ?L) (Suc j))
                   \<longrightarrow> (\<exists>w'. run env (Suc j) ?L = Some w' \<and> exitStatus w' = 0))"
        using r resolved_not_starting [of "Some p" "osAt env (seq w) (sys ?L) (Suc j)"]
        by (auto simp add: exitStatus_def simp del: run.simps osAt.simps)
    qed
    have d4: "logsOpen (sys w) \<and> spawn_result (sys w) = Spawned p
              \<and> (\<forall>k<30. stillStarting (Some p) (osAt env (seq w) (sys ?L) (Suc k)))
            \<longrightarrow> (\<exists>w'. run env 30 ?L = Some w' \<and> exitStatus w' = 0)"
    proof
      assume x: "logsOpen (sys w) \<and> spawn_result (sys w) = Spawned p
              \<and> (\<forall>k<30. stillStarting (Some p) (osAt env (seq w) (sys ?L) (Suc k)))"
      have "\<exists>w'. run env 30 ?L = Some w'
          \<and> exit_code w' = Some 0
          \<and> sys w' = osAt env (seq w) (sys ?L) 30
          \<and> kills w' = kills w
          \<and> out w' = out w @ launchLines (sys w) p @ [StartTimeout]
          \<and> now w' = now w + 6000"
        using x by (intro launch_times_out [OF t(1,2) n]) simp_all
      then show "\<exists>w'. run env 30 ?L = Some w' \<and> exitStatus w' = 0"
        by (auto simp add: exitStatus_def simp del: run.simps osAt.simps)
    qed
    from d1 d2 d3 d4 show "(\<not> logsOpen (sys w) \<or> spawn_result (sys w) = SpawnThrows
            \<longrightarrow> run env fuel (main args w) = Some (main args w)
              \<and> exitStatus (main args w) = 1)
         \<and> (logsOpen (sys w) \<and> spawn_result (sys w) = SpawnErrorEvent
            \<longrightarrow> (\<exists>w'. run env 1 (main args w) = Some w' \<and> exitStatus w' = 1))
         \<and> (logsOpen (sys w) \<and> spawn_result (sys w) = Spawned p \<and> j < 30
              \<and> (\<forall>k<j. stillStarting (Some p) (osAt env (seq w) (sys (main args w)) (Suc k)))
            \<longrightarrow> (launchFailed (Some p) (osAt env (seq w) (sys (main args w)) (Suc j))
                   \<longrightarrow> (\<exists>w'. run env (Suc j) (main args w) = Some w' \<and> exitStatus w' = 1))
              \<and> (launchSucceeded (Some p) (osAt env (seq w) (sys (main args w)) (Suc j))
                   \<longrightarrow> (\<exists>w'. run env (Suc j) (main args w) = Some w' \<and> exitStatus w' = 0)))
         \<and> (logsOpen (sys w) \<and> spawn_result (sys w) = Spawned p
              \<and> (\<forall>k<30. stillStarting (Some p) (osAt env (seq w) (sys (main args w)) (Suc k)))
            \<longrightarrow> (\<exists>w'. run env 30 (main args w) = Some w' \<and> exitStatus w' = 0))"
      unfolding s by blast
  qed
  have e: "launchFailed child (sys v) \<longrightarrow> exit_code (fire (CheckInterval child n) v) = Some 1"
    by (simp add: checkInterval_failed)
  have f: "launchSucceeded child (sys v) \<longrightarrow> exit_code (fire (CheckInterval child n) v) = Some 0"
    by (simp add: checkInterval_succeeded)
  have g: "\<not> running (fst (getStatus v)) \<and> (\<not> logsOpen (sys v) \<or> spawn_result (sys v) = SpawnThrows)
         \<longrightarrow> exit_code (fire (RestartTimeout True) v) = Some 1"
    using start_daemon_throws [of v] by auto
  have h: "exit_code v = Some c \<longrightarrow> run env fuel v = Some v \<and> exitStatus v = c"
    by (simp add: run_halted halted_def exitStatus_def)
  have i: "foregroundStart args \<and> fs_ok (sys w) MkLogDir \<and> \<not> running (fst (getStatus w)) \<longrightarrow>
         (spawn_result (sys w) = SpawnThrows
            \<longrightarrow> run env fuel (main args w) = Some (main args w)
              \<and> exitStatus (main args w) = 1)
         \<and> (spawn_result (sys w) = SpawnErrorEvent
            \<longrightarrow> (\<exists>w'. run env 1 (main args w) = Some w' \<and> LaunchFailed \<in> set (out w')
                  \<and> exitStatus w' = 0))"
  proof
    assume x: "foregroundStart args \<and> fs_ok (sys w) MkLogDir \<and> \<not> running (fst (getStatus w))"
    then have s: "main args w = snd (start False w)" by (simp add: main_foreground)
    from x have n: "\<not> running (fst (getStatus w))" by simp
    have i1: "spawn_result (sys w) = SpawnThrows
        \<longrightarrow> run env fuel (snd (start False w)) = Some (snd (start False w))
          \<and> exitStatus (snd (start False w)) = 1"
      using start_foreground_throws [OF n] one by blast
    have i2: "spawn_result (sys w) = SpawnErrorEvent
        \<longrightarrow> (\<exists>w'. run env 1 (snd (start False w)) = Some w' \<and> LaunchFailed \<in> set (out w')
              \<and> exitStatus w' = 0)"
    proof
      assume "spawn_result (sys w) = SpawnErrorEvent"
      from start_foreground_error_event [OF n this t(1,2,3), of env]
      show "\<exists>w'. run env 1 (snd (start False w)) = Some w' \<and> LaunchFailed \<in> set (out w')
              \<and> exitStatus w' = 0"
        by (auto simp add: exitStatus_def simp del: run.simps)
    qed
    from i1 i2 show "(spawn_result (sys w) = SpawnThrows
            \<longrightarrow> run env fuel (main args w) = Some (main args w)
              \<and> exitStatus (main args w) = 1)
         \<and> (spawn_result (sys w) = SpawnErrorEvent
            \<longrightarrow> (\<exists>w'. run env 1 (main args w) = Some w' \<and> LaunchFailed \<in> set (out w')
                  \<and> exitStatus w' = 0))"
      unfolding s by blast
  qed
  from a b c d e f g h i show ?thesis by blast
qed

text \<open>
  Instances: the failed stop above ends with 0; an unknown command ends with 1; a
  background launch ends with 1 when \<open>spawn\<close> throws, when the program cannot be
  found, and when the child is gone at the first tick, and with 0 when the first tick
  finds the child's marker; a foreground launch ends with 1 when \<open>spawn\<close> throws and
  with 0 when the program cannot be found.
\<close>

theorem exit_code_of_controller_witness:
  "fresh (boot deniedOs)
   \<and> (\<exists>w'. run idle 30 (main [str ''stop''] (boot deniedOs)) = Some w' \<and> exitStatus w' = 0)
   \<and> exitStatus (main [str ''frobnicate''] (boot deniedOs)) = 1
   \<and> exitStatus (main [str ''start'', str ''-d''] (boot noSpawnOs)) = 1
   \<and> (\<exists>w'. run idle 1 (main [str ''start'', str ''-d''] (boot noProgramOs)) = Some w'
          \<and> exitStatus w' = 1)
   \<and> (\<exists>w'. run (exitsAt 0 4243) 1 (main [str ''start'', str ''-d''] (boot emptyOs)) = Some w'
          \<and> exitStatus w' = 1)
   \<and> (\<exists>w'. run (readyAt 0 4243) 1 (main [str ''start'', str ''-d''] (boot emptyOs)) = Some w'
          \<and> exitStatus w' = 0)
   \<and> exitStatus (main [str ''start''] (boot noSpawnOs)) = 1
   \<and> (\<exists>w'. run idle 1 (main [str ''start''] (boot noProgramOs)) = Some w'
          \<and> LaunchFailed \<in> set (out w') \<and> exitStatus w' = 0)"
proof -
  let ?bg = "[str ''start'', str ''-d'']"
  have c: "stopCommand [str ''stop'']" "unknownCommand [str ''frobnicate'']"
    "backgroundStart ?bg" "foregroundStart [str ''start'']" "\<not> backgroundStart [str ''start'']"
    "\<not> foregroundStart ?bg"
    by (simp_all add: stopCommand_def unknownCommand_def backgroundStart_def foregroundStart_def
        commands_def)
  have d: "fs_ok (sys (boot deniedOs)) MkLogDir" "fs_ok (sys (boot noSpawnOs)) MkLogDir"
    "fs_ok (sys (boot noProgramOs)) MkLogDir" "fs_ok (sys (boot emptyOs)) MkLogDir"
    "logsOpen (sys (boot noProgramOs))" "logsOpen (sys (boot emptyOs))"
    by (simp_all add: logsOpen_def deniedOs_def noSpawnOs_def noProgramOs_def emptyOs_def
        exampleOs_def)
  have n: "\<not> running (fst (getStatus (boot noSpawnOs)))"
    "\<not> running (fst (getStatus (boot noProgramOs)))"
    "\<not> running (fst (getStatus (boot emptyOs)))"
    by (simp_all add: getStatus_absent noSpawnOs_def noProgramOs_def emptyOs_def exampleOs_def)
  have s: "spawn_result (sys (boot noSpawnOs)) = SpawnThrows"
    "spawn_result (sys (boot noProgramOs)) = SpawnErrorEvent"
    "spawn_result (sys (boot emptyOs)) = Spawned 4243"
    by (simp_all add: noSpawnOs_def noProgramOs_def emptyOs_def exampleOs_def)
  have m: "main ?bg (boot emptyOs) = snd (start True (boot emptyOs))"
    using d(4) c(3) by (rule main_background)
  have "kill_ok (sys (boot emptyOs)) 4243 SIG0"
    by (simp add: emptyOs_def exampleOs_def)
  then have k: "kill_ok (sys (main ?bg (boot emptyOs))) 4243 SIG0"
    by (simp only: m start_daemon_os [OF n(3) d(6) s(3)])
  have f: "launchFailed (Some 4243)
      (osAt (exitsAt 0 4243) (seq (boot emptyOs)) (sys (main ?bg (boot emptyOs))) (Suc 0))"
    by (simp add: launchFailed_def alive_def exitsAt_def gone_def)
  have r: "launchSucceeded (Some 4243)
      (osAt (readyAt 0 4243) (seq (boot emptyOs)) (sys (main ?bg (boot emptyOs))) (Suc 0))"
    using k by (simp add: launchSucceeded_def alive_def readyAt_def validMarker_def strictEq_def)
  from exit_code_of_controller [OF fresh_boot [of deniedOs], where env = idle
      and fuel = 30 and args = "[str ''stop'']"]
    exit_code_of_controller [OF fresh_boot [of deniedOs], where env = idle
      and fuel = 0 and args = "[str ''frobnicate'']"]
    exit_code_of_controller [OF fresh_boot [of noSpawnOs], where env = idle
      and fuel = 0 and args = ?bg]
    exit_code_of_controller [OF fresh_boot [of noProgramOs], where env = idle
      and fuel = 0 and args = ?bg]
    exit_code_of_controller [OF fresh_boot [of emptyOs], where env = "exitsAt 0 4243"
      and fuel = 0 and args = ?bg and p = 4243 and j = 0]
    exit_code_of_controller [OF fresh_boot [of emptyOs], where env = "readyAt 0 4243"
      and fuel = 0 and args = ?bg and p = 4243 and j = 0]
    exit_code_of_controller [OF fresh_boot [of noSpawnOs], where env = idle
      and fuel = 0 and args = "[str ''start'']"]
    exit_code_of_controller [OF fresh_boot [of noProgramOs], where env = idle
      and fuel = 0 and args = "[str ''start'']"]
    c d n s f r fresh_boot [of deniedOs]
  show ?thesis
    by (simp del: run.simps osAt.simps)
qed

subsection \<open>C3: the grace window\<close>

text \<open>
  Claim C3 says that when the process stays alive through the 30 polls, exactly one
  \<open>SIGKILL\<close> is sent and the PID record is cleared whether or not that signal
  succeeds. The signals are as claimed, and \<open>removePidFile\<close> runs in either case
  [285]; but \<open>removePidFile\<close> only tries [56-70]: when \<open>unlinkSync\<close> throws it prints
  the error and the record stays. Below, pid 4242 answers every probe, \<open>SIGKILL\<close>
  is delivered, and the PID file cannot be deleted.
\<close>

theorem pid_record_survives_forced_kill:
  "fst (stop (boot (pinned exampleOs)))
   \<and> map_option kills (run idle 30 (snd (stop (boot (pinned exampleOs)))))
       = Some [(Some 4242, SIGTERM), (Some 4242, SIGKILL)]
   \<and> map_option out (run idle 30 (snd (stop (boot (pinned exampleOs)))))
       = Some [Stopping (Some 4242), GraceTimeout, ForceStopped, CleanupFailed]
   \<and> map_option (pid_file \<circ> sys) (run idle 30 (snd (stop (boot (pinned exampleOs)))))
       = Some (Some (str ''4242''))"
proof -
  let ?w = "boot (pinned exampleOs)"
  have k: "kill_ok (sys ?w) 4242 SIGTERM" "kill_ok (pinned exampleOs) 4242 SIGKILL"
    by (simp_all add: pinned_def exampleOs_def)
  have p: "\<forall>k<30. kill_ok (osAt idle (seq ?w) (sys ?w) (Suc k)) 4242 SIG0"
    by (simp add: pinned_def exampleOs_def del: osAt.simps)
  have f: "fst (stop ?w)"
    by (simp add: stop_running [OF pinned_example_status k(1)])
  have c: "cleanupLines (pinned exampleOs) = [CleanupFailed]"
    "pid_file (afterCleanup (pinned exampleOs)) = Some (str ''4242'')"
    by (simp_all add: cleanupLines_def afterCleanup_def pinned_def exampleOs_def)
  from stop_grace_run [OF _ _ _ pinned_example_status k(1) p] f k(2) c
  show ?thesis by (auto simp del: run.simps osAt.simps)
qed

text \<open>
  Claim C3, amended: \<open>stop\<close> is invoked on a running process \<open>n\<close>, the graceful signal
  goes out, and the process answers the probe at each of the 30 polls (whatever else the
  environment does). Then the polling ends after 30 callbacks, 30000 ms after the
  call; the signals sent are exactly one \<open>SIGTERM\<close> and one \<open>SIGKILL\<close>; and the last
  tick has tried to remove the PID file and the marker: the PID file is gone if it could
  be deleted, and then the marker is gone if it could be deleted; a PID file that cannot
  be deleted stays. Nothing is assumed about whether \<open>SIGKILL\<close> is delivered or throws:
  the outcome only decides which of two lines is printed before the files are removed.
\<close>

theorem grace_window_exhausted:
  assumes "timers w = []" and "exit_code w = None" and "\<not> blocked w"
    and "fst (getStatus w) = \<lparr>running = True, pid = Some n\<rparr>"
    and "kill_ok (sys w) n SIGTERM"
    and "\<forall>k<30. kill_ok (osAt env (seq w) (sys w) (Suc k)) n SIG0"
  shows "fst (stop w)
    \<and> (\<exists>w'. run env 30 (snd (stop w)) = Some w'
          \<and> kills w' = kills w @ [(Some n, SIGTERM), (Some n, SIGKILL)]
          \<and> out w' = out w @ [Stopping (Some n), GraceTimeout,
                if kill_ok (osAt env (seq w) (sys w) 30) n SIGKILL
                then ForceStopped else ForceStopFailed]
              @ cleanupLines (osAt env (seq w) (sys w) 30)
          \<and> sys w' = afterCleanup (osAt env (seq w) (sys w) 30)
          \<and> (fs_ok (osAt env (seq w) (sys w) 30) UnlinkPid \<longrightarrow> pid_file (sys w') = None)
          \<and> (fs_ok (osAt env (seq w) (sys w) 30) UnlinkPid
               \<and> fs_ok (osAt env (seq w) (sys w) 30) UnlinkMarker
               \<longrightarrow> marker_file (sys w') = None)
          \<and> (\<not> fs_ok (osAt env (seq w) (sys w) 30) UnlinkPid
               \<longrightarrow> pid_file (sys w') = pid_file (osAt env (seq w) (sys w) 30))
          \<and> timers w' = [] \<and> exit_code w' = None \<and> now w' = now w + 30000)"
proof -
  from assms(4,5) have "fst (stop w)" by (simp add: stop_running)
  moreover from stop_grace_run [OF assms]
  obtain w' where "run env 30 (snd (stop w)) = Some w'"
    and "kills w' = kills w @ [(Some n, SIGTERM), (Some n, SIGKILL)]"
    and "out w' = out w @ [Stopping (Some n), GraceTimeout,
                if kill_ok (osAt env (seq w) (sys w) 30) n SIGKILL
                then ForceStopped else ForceStopFailed]
              @ cleanupLines (osAt env (seq w) (sys w) 30)"
    and s: "sys w' = afterCleanup (osAt env (seq w) (sys w) 30)"
    and "timers w' = []" and "exit_code w' = None" and "now w' = now w + 30000"
    by blast
  moreover from s have "fs_ok (osAt env (seq w) (sys w) 30) UnlinkPid \<longrightarrow> pid_file (sys w') = None"
    and "fs_ok (osAt env (seq w) (sys w) 30) UnlinkPid
               \<and> fs_ok (osAt env (seq w) (sys w) 30) UnlinkMarker
               \<longrightarrow> marker_file (sys w') = None"
    and "\<not> fs_ok (osAt env (seq w) (sys w) 30) UnlinkPid
               \<longrightarrow> pid_file (sys w') = pid_file (osAt env (seq w) (sys w) 30)"
    by (simp_all add: afterCleanup_files)
  ultimately show ?thesis by blast
qed

text \<open>
  An instance: pid 4242 takes \<open>SIGTERM\<close> and answers every probe, \<open>SIGKILL\<close> throws,
  no file operation fails, and nothing else happens. The PID file and the marker are
  removed all the same.
\<close>

theorem grace_window_exhausted_witness:
  "\<not> kill_ok stubbornOs 4242 SIGKILL
   \<and> fst (stop (boot stubbornOs))
   \<and> (\<exists>w'. run idle 30 (snd (stop (boot stubbornOs))) = Some w'
          \<and> kills w' = [(Some 4242, SIGTERM), (Some 4242, SIGKILL)]
          \<and> out w' = [Stopping (Some 4242), GraceTimeout, ForceStopFailed, PidFileRemoved,
                       MarkerRemoved]
          \<and> pid_file (sys w') = None \<and> marker_file (sys w') = None
          \<and> timers w' = [] \<and> now w' = 30000)"
proof -
  have b: "kill_ok (sys (boot stubbornOs)) 4242 SIGTERM" "\<not> kill_ok stubbornOs 4242 SIGKILL"
    "cleanupLines stubbornOs = [PidFileRemoved, MarkerRemoved]"
    "fs_ok stubbornOs UnlinkPid" "fs_ok stubbornOs UnlinkMarker"
    by (simp_all add: stubbornOs_def exampleOs_def cleanupLines_def)
  have c: "\<forall>k<30. kill_ok (osAt idle (seq (boot stubbornOs)) (sys (boot stubbornOs)) (Suc k)) 4242 SIG0"
    by (simp add: stubbornOs_def del: osAt.simps)
  from grace_window_exhausted [OF _ _ _ stubborn_status b(1) c] b
  show ?thesis by (auto simp del: run.simps osAt.simps)
qed

subsection \<open>C4: the order of the checks in a readiness tick\<close>

text \<open>
  Claim C4: in a readiness tick the liveness check comes first (a child that does not
  answer the probe resolves to exit code 1, whatever marker and log say); then the
  marker (with a live child and a marker naming it the tick resolves to exit code 0,
  sends nothing and leaves the files alone, whatever the log \<open>l\<close> holds); only then the
  log scan, which resolves to exit code 0 on a success string in the recent log of a
  log it can read. The scan depends on the last 30 lines only: text before a newline
  that is followed by at least 30 more lines (as \<open>split\<close> counts them) changes nothing
  of what the tick decides.
\<close>

theorem readiness_tick_order:
  "(\<not> isProcessRunning w child \<longrightarrow>
      exit_code (checkInterval child n w) = Some 1 \<and> kills (checkInterval child n w) = kills w)
   \<and> (isProcessRunning w child \<and> validMarker (marker_file (sys w)) child \<longrightarrow>
      verdict (checkInterval child n (withLog l w))
        = (Some 0, kills w, out w @ [StartedByMarker (markerPort (marker_file (sys w)))],
           pid_file (sys w), marker_file (sys w)))
   \<and> (isProcessRunning w child \<and> \<not> validMarker (marker_file (sys w)) child \<longrightarrow>
      checkInterval child n w = logScan child n w)
   \<and> (isProcessRunning w child \<and> \<not> validMarker (marker_file (sys w)) child
        \<and> fs_ok (sys w) ReadLog \<and> startupSucceeded (recentLog t) \<longrightarrow>
      verdict (checkInterval child n (withLog (Some t) w))
        = (Some 0, kills w, out w @ [StartedByLog], pid_file (sys w), marker_file (sys w)))
   \<and> (30 \<le> length (splitLines post) \<longrightarrow>
      verdict (checkInterval child n (withLog (Some (pre @ newline # post)) w))
        = verdict (checkInterval child n (withLog (Some post) w)))"
proof -
  have a: "\<not> isProcessRunning w child \<longrightarrow>
      exit_code (checkInterval child n w) = Some 1 \<and> kills (checkInterval child n w) = kills w"
    by (simp add: checkInterval_def)
  have b: "isProcessRunning w child \<and> validMarker (marker_file (sys w)) child \<longrightarrow>
      verdict (checkInterval child n (withLog l w))
        = (Some 0, kills w, out w @ [StartedByMarker (markerPort (marker_file (sys w)))],
           pid_file (sys w), marker_file (sys w))"
    by (simp add: checkInterval_def markerCheck_def verdict_def)
  have c: "isProcessRunning w child \<and> \<not> validMarker (marker_file (sys w)) child \<longrightarrow>
      checkInterval child n w = logScan child n w"
    by (simp add: checkInterval_def markerCheck_def)
  have e: "isProcessRunning w child \<and> \<not> validMarker (marker_file (sys w)) child
        \<and> fs_ok (sys w) ReadLog \<and> startupSucceeded (recentLog t) \<longrightarrow>
      verdict (checkInterval child n (withLog (Some t) w))
        = (Some 0, kills w, out w @ [StartedByLog], pid_file (sys w), marker_file (sys w))"
    by (simp add: checkInterval_def markerCheck_def logScan_def readLog_def verdict_def)
  have d: "30 \<le> length (splitLines post) \<longrightarrow>
      verdict (checkInterval child n (withLog (Some (pre @ newline # post)) w))
        = verdict (checkInterval child n (withLog (Some post) w))"
  proof
    assume "30 \<le> length (splitLines post)"
    then have r: "recentLog (pre @ newline # post) = recentLog post"
      by (rule recentLog_older)
    have y: "\<And>x. afterCleanup (sys (withLog x w)) = (afterCleanup (sys w))\<lparr>log_file := x\<rparr>"
      "\<And>x. cleanupLines (sys (withLog x w)) = cleanupLines (sys w)"
      by (simp_all add: afterCleanup_def cleanupLines_def withLog_def)
    show "verdict (checkInterval child n (withLog (Some (pre @ newline # post)) w))
          = verdict (checkInterval child n (withLog (Some post) w))"
      by (simp add: checkInterval_def markerCheck_def logScan_def readLog_def timeoutCheck_def
          verdict_def r Let_def removePidFile_lines y)
  qed
  from a b c d e show ?thesis by blast
qed

text \<open>
  Instances: a child that is gone fails the launch; a marker naming the live child wins
  over a failure line in the log; without a marker a success line in the log resolves
  the launch; and the same success line followed by 30 empty lines is no longer seen.
\<close>

theorem readiness_tick_order_witness:
  "exit_code (checkInterval (Some 4243) 1 (boot crashedOs)) = Some 1
   \<and> verdict (checkInterval (Some 4242) 1
        (withLog (Some (str ''Failed to start server'')) (boot exampleOs)))
      = (Some 0, [], [StartedByMarker (Number 3000)], Some (str ''4242''),
         Some (Json (Number 4242) (Number 3000)))
   \<and> verdict (checkInterval (Some 4243) 1
        (withLog (Some (str ''Claude Relay Service started on 3000'')) (boot failingOs)))
      = (Some 0, [], [StartedByLog], Some (str ''4243''), None)
   \<and> verdict (checkInterval (Some 4243) 1
        (withLog (Some (str ''Claude Relay Service started on 3000'' @ newline
                        # replicate 29 newline))
           (boot failingOs)))
      = (None, [], [], Some (str ''4243''), None)"
proof -
  have dead: "\<not> isProcessRunning (boot crashedOs) (Some 4243)"
    by (simp add: isProcessRunning_def crashedOs_def)
  have a: "isProcessRunning (boot exampleOs) (Some 4242)"
    by (simp add: isProcessRunning_def exampleOs_def)
  have b: "validMarker (marker_file (sys (boot exampleOs))) (Some 4242)"
    by (simp add: validMarker_def strictEq_def exampleOs_def)
  have c: "pid_file (sys (boot exampleOs)) = Some (str ''4242'')"
    "marker_file (sys (boot exampleOs)) = Some (Json (Number 4242) (Number 3000))"
    by (simp_all add: exampleOs_def)
  have f: "isProcessRunning (boot failingOs) (Some 4243)"
    "\<not> validMarker (marker_file (sys (boot failingOs))) (Some 4243)"
    "pid_file (sys (boot failingOs)) = Some (str ''4243'')"
    "marker_file (sys (boot failingOs)) = None"
    "fs_ok (sys (boot failingOs)) ReadLog"
    by (simp_all add: isProcessRunning_def validMarker_def failingOs_def exampleOs_def)
  have r: "recentLog (str ''Claude Relay Service started on 3000'')
      = str ''Claude Relay Service started on 3000''"
    by (rule recentLog_one_line) (simp add: str_def newline_def)
  have s: "startupSucceeded (recentLog (str ''Claude Relay Service started on 3000''))"
    by (simp add: r startupSucceeded_def) (simp add: str_def)
  have l: "30 \<le> length (splitLines (replicate 29 newline))"
    by (simp add: splitLines_newlines)
  have q: "verdict (checkInterval (Some 4243) 1 (withLog (Some (replicate 29 newline)) (boot failingOs)))
      = (None, [], [], Some (str ''4243''), None)"
    using f blank_log_silent
    by (simp add: checkInterval_def markerCheck_def logScan_def readLog_def timeoutCheck_def
        verdict_def recentLog_newlines)
  from readiness_tick_order [of "boot crashedOs" "Some 4243" 1]
    readiness_tick_order [of "boot exampleOs" "Some 4242" 1 "Some (str ''Failed to start server'')"]
    readiness_tick_order [of "boot failingOs" "Some 4243" 1 _
      "str ''Claude Relay Service started on 3000''" "replicate 29 newline"
      "str ''Claude Relay Service started on 3000''"]
    dead a b c f s l q
  show ?thesis by (simp add: markerPort_def)
qed

subsection \<open>C5: the soft timeout\<close>



subsection \<open>C6: a failure string in the log\<close>

text \<open>
  Claim C6 says that whenever the recent log holds a failure string, and no valid
  marker or success string came first, the detector clears the PID record, sends one
  \<open>SIGTERM\<close> to the child and exits non-zero. As stated it fails in two ways. When the
  child is already gone, the liveness check [129] resolves the failure before the log is
  read, and no signal is sent: below, child 4243 has written its failure line and
  exited. And \<open>removePidFile\<close> only tries to clear the record [56-70]: below, child
  4243 has written its failure line and still runs, the PID file cannot be deleted, and
  it is still there after the tick.
\<close>

theorem failure_tick_exceptions:
  "readLog (sys (boot crashedOs)) = Some (str ''Failed to start server'')
   \<and> startupFailed (recentLog (str ''Failed to start server''))
   \<and> \<not> startupSucceeded (recentLog (str ''Failed to start server''))
   \<and> \<not> validMarker (marker_file (sys (boot crashedOs))) (Some 4243)
   \<and> exit_code (checkInterval (Some 4243) 1 (boot crashedOs)) = Some 1
   \<and> kills (checkInterval (Some 4243) 1 (boot crashedOs)) = []
   \<and> readLog (sys (boot (pinned failingOs))) = Some (str ''Failed to connect to Redis'')
   \<and> startupFailed (recentLog (str ''Failed to connect to Redis''))
   \<and> \<not> startupSucceeded (recentLog (str ''Failed to connect to Redis''))
   \<and> \<not> validMarker (marker_file (sys (boot (pinned failingOs)))) (Some 4243)
   \<and> exit_code (checkInterval (Some 4243) 1 (boot (pinned failingOs))) = Some 1
   \<and> kills (checkInterval (Some 4243) 1 (boot (pinned failingOs))) = [(Some 4243, SIGTERM)]
   \<and> pid_file (sys (checkInterval (Some 4243) 1 (boot (pinned failingOs))))
       = Some (str ''4243'')"
proof -
  have r: "recentLog (str ''Failed to start server'') = str ''Failed to start server''"
    "recentLog (str ''Failed to connect to Redis'') = str ''Failed to connect to Redis''"
    by (rule recentLog_one_line, simp add: str_def newline_def)+
  have a: "startupFailed (str ''Failed to start server'')"
    "startupFailed (str ''Failed to connect to Redis'')"
    by (simp_all add: startupFailed_def) (simp_all add: str_def)
  have b: "\<not> startupSucceeded (str ''Failed to start server'')"
    "\<not> startupSucceeded (str ''Failed to connect to Redis'')"
    by (simp_all add: startupSucceeded_def) (simp_all add: str_def)
  have c: "\<not> isProcessRunning (boot crashedOs) (Some 4243)"
    "isProcessRunning (boot (pinned failingOs)) (Some 4243)"
    by (simp_all add: isProcessRunning_def crashedOs_def failingOs_def pinned_def)
  have d: "marker_file (sys (boot crashedOs)) = None"
    "readLog (sys (boot crashedOs)) = Some (str ''Failed to start server'')"
    "marker_file (sys (boot (pinned failingOs))) = None"
    "readLog (sys (boot (pinned failingOs))) = Some (str ''Failed to connect to Redis'')"
    "pid_file (afterCleanup (pinned failingOs)) = Some (str ''4243'')"
    by (simp_all add: readLog_def afterCleanup_def crashedOs_def failingOs_def pinned_def
        exampleOs_def)
  show ?thesis
    using a b c d
    by (simp add: r checkInterval_def markerCheck_def logScan_def validMarker_def)
qed

text \<open>
  Claim C6, amended: in a tick whose recent log holds a failure string and no success
  string, with no valid marker, the detector resolves to failure: exit code 1, nothing
  more to run, and \<open>removePidFile\<close> has run, so the PID file is gone if it could be
  deleted, and then the marker is gone if it could be deleted. If the child still answers
  the probe, exactly one \<open>SIGTERM\<close> is sent to it, and whether that call throws changes
  nothing; if the child is gone, no signal is sent.
\<close>

theorem failure_marker_tick:
  assumes "readLog (sys w) = Some l"
    and "startupFailed (recentLog l)"
    and "\<not> startupSucceeded (recentLog l)"
    and "\<not> validMarker (marker_file (sys w)) child"
  shows "exit_code (checkInterval child n w) = Some 1
    \<and> sys (checkInterval child n w) = afterCleanup (sys w)
    \<and> (fs_ok (sys w) UnlinkPid \<longrightarrow> pid_file (sys (checkInterval child n w)) = None)
    \<and> (fs_ok (sys w) UnlinkPid \<and> fs_ok (sys w) UnlinkMarker
         \<longrightarrow> marker_file (sys (checkInterval child n w)) = None)
    \<and> kills (checkInterval child n w)
        = kills w @ (if isProcessRunning w child then [(child, SIGTERM)] else [])
    \<and> halted (checkInterval child n w)"
  using assms
  by (simp add: checkInterval_def markerCheck_def logScan_def halted_def afterCleanup_files)

text \<open>
  An instance: child 4243 has logged that it cannot reach Redis and still runs;
  \<open>SIGTERM\<close> to it throws. The tick fails the launch all the same.
\<close>

theorem failure_marker_tick_witness:
  "isProcessRunning (boot failingOs) (Some 4243)
   \<and> \<not> kill_ok failingOs 4243 SIGTERM
   \<and> exit_code (checkInterval (Some 4243) 1 (boot failingOs)) = Some 1
   \<and> pid_file (sys (checkInterval (Some 4243) 1 (boot failingOs))) = None
   \<and> marker_file (sys (checkInterval (Some 4243) 1 (boot failingOs))) = None
   \<and> kills (checkInterval (Some 4243) 1 (boot failingOs)) = [(Some 4243, SIGTERM)]"
proof -
  have r: "recentLog (str ''Failed to connect to Redis'') = str ''Failed to connect to Redis''"
    by (rule recentLog_one_line) (simp add: str_def newline_def)
  have a: "startupFailed (recentLog (str ''Failed to connect to Redis''))"
    by (simp add: r startupFailed_def) (simp add: str_def)
  have b: "\<not> startupSucceeded (recentLog (str ''Failed to connect to Redis''))"
    by (simp add: r startupSucceeded_def) (simp add: str_def)
  have c: "isProcessRunning (boot failingOs) (Some 4243)" "\<not> kill_ok failingOs 4243 SIGTERM"
    "fs_ok (sys (boot failingOs)) UnlinkPid" "fs_ok (sys (boot failingOs)) UnlinkMarker"
    by (simp_all add: isProcessRunning_def failingOs_def exampleOs_def)
  have d: "readLog (sys (boot failingOs)) = Some (str ''Failed to connect to Redis'')"
    by (simp add: readLog_def failingOs_def exampleOs_def)
  have e: "\<not> validMarker (marker_file (sys (boot failingOs))) (Some 4243)"
    by (simp add: failingOs_def validMarker_def)
  from failure_marker_tick [OF d a b e, of 1] c show ?thesis by (simp add: afterCleanup_files)
qed

subsection \<open>C7: stop with nothing running\<close>

text \<open>
  Claim C7 says that when the registry reports not-running, \<open>stop\<close> removes any stale
  PID record and marker, returns the not-running outcome, sends no signal and raises no
  error. All of it holds but the removal, which \<open>removePidFile\<close> only tries [56-70]:
  when \<open>unlinkSync\<close> throws it prints the error, and the stale record stays. Below, no
  process answers and the PID file cannot be deleted.
\<close>

theorem stale_record_survives_stop:
  "\<not> running (fst (getStatus (boot (pinned staleOs))))
   \<and> fst (stop (boot (pinned staleOs))) = False
   \<and> out (snd (stop (boot (pinned staleOs)))) = [NotRunning, CleanupFailed]
   \<and> pid_file (sys (snd (stop (boot (pinned staleOs))))) = Some (str ''4242'')
   \<and> marker_file (sys (snd (stop (boot (pinned staleOs)))))
       = Some (Json (Number 4242) (Number 3000))"
proof -
  have n: "\<not> running (fst (getStatus (boot (pinned staleOs))))"
    by (simp add: pinned_stale_status)
  have c: "cleanupLines (pinned staleOs) = [CleanupFailed]"
    "afterCleanup (pinned staleOs) = pinned staleOs"
    "pid_file (pinned staleOs) = Some (str ''4242'')"
    "marker_file (pinned staleOs) = Some (Json (Number 4242) (Number 3000))"
    by (simp_all add: cleanupLines_def afterCleanup_def pinned_def staleOs_def exampleOs_def)
  show ?thesis
    using n c by (simp add: stop_not_running pinned_stale_status removePidFile_lines)
qed

text \<open>
  Claim C7, amended: when the registry reports not-running, \<open>stop\<close> returns false,
  tries to remove the PID file and the marker (the PID file is gone if it could be
  deleted, and then the marker is gone if it could be deleted), sends no signal, arms no
  timer, sets no exit code and prints only what reading the PID file printed, its notice
  and what the removal printed. It is idempotent: afterwards the registry still reports
  not-running, and a second \<open>stop\<close> returns false again and leaves the operating system
  as the first one did.
\<close>

theorem stop_when_not_running:
  assumes "\<not> running (fst (getStatus w))"
  shows "fst (stop w) = False
    \<and> sys (snd (stop w)) = afterCleanup (sys w)
    \<and> (fs_ok (sys w) UnlinkPid \<longrightarrow> pid_file (sys (snd (stop w))) = None)
    \<and> (fs_ok (sys w) UnlinkPid \<and> fs_ok (sys w) UnlinkMarker
         \<longrightarrow> marker_file (sys (snd (stop w))) = None)
    \<and> kills (snd (stop w)) = kills w
    \<and> timers (snd (stop w)) = timers w
    \<and> exit_code (snd (stop w)) = exit_code w
    \<and> out (snd (stop w)) = out w @ readPidLines (sys w) @ NotRunning # cleanupLines (sys w)
    \<and> \<not> running (fst (getStatus (snd (stop w))))
    \<and> fst (stop (snd (stop w))) = False
    \<and> sys (snd (stop (snd (stop w)))) = sys (snd (stop w))"
proof -
  let ?w' = "snd (stop w)"
  from assms have s: "stop w = (False, removePidFile (say NotRunning (snd (getStatus w))))"
    by (rule stop_not_running)
  then have y: "sys ?w' = afterCleanup (sys w)" by simp
  with assms have n: "\<not> running (fst (getStatus ?w'))" by (rule getStatus_afterCleanup)
  then have s': "stop ?w' = (False, removePidFile (say NotRunning (snd (getStatus ?w'))))"
    by (rule stop_not_running)
  have "sys (snd (stop ?w')) = sys ?w'"
    by (simp add: s' y afterCleanup_twice)
  moreover have "fst (stop ?w') = False" by (simp add: s')
  moreover have "fst (stop w) = False \<and> kills ?w' = kills w \<and> timers ?w' = timers w
      \<and> exit_code ?w' = exit_code w
      \<and> out ?w' = out w @ readPidLines (sys w) @ NotRunning # cleanupLines (sys w)"
    by (simp add: s removePidFile_lines)
  moreover have "(fs_ok (sys w) UnlinkPid \<longrightarrow> pid_file (sys ?w') = None)
      \<and> (fs_ok (sys w) UnlinkPid \<and> fs_ok (sys w) UnlinkMarker \<longrightarrow> marker_file (sys ?w') = None)"
    by (simp add: y afterCleanup_files)
  ultimately show ?thesis using y n by blast
qed

text \<open>
  An instance: a PID file and a marker left behind by a process that is gone, and no
  file operation fails.
\<close>

theorem stop_when_not_running_witness:
  "pid_file (sys (boot staleOs)) = Some (str ''4242'')
   \<and> fst (stop (boot staleOs)) = False
   \<and> pid_file (sys (snd (stop (boot staleOs)))) = None
   \<and> marker_file (sys (snd (stop (boot staleOs)))) = None
   \<and> kills (snd (stop (boot staleOs))) = []
   \<and> out (snd (stop (boot staleOs))) = [NotRunning, PidFileRemoved, MarkerRemoved]"
proof -
  have a: "\<not> running (fst (getStatus (boot staleOs)))" by (simp add: stale_status)
  have b: "pid_file (sys (boot staleOs)) = Some (str ''4242'')"
    "fs_ok (sys (boot staleOs)) UnlinkPid" "fs_ok (sys (boot staleOs)) UnlinkMarker"
    "readPidLines (sys (boot staleOs)) = []"
    "cleanupLines (sys (boot staleOs)) = [PidFileRemoved, MarkerRemoved]"
    by (simp_all add: staleOs_def exampleOs_def readPidLines_def cleanupLines_def)
  from stop_when_not_running [OF a] b show ?thesis by (simp add: afterCleanup_files)
qed

subsection \<open>C8: the files after a successful stop\<close>

text \<open>
  Claim C8 says that at the moment \<open>stop\<close> returns the stopped outcome neither the PID
  file nor the marker exists. As stated it fails: \<open>stop\<close> returns true [294] as soon as
  it has sent \<open>SIGTERM\<close> and armed its interval; the files are removed by a later tick
  [272, 285], and only if they can be deleted [56-70]. Below, \<open>stop\<close> returns true with
  both files still in place; and with a PID file that cannot be deleted, the process
  exits, the polling ends, and the PID file is still there. Inside \<open>restart\<close> the
  polling may never get that far: in the last run below \<open>stop\<close> returns true, pid 4242
  exits, the launch of \<open>restart\<close> fails with an unhandled \<open>error\<close> event, and the
  controller ends with the PID file in place although it could be deleted.
\<close>

theorem stop_returns_before_cleanup:
  "fst (stop (boot exampleOs))
   \<and> pid_file (sys (snd (stop (boot exampleOs)))) = Some (str ''4242'')
   \<and> marker_file (sys (snd (stop (boot exampleOs)))) = Some (Json (Number 4242) (Number 3000))
   \<and> fst (stop (boot (pinned exampleOs)))
   \<and> map_option timers (run (exitsAt 1 4242) 30 (snd (stop (boot (pinned exampleOs)))))
       = Some []
   \<and> map_option (pid_file \<circ> sys) (run (exitsAt 1 4242) 30 (snd (stop (boot (pinned exampleOs)))))
       = Some (Some (str ''4242''))
   \<and> fst (stop (say Restarting (boot unlaunchableOs)))
   \<and> map_option out
       (run (exitsAt 1 4242) 3 (main [str ''restart'', str ''-d''] (boot unlaunchableOs)))
     = Some [Restarting, Stopping (Some 4242), Starting, DaemonSpawned None, WritePidFailed,
             Waiting, Uncaught]
   \<and> map_option exitStatus
       (run (exitsAt 1 4242) 3 (main [str ''restart'', str ''-d''] (boot unlaunchableOs)))
     = Some 1
   \<and> map_option (pid_file \<circ> sys)
       (run (exitsAt 1 4242) 3 (main [str ''restart'', str ''-d''] (boot unlaunchableOs)))
     = Some (Some (str ''4242''))
   \<and> map_option (\<lambda>w. fs_ok (sys w) UnlinkPid)
       (run (exitsAt 1 4242) 3 (main [str ''restart'', str ''-d''] (boot unlaunchableOs)))
     = Some True"
proof -
  let ?env = "exitsAt 1 4242"
  let ?w = "boot (pinned exampleOs)"
  have k: "kill_ok (sys (boot exampleOs)) 4242 SIGTERM" "kill_ok (sys ?w) 4242 SIGTERM"
    by (simp_all add: exampleOs_def pinned_def)
  have a: "fst (stop (boot exampleOs))"
    "pid_file (sys (snd (stop (boot exampleOs)))) = Some (str ''4242'')"
    "marker_file (sys (snd (stop (boot exampleOs)))) = Some (Json (Number 4242) (Number 3000))"
    by (simp_all add: stop_running [OF example_status k(1)]) (simp_all add: exampleOs_def)
  have f: "fst (stop ?w)"
    by (simp add: stop_running [OF pinned_example_status k(2)])
  have e: "\<And>j. fs_ok (osAt ?env 0 (pinned exampleOs) j) = fs_ok (pinned exampleOs)"
    "\<And>j. pid_file (osAt ?env 0 (pinned exampleOs) j) = pid_file (pinned exampleOs)"
    by (rule osAt_frame, simp add: exitsAt_def gone_def)+
  have p: "\<And>j. pid_file (afterCleanup (osAt ?env 0 (pinned exampleOs) j)) = Some (str ''4242'')"
    by (simp only: afterCleanup_files e) (simp add: pinned_def exampleOs_def)
  from stop_polling [OF _ _ _ f, of ?env] a f p
  have "fst (stop (boot exampleOs))
   \<and> pid_file (sys (snd (stop (boot exampleOs)))) = Some (str ''4242'')
   \<and> marker_file (sys (snd (stop (boot exampleOs)))) = Some (Json (Number 4242) (Number 3000))
   \<and> fst (stop (boot (pinned exampleOs)))
   \<and> map_option timers (run (exitsAt 1 4242) 30 (snd (stop (boot (pinned exampleOs)))))
       = Some []
   \<and> map_option (pid_file \<circ> sys) (run (exitsAt 1 4242) 30 (snd (stop (boot (pinned exampleOs)))))
       = Some (Some (str ''4242''))"
    by (auto simp del: run.simps osAt.simps)
  with restart_cut_short show ?thesis by blast
qed

text \<open>
  Claim C8, amended: when \<open>stop\<close> returns true the PID file still exists. When nothing
  else is pending, as in the command \<open>stop\<close>, the polling it started ends within 30
  callbacks, whatever the environment does, and the tick that ends it has tried to
  remove both files: the PID file is gone if it could be deleted then, and then the
  marker is gone if it could be deleted.
\<close>

theorem stop_cleanup_after_polling:
  assumes "timers w = []" and "exit_code w = None" and "\<not> blocked w" and "fst (stop w)"
  shows "pid_file (sys (snd (stop w))) \<noteq> None
    \<and> (\<exists>w' j. j < 30 \<and> run env 30 (snd (stop w)) = Some w'
          \<and> timers w' = [] \<and> exit_code w' = None
          \<and> sys w' = afterCleanup (osAt env (seq w) (sys w) (Suc j))
          \<and> (fs_ok (osAt env (seq w) (sys w) (Suc j)) UnlinkPid \<longrightarrow> pid_file (sys w') = None)
          \<and> (fs_ok (osAt env (seq w) (sys w) (Suc j)) UnlinkPid
               \<and> fs_ok (osAt env (seq w) (sys w) (Suc j)) UnlinkMarker
               \<longrightarrow> marker_file (sys w') = None))"
proof -
  from stop_true [OF assms(4)] obtain n
    where g: "fst (getStatus w) = \<lparr>running = True, pid = Some n\<rparr>"
      and k: "kill_ok (sys w) n SIGTERM"
    by blast
  from g k have s: "sys (snd (stop w)) = sys w" by (simp add: stop_running)
  from getStatus_running [OF g] have p: "pid_file (sys (snd (stop w))) \<noteq> None"
    by (simp add: s)
  from stop_polling [OF assms, of env] obtain w' j
    where a: "j < 30" "run env 30 (snd (stop w)) = Some w'" "timers w' = []"
      "exit_code w' = None"
      and y: "sys w' = afterCleanup (osAt env (seq w) (sys w) (Suc j))"
    by blast
  from y have "(fs_ok (osAt env (seq w) (sys w) (Suc j)) UnlinkPid \<longrightarrow> pid_file (sys w') = None)
      \<and> (fs_ok (osAt env (seq w) (sys w) (Suc j)) UnlinkPid
            \<and> fs_ok (osAt env (seq w) (sys w) (Suc j)) UnlinkMarker
          \<longrightarrow> marker_file (sys w') = None)"
    by (simp add: afterCleanup_files)
  with p a y show ?thesis by blast
qed

text \<open>
  An instance: pid 4242 exits between the first poll and the second, and no file
  operation fails.
\<close>

theorem stop_cleanup_after_polling_witness:
  "fst (stop (boot exampleOs))
   \<and> (\<exists>w'. run (exitsAt 1 4242) 30 (snd (stop (boot exampleOs))) = Some w'
          \<and> pid_file (sys w') = None \<and> marker_file (sys w') = None \<and> timers w' = [])"
proof -
  let ?env = "exitsAt 1 4242"
  let ?w = "boot exampleOs"
  have k: "kill_ok (sys ?w) 4242 SIGTERM"
    by (simp add: exampleOs_def)
  have f: "fst (stop ?w)"
    by (simp add: stop_running [OF example_status k])
  have "\<And>j. fs_ok (osAt ?env 0 exampleOs j) = fs_ok exampleOs"
    by (rule osAt_frame) (simp add: exitsAt_def gone_def)
  then have e: "\<And>j op. fs_ok (osAt ?env 0 exampleOs j) op"
    by (simp add: exampleOs_def)
  from stop_cleanup_after_polling [OF _ _ _ f, of ?env] f e
  show ?thesis by (auto simp del: run.simps osAt.simps)
qed

subsection \<open>C9: the line count of \<open>logs\<close>\<close>

text \<open>
  Claim C9 says that a line count that parses to 0 or to no integer is replaced by 50,
  so that the count is always a positive integer. The replacement holds; the conclusion
  does not. The filter [442] drops arguments that start with a minus sign, but
  \<open>parseInt\<close> skips leading white space, so the argument \<open>" -5"\<close> passes the filter and
  parses to \<open>-5\<close>. And a run of digits too long for a number parses to \<open>Infinity\<close>:
  below, \<open>hugeCount\<close>, a one followed by 309 zeros.
\<close>

theorem line_count_exceptions:
  "linesArg [str ''logs'', str '' -5''] = Some (str '' -5'')
   \<and> linesOf [str ''logs'', str '' -5''] = Num (- 5)
   \<and> execs (main [str ''logs'', str '' -5''] (boot exampleOs)) = [TailLines (Num (- 5))]
   \<and> linesOf [str ''logs'', hugeCount] = Infinity
   \<and> execs (main [str ''logs'', hugeCount] (boot exampleOs)) = [TailLines Infinity]"
proof -
  have d: "fs_ok (sys (boot exampleOs)) MkLogDir" by (simp add: exampleOs_def)
  have a: "linesArg [str ''logs'', str '' -5''] = Some (str '' -5'')"
    by (simp add: linesArg_def) (simp add: str_def)
  have b: "parseInt (str '' -5'') = Num (- 5)"
    by (simp add: js)
  have c: "linesOf [str ''logs'', str '' -5''] = Num (- 5)"
    by (simp add: linesOf_def a b parseIntArg_def truthy_def)
  have h: "hugeCount = 49 # replicate 309 48"
    by (simp add: hugeCount_def str_def)
  have a': "linesArg [str ''logs'', hugeCount] = Some hugeCount"
    by (simp add: linesArg_def h) (simp add: str_def)
  define N :: nat where "N = 10 ^ 309"
  have v: "digitsValue 10 0 (49 # replicate 309 48) = N"
    by (simp add: digitsValue_zeros digitOf_def N_def)
  have "(2::nat) ^ 1024 \<le> N" by (simp add: N_def)
  then have o: "roundDouble N = None" by (rule roundDouble_overflow)
  have t: "takeWhile (isDigit 10) (49 # replicate 309 48) = 49 # replicate 309 48"
    by (simp add: isDigit_def digitOf_def)
  have p: "dropWhile isSpace (49 # replicate 309 48) = 49 # replicate 309 48"
    "take 1 (49 # replicate 309 48) = [49]" "take 2 (49 # replicate 309 48) = [49, 48]"
    by (simp_all add: isSpace_def)
  have q: "str ''-'' = [45]" "str ''+'' = [43]" "str ''0x'' = [48, 120]" "str ''0X'' = [48, 88]"
    by (simp_all add: str_def)
  have b': "parseInt hugeCount = Infinity"
    unfolding parseInt_def Let_def h p q by (simp add: t v o del: digitsValue.simps takeWhile.simps)
  have c': "linesOf [str ''logs'', hugeCount] = Infinity"
    by (simp add: linesOf_def a' b' parseIntArg_def truthy_def)
  have f: "str ''-f'' \<noteq> hugeCount" "str ''--follow'' \<noteq> hugeCount"
    by (simp_all add: h str_def)
  show ?thesis
    by (simp add: a c a' c' f main_logs [OF d] logs_def)
qed

text \<open>
  Claim C9, amended: a line count that parses to 0 or to no integer is replaced by 50,
  so the count handed to \<open>tail\<close> in bounded mode is never \<open>NaN\<close> and never 0: it is a
  non-zero integer or an infinity. It is a positive integer or \<open>Infinity\<close> whenever the
  positional argument does not begin with white space.
\<close>

theorem line_count_default:
  "((parseIntArg (linesArg args) = NaN \<or> parseIntArg (linesArg args) = Num 0)
       \<longrightarrow> linesOf args = Num 50)
   \<and> (linesOf args = Infinity \<or> linesOf args = NegInfinity
        \<or> (\<exists>n. linesOf args = Num n \<and> n \<noteq> 0))
   \<and> ((case linesArg args of None \<Rightarrow> True | Some a \<Rightarrow> dropWhile isSpace a = a)
       \<longrightarrow> linesOf args = Infinity \<or> (\<exists>n. linesOf args = Num n \<and> 0 < n))
   \<and> execs (logs (linesOf args) False w) = execs w @ [TailLines (linesOf args)]"
proof -
  have a: "(parseIntArg (linesArg args) = NaN \<or> parseIntArg (linesArg args) = Num 0)
       \<longrightarrow> linesOf args = Num 50"
    by (auto simp add: linesOf_def truthy_def)
  have b: "linesOf args = Infinity \<or> linesOf args = NegInfinity
        \<or> (\<exists>n. linesOf args = Num n \<and> n \<noteq> 0)"
    by (cases "parseIntArg (linesArg args)") (simp_all add: linesOf_def truthy_def)
  have c: "(case linesArg args of None \<Rightarrow> True | Some a \<Rightarrow> dropWhile isSpace a = a)
       \<longrightarrow> linesOf args = Infinity \<or> (\<exists>n. linesOf args = Num n \<and> 0 < n)"
  proof
    assume h: "case linesArg args of None \<Rightarrow> True | Some a \<Rightarrow> dropWhile isSpace a = a"
    show "linesOf args = Infinity \<or> (\<exists>n. linesOf args = Num n \<and> 0 < n)"
    proof (cases "linesArg args")
      case None
      then show ?thesis by (simp add: linesOf_def parseIntArg_def truthy_def)
    next
      case (Some a)
      with h have s: "dropWhile isSpace a = a" by simp
      from Some have "\<not> startsWith a (str ''-'')" by (rule linesArg_no_dash)
      with s have "take 1 (dropWhile isSpace a) \<noteq> str ''-''" by (simp add: startsWith_dash)
      then have m: "\<not> (parseInt a = NegInfinity \<or> (\<exists>n. parseInt a = Num n \<and> n < 0))"
        using parseInt_negative [of a] by blast
      then have n: "parseInt a \<noteq> NegInfinity" "\<And>n. parseInt a = Num n \<Longrightarrow> 0 \<le> n"
        by (simp, fastforce)
      show ?thesis
      proof (cases "parseInt a")
        case NaN
        with Some show ?thesis by (simp add: linesOf_def parseIntArg_def truthy_def)
      next
        case (Num k)
        with n(2) have "0 \<le> k" by simp
        with Num Some show ?thesis by (simp add: linesOf_def parseIntArg_def truthy_def)
      next
        case Infinity
        with Some show ?thesis by (simp add: linesOf_def parseIntArg_def truthy_def)
      next
        case NegInfinity
        with n(1) show ?thesis by simp
      qed
    qed
  qed
  have d: "execs (logs (linesOf args) False w) = execs w @ [TailLines (linesOf args)]"
    by (simp add: logs_def)
  from a b c d show ?thesis by blast
qed

text \<open>
  Instances: the argument \<open>0\<close> gives 50 lines, as does \<open>abc\<close>; the argument \<open>100\<close>
  gives 100.
\<close>

theorem line_count_default_witness:
  "parseIntArg (linesArg [str ''logs'', str ''0'']) = Num 0
   \<and> linesOf [str ''logs'', str ''0''] = Num 50
   \<and> parseIntArg (linesArg [str ''logs'', str ''abc'']) = NaN
   \<and> linesOf [str ''logs'', str ''abc''] = Num 50
   \<and> linesArg [str ''logs'', str ''100''] = Some (str ''100'')
   \<and> dropWhile isSpace (str ''100'') = str ''100''
   \<and> linesOf [str ''logs'', str ''100''] = Num 100"
proof -
  have a: "linesArg [str ''logs'', str ''0''] = Some (str ''0'')"
    "linesArg [str ''logs'', str ''abc''] = Some (str ''abc'')"
    "linesArg [str ''logs'', str ''100''] = Some (str ''100'')"
    by (simp_all add: linesArg_def) (simp_all add: str_def)
  have b: "parseIntArg (linesArg [str ''logs'', str ''0'']) = Num 0"
    "parseIntArg (linesArg [str ''logs'', str ''abc'']) = NaN"
    by (simp_all add: a parseIntArg_def, simp_all add: js)
  have c: "parseInt (str ''100'') = Num 100"
    by (simp add: js)
  have d: "dropWhile isSpace (str ''100'') = str ''100''"
    by (simp add: isSpace_def str_def)
  from line_count_default [of "[str ''logs'', str ''0'']"]
    line_count_default [of "[str ''logs'', str ''abc'']"]
    line_count_default [of "[str ''logs'', str ''100'']"]
    a b c d
  show ?thesis by (simp add: linesOf_def parseIntArg_def truthy_def)
qed

subsection \<open>C10: a PID file that holds no number\<close>

text \<open>
  Claim C10: when the PID file exists, can be read, and its text does not parse,
  \<open>getPid\<close> returns \<open>NaN\<close>, not null; \<open>getStatus\<close> reports not-running with pid null;
  \<open>status\<close> prints not-running; \<open>stop\<close> takes its not-running branch; and \<open>start\<close>
  goes on to launch. Each operation returns a value; none ends in an exception.
\<close>

theorem malformed_pid_record:
  assumes "pid_file (sys w) = Some text" and "fs_ok (sys w) ReadPid"
    and "parseInt (trim text) = NaN"
  shows "getPid w = (Some NaN, w)
    \<and> getStatus w = (\<lparr>running = False, pid = None\<rparr>, w)
    \<and> statusCmd w = (False, say StatusNotRunning w)
    \<and> stop w = (False, removePidFile (say NotRunning w))
    \<and> start daemon w =
        (True, (if daemon then startDaemon else startForeground) (clearMarker (say Starting w)))"
  using assms
  by (simp add: getPid_def getStatus_def truthyPid_def truthy_def statusCmd_def stop_def
      start_def)

text \<open>An instance: the PID file holds \<open>abc\<close>.\<close>

theorem malformed_pid_record_witness:
  "pid_file (sys (boot garbledOs)) = Some (str ''abc'') \<and> parseInt (trim (str ''abc'')) = NaN
   \<and> getPid (boot garbledOs) = (Some NaN, boot garbledOs)
   \<and> getStatus (boot garbledOs) = (\<lparr>running = False, pid = None\<rparr>, boot garbledOs)
   \<and> fst (start True (boot garbledOs))"
proof -
  have a: "pid_file (sys (boot garbledOs)) = Some (str ''abc'')"
    "fs_ok (sys (boot garbledOs)) ReadPid"
    by (simp_all add: garbledOs_def exampleOs_def)
  have b: "parseInt (trim (str ''abc'')) = NaN"
    by (simp add: js)
  from malformed_pid_record [OF a b, of True] a b show ?thesis by simp
qed

end
